(* ===== verification/Go_Prelude.thy ===== *)
theory Go_Prelude
  imports Main "HOL-Library.Sublist" "HOL-Library.Char_ord" "HOL-Library.List_Lexorder"
begin

text \<open>
  What every component shares: the outcome of a Go call (a value, an error, a panic or the
  end of the process), the chaining of calls, Go maps and the order of a \<^verbatim>\<open>range\<close> loop over
  them, and the part of \<^verbatim>\<open>strings\<close>, \<^verbatim>\<open>bytes\<close>, \<^verbatim>\<open>strconv\<close> and \<^verbatim>\<open>fmt\<close> the sources call.
  A Go string and a \<^verbatim>\<open>[]byte\<close> are both a list of bytes, the type \<open>string\<close> of HOL, so the
  conversions between them in the code are the identity.
\<close>

named_theorems go_simps \<open>unfolding the chaining of calls\<close>
named_theorems str_simps \<open>string predicates as list facts\<close>

section \<open>Outcomes of calls\<close>

type_synonym bytes = string

datatype goerr =
    NewErr string            \<comment> \<open>errors.New, or fmt.Errorf without a wrapped error\<close>
  | Wrap string goerr        \<comment> \<open>fmt.Errorf with a wrapped error (percent-w)\<close>

text \<open>The text of an error, \<open>err.Error()\<close>.\<close>

fun Error :: "goerr \<Rightarrow> string" where
  "Error (NewErr m) = m"
| "Error (Wrap m e) = m @ '': '' @ Error e"

datatype 'a go =
    Ok 'a
  | Fail goerr               \<comment> \<open>a non-nil error value\<close>
  | Panic string             \<comment> \<open>a run-time panic, panic(...) or logging Panicf\<close>
  | Exit int                 \<comment> \<open>os.Exit and the Fatalf functions, which exit with 1\<close>

fun go_bind :: "'a go \<Rightarrow> ('a \<Rightarrow> 'b go) \<Rightarrow> 'b go" where
  "go_bind (Ok x) f = f x"
| "go_bind (Fail e) f = Fail e"
| "go_bind (Panic p) f = Panic p"
| "go_bind (Exit c) f = Exit c"

text \<open>\<open>if err != nil { return fmt.Errorf(m + ": %w", err) }\<close>\<close>

fun wrapf :: "string \<Rightarrow> 'a go \<Rightarrow> 'a go" where
  "wrapf m (Fail e) = Fail (Wrap m e)"
| "wrapf m (Ok x) = Ok x"
| "wrapf m (Panic p) = Panic p"
| "wrapf m (Exit c) = Exit c"

text \<open>\<open>if err != nil { h }\<close> where \<open>h\<close> ends the process or the call.\<close>

fun on_fail :: "'a go \<Rightarrow> (goerr \<Rightarrow> 'a go) \<Rightarrow> 'a go" where
  "on_fail (Fail e) h = h e"
| "on_fail (Ok x) h = Ok x"
| "on_fail (Panic p) h = Panic p"
| "on_fail (Exit c) h = Exit c"

text \<open>Calls with effects: from a world to an outcome and the world after it.\<close>

type_synonym ('w, 'a) io = "'w \<Rightarrow> 'a go \<times> 'w"

definition io_ret :: "'a go \<Rightarrow> ('w, 'a) io" where
  "io_ret r w = (r, w)"

fun io_bind :: "('w, 'a) io \<Rightarrow> ('a \<Rightarrow> ('w, 'b) io) \<Rightarrow> ('w, 'b) io" where
  "io_bind m f w =
     (case m w of
        (Ok x, w') \<Rightarrow> f x w'
      | (Fail e, w') \<Rightarrow> (Fail e, w')
      | (Panic p, w') \<Rightarrow> (Panic p, w')
      | (Exit c, w') \<Rightarrow> (Exit c, w'))"

definition io_map_out :: "('a go \<Rightarrow> 'b go) \<Rightarrow> ('w, 'a) io \<Rightarrow> ('w, 'b) io" where
  "io_map_out f m w = (case m w of (r, w') \<Rightarrow> (f r, w'))"

text \<open>\<open>logging Panicf\<close> with the error behind the text, and \<open>Fatalf\<close>, on an error.\<close>

definition or_panic :: "string \<Rightarrow> 'a go \<Rightarrow> 'a go" where
  "or_panic m r = on_fail r (\<lambda>e. Panic (m @ '': '' @ Error e))"

definition or_fatal :: "'a go \<Rightarrow> 'a go" where
  "or_fatal r = on_fail r (\<lambda>_. Exit 1)"

section \<open>crypto/elliptic\<close>

datatype elliptic_curve = P224 | P256 | P384 | P521 | OtherCurve string

section \<open>Go maps\<close>

type_synonym gomap = "string \<rightharpoonup> bytes"

text \<open>
  \<open>m[k]\<close>: the value of a key, and the zero value of the slice where the key is missing.
  \<open>bytes.Equal\<close> and \<open>len\<close> do not tell a nil slice from an empty one.
\<close>

definition go_get :: "('k \<rightharpoonup> bytes) \<Rightarrow> 'k \<Rightarrow> bytes" where
  "go_get m k = (case m k of None \<Rightarrow> [] | Some v \<Rightarrow> v)"

text \<open>A \<open>range\<close> loop visits every key of the map once, in an order the runtime chooses.\<close>

definition range_order :: "('k \<rightharpoonup> 'v) \<Rightarrow> 'k list \<Rightarrow> bool" where
  "range_order m ks \<longleftrightarrow> distinct ks \<and> set ks = dom m"

section \<open>strings, bytes, strconv, fmt\<close>

fun HasPrefix :: "'a list \<Rightarrow> 'a list \<Rightarrow> bool" where
  "HasPrefix s [] = True"
| "HasPrefix [] (p # ps) = False"
| "HasPrefix (c # s) (p # ps) = (c = p \<and> HasPrefix s ps)"

definition HasSuffix :: "'a list \<Rightarrow> 'a list \<Rightarrow> bool" where
  "HasSuffix s p = HasPrefix (rev s) (rev p)"

fun Contains :: "'a list \<Rightarrow> 'a list \<Rightarrow> bool" where
  "Contains [] p = HasPrefix [] p"
| "Contains (c # s) p = (HasPrefix (c # s) p \<or> Contains s p)"

definition TrimSuffix :: "'a list \<Rightarrow> 'a list \<Rightarrow> 'a list" where
  "TrimSuffix s p = (if HasSuffix s p then take (length s - length p) s else s)"

text \<open>\<open>strings.ToLower\<close> and \<open>bytes.TrimSpace\<close> on ASCII text.\<close>

definition lower_char :: "char \<Rightarrow> char" where
  "lower_char c =
     (let n = of_char c :: nat in if 65 \<le> n \<and> n \<le> 90 then char_of (n + 32) else c)"

definition ToLower :: "string \<Rightarrow> string" where
  "ToLower s = map lower_char s"

definition is_space :: "char \<Rightarrow> bool" where
  "is_space c = (let n = of_char c :: nat in n = 32 \<or> 9 \<le> n \<and> n \<le> 13)"

definition TrimSpace :: "string \<Rightarrow> string" where
  "TrimSpace s = rev (dropWhile is_space (rev (dropWhile is_space s)))"

text \<open>The decimal text of a number: percent-d and fmt.Sprint.\<close>

definition digit :: "nat \<Rightarrow> char" where
  "digit d = char_of (d + 48)"

fun itoa :: "nat \<Rightarrow> string" where
  "itoa n = (if n < 10 then [digit n] else itoa (n div 10) @ [digit (n mod 10)])"

declare itoa.simps [simp del]

definition itoa_int :: "int \<Rightarrow> string" where
  "itoa_int i = (if i < 0 then CHR ''-'' # itoa (nat (- i)) else itoa (nat i))"

text \<open>A slice of bytes as percent-v prints it: the numbers of the bytes in brackets.\<close>

fun join_space :: "string list \<Rightarrow> string" where
  "join_space [] = []"
| "join_space [x] = x"
| "join_space (x # xs) = x @ '' '' @ join_space xs"

definition fmt_bytes :: "bytes \<Rightarrow> string" where
  "fmt_bytes bs = ''['' @ join_space (map (\<lambda>c. itoa (of_char c)) bs) @ '']''"

text \<open>
  \<open>strconv.Quote\<close> and percent-q, byte by byte: quotes, the escapes with a letter, and two hexadecimal
  digits for every other byte that is not printable ASCII.
\<close>

definition hex_digit :: "nat \<Rightarrow> char" where
  "hex_digit d = char_of (if d < 10 then d + 48 else d + 87)"

definition hex_byte :: "char \<Rightarrow> string" where
  "hex_byte c = [hex_digit (of_char c div 16), hex_digit (of_char c mod 16)]"

definition quote_char :: "char \<Rightarrow> string" where
  "quote_char c =
     (let n = of_char c :: nat in
      if n = 34 \<or> n = 92 then [CHR 0x5C, c]
      else if 32 \<le> n \<and> n < 127 then [c]
      else if 7 \<le> n \<and> n \<le> 13 then [CHR 0x5C, ''abtnvfr'' ! (n - 7)]
      else [CHR 0x5C, CHR ''x''] @ hex_byte c)"

definition Quote :: "string \<Rightarrow> string" where
  "Quote s = [CHR 0x22] @ concat (map quote_char s) @ [CHR 0x22]"

text \<open>\<open>strconv.ParseInt(s, 10, 64)\<close>: an optional sign, then one or more digits, in range.\<close>

definition digit_val :: "char \<Rightarrow> nat option" where
  "digit_val c = (let n = of_char c :: nat in if 48 \<le> n \<and> n \<le> 57 then Some (n - 48) else None)"

fun parse_digits :: "nat \<Rightarrow> string \<Rightarrow> nat option" where
  "parse_digits acc [] = Some acc"
| "parse_digits acc (c # s) =
     (case digit_val c of None \<Rightarrow> None | Some d \<Rightarrow> parse_digits (10 * acc + d) s)"

definition int64_range :: "int \<Rightarrow> bool" where
  "int64_range i \<longleftrightarrow> - (2 ^ 63) \<le> i \<and> i < 2 ^ 63"

definition ParseInt :: "string \<Rightarrow> int go" where
  "ParseInt s =
     (let (neg, ds) = (case s of
             [] \<Rightarrow> (False, [])
           | c # t \<Rightarrow> if c = CHR ''-'' then (True, t) else if c = CHR ''+'' then (False, t) else (False, s))
      in if ds = [] then Fail (NewErr ''invalid syntax'')
         else case parse_digits 0 ds of
             None \<Rightarrow> Fail (NewErr ''invalid syntax'')
           | Some n \<Rightarrow> (let i = (if neg then - int n else int n)
               in if int64_range i then Ok i else Fail (NewErr ''value out of range'')))"

section \<open>Lemmas\<close>

subsection \<open>Chaining\<close>

lemma go_bind_Ok_conv [simp]: "go_bind m f = Ok y \<longleftrightarrow> (\<exists>x. m = Ok x \<and> f x = Ok y)"
  by (cases m) auto

lemma wrapf_Ok_conv [simp]: "wrapf s m = Ok y \<longleftrightarrow> m = Ok y"
  by (cases m) auto

lemma or_panic_Ok_conv [simp]: "or_panic s m = Ok y \<longleftrightarrow> m = Ok y"
  by (cases m) (auto simp: or_panic_def)

lemma on_fail_Panic_Ok [simp]: "on_fail m (\<lambda>e. Panic (s e)) = Ok x \<longleftrightarrow> m = Ok x"
  by (cases m) auto

lemma or_fatal_Ok_conv [simp]: "or_fatal m = Ok y \<longleftrightarrow> m = Ok y"
  by (cases m) (auto simp: or_fatal_def)

lemma io_map_out_Ok_conv [simp]:
  "(\<And>r. f r = Ok y \<longleftrightarrow> r = Ok y) \<Longrightarrow> io_map_out f m w = (Ok y, w') \<longleftrightarrow> m w = (Ok y, w')"
  by (auto simp: io_map_out_def split: prod.splits)

lemma go_bind_assoc [go_simps]: "go_bind (go_bind m f) g = go_bind m (\<lambda>x. go_bind (f x) g)"
  by (cases m) auto

lemma io_bind_Ok_conv:
  "io_bind m f w = (Ok y, w2) \<longleftrightarrow> (\<exists>x w1. m w = (Ok x, w1) \<and> f x w1 = (Ok y, w2))"
  by (auto split: prod.splits go.splits)

lemma io_ret_Ok_conv [simp]: "io_ret r w = (Ok y, w') \<longleftrightarrow> r = Ok y \<and> w' = w"
  by (auto simp: io_ret_def)

subsection \<open>What a call keeps, whatever its outcome\<close>

definition stable :: "('w \<Rightarrow> bool) \<Rightarrow> ('w, 'a) io \<Rightarrow> bool" where
  "stable I m \<longleftrightarrow> (\<forall>w. I w \<longrightarrow> I (snd (m w)))"

lemma stableI: "(\<And>w r w'. I w \<Longrightarrow> m w = (r, w') \<Longrightarrow> I w') \<Longrightarrow> stable I m"
  by (auto simp: stable_def prod_eq_iff)

lemma stableD: "stable I m \<Longrightarrow> I w \<Longrightarrow> m w = (r, w') \<Longrightarrow> I w'"
  by (metis stable_def snd_conv)

lemma stable_ret: "stable I (io_ret r)"
  by (simp add: stable_def io_ret_def)

lemma stable_map_out: "stable I m \<Longrightarrow> stable I (io_map_out f m)"
  by (rule stableI) (auto simp: io_map_out_def split: prod.splits dest: stableD)

lemma stable_bind: "stable I m \<Longrightarrow> (\<And>x. stable I (f x)) \<Longrightarrow> stable I (io_bind m f)"
proof (rule stableI)
  fix w r w'
  assume m: "stable I m" and f: "\<And>x. stable I (f x)" and w: "I w" and run: "io_bind m f w = (r, w')"
  obtain x w1 where x: "m w = (x, w1)" by (metis prod.collapse)
  have "I w1" by (rule stableD [OF m w x])
  with run x stableD [OF f] show "I w'" by (cases x) auto
qed

lemma stable_bind_ret:
  assumes "\<And>x. r = Ok x \<Longrightarrow> stable I (f x)"
  shows "stable I (io_bind (io_ret r) f)"
  using assms by (cases r) (auto simp: stable_def io_ret_def)

lemma stable_if: "(b \<Longrightarrow> stable I m) \<Longrightarrow> (\<not> b \<Longrightarrow> stable I n) \<Longrightarrow> stable I (if b then m else n)"
  by simp

lemma stable_let: "(\<And>x. x = t \<Longrightarrow> stable I (f x)) \<Longrightarrow> stable I (Let t f)"
  by simp

lemma stable_case_prod: "(\<And>a b. x = (a, b) \<Longrightarrow> stable I (f a b)) \<Longrightarrow> stable I (case x of (a, b) \<Rightarrow> f a b)"
  by (cases x) simp

lemma stable_case_option:
  "(x = None \<Longrightarrow> stable I m) \<Longrightarrow> (\<And>a. x = Some a \<Longrightarrow> stable I (f a)) \<Longrightarrow> stable I (case x of None \<Rightarrow> m | Some a \<Rightarrow> f a)"
  by (cases x) simp_all

text \<open>The rules for the shape of a call, the more special one first.\<close>

lemmas stable_rules = stable_ret stable_map_out stable_bind_ret stable_bind stable_if stable_let stable_case_prod
  stable_case_option

subsection \<open>Maps\<close>

lemma go_get_Some [simp]: "m k = Some v \<Longrightarrow> go_get m k = v"
  by (simp add: go_get_def)

lemma go_get_None [simp]: "m k = None \<Longrightarrow> go_get m k = []"
  by (simp add: go_get_def)

lemma go_get_upd [simp]: "go_get (m(k \<mapsto> v)) k' = (if k' = k then v else go_get m k')"
  by (simp add: go_get_def)

lemma finite_dom_upd: "finite (dom m) \<Longrightarrow> finite (dom (m(k \<mapsto> v)))"
  by simp

lemma finite_dom_empty: "finite (dom Map.empty)"
  by simp

lemma range_order_finite: "range_order m ks \<Longrightarrow> finite (dom m)"
  by (auto simp: range_order_def intro: finite_subset [of _ "set ks"])

subsection \<open>Strings\<close>

lemma HasPrefix_iff [str_simps]: "HasPrefix s p \<longleftrightarrow> (\<exists>t. s = p @ t)"
  by (induction s p rule: HasPrefix.induct) auto

lemma HasPrefix_append [simp]: "HasPrefix (p @ t) p"
  by (auto simp: HasPrefix_iff)

lemma HasSuffix_iff [str_simps]: "HasSuffix s p \<longleftrightarrow> (\<exists>t. s = t @ p)"
proof -
  have "rev s = rev p @ u \<longleftrightarrow> s = rev u @ p" for u
    by (metis rev_append rev_rev_ident)
  then show ?thesis
    unfolding HasSuffix_def HasPrefix_iff by (metis rev_rev_ident)
qed

lemma Contains_iff [str_simps]: "Contains s p \<longleftrightarrow> (\<exists>a b. s = a @ p @ b)"
proof (induction s)
  case Nil
  then show ?case by (auto simp: HasPrefix_iff)
next
  case (Cons c s)
  show ?case
  proof
    assume "Contains (c # s) p"
    then have "(\<exists>b. c # s = p @ b) \<or> (\<exists>a b. s = a @ p @ b)"
      by (simp add: Cons.IH HasPrefix_iff)
    then show "\<exists>a b. c # s = a @ p @ b"
      by (metis append_Cons append_Nil)
  next
    assume "\<exists>a b. c # s = a @ p @ b"
    then obtain a b where ab: "c # s = a @ p @ b" by blast
    show "Contains (c # s) p"
    proof (cases a)
      case Nil
      with ab have "HasPrefix (c # s) p" unfolding HasPrefix_iff by simp
      then show ?thesis by simp
    next
      case (Cons x a')
      with ab have "s = a' @ p @ b" by simp
      then have "Contains s p" unfolding Cons.IH by blast
      then show ?thesis by simp
    qed
  qed
qed

lemma Contains_append_left: "Contains s p \<Longrightarrow> Contains (s @ t) p"
  unfolding Contains_iff by fastforce

lemma Contains_append_right: "Contains t p \<Longrightarrow> Contains (s @ t) p"
  unfolding Contains_iff by (metis append.assoc)

subsection \<open>Decimal text\<close>

lemma digit_val_digit [simp]: "d < 10 \<Longrightarrow> digit_val (digit d) = Some d"
  by (simp add: digit_val_def digit_def Let_def)

lemma parse_digits_append:
  "parse_digits acc (s @ t) =
     (case parse_digits acc s of None \<Rightarrow> None | Some n \<Rightarrow> parse_digits n t)"
  by (induction s arbitrary: acc) (auto split: option.splits)

lemma parse_digits_itoa: "parse_digits 0 (itoa n) = Some n"
proof (induction n rule: itoa.induct)
  case (1 n)
  show ?case
  proof (cases "n < 10")
    case True
    then show ?thesis by (simp add: itoa.simps [of n])
  next
    case False
    with "1.IH" show ?thesis
      by (simp add: itoa.simps [of n] parse_digits_append)
  qed
qed

lemma itoa_inject [simp]: "itoa m = itoa n \<longleftrightarrow> m = n"
  by (metis option.inject parse_digits_itoa)

lemma itoa_nonempty [simp]: "itoa n \<noteq> []"
  by (subst itoa.simps) simp

lemma itoa_digits: "c \<in> set (itoa n) \<Longrightarrow> \<exists>d < 10. c = digit d"
proof (induction n rule: itoa.induct)
  case (1 n)
  show ?case
  proof (cases "n < 10")
    case True
    with "1.prems" show ?thesis by (auto simp: itoa.simps [of n])
  next
    case False
    with "1.prems" consider "c \<in> set (itoa (n div 10))" | "c = digit (n mod 10)"
      by (auto simp: itoa.simps [of n])
    then show ?thesis
    proof cases
      case 1
      with False "1.IH" show ?thesis by simp
    next
      case 2
      then show ?thesis by (intro exI [of _ "n mod 10"]) simp
    qed
  qed
qed

lemma itoa_below_colon: "c \<in> set (itoa n) \<Longrightarrow> (of_char c :: nat) < 58"
  using itoa_digits [of c n] by (auto simp: digit_def)

lemma itoa_hd_not_sign: "itoa n = c # t \<Longrightarrow> c \<noteq> CHR ''-'' \<and> c \<noteq> CHR ''+''"
proof -
  assume "itoa n = c # t"
  then have "c \<in> set (itoa n)" by simp
  then obtain d where d: "d < 10" "c = digit d" by (blast dest: itoa_digits)
  then have "(of_char c :: nat) = d + 48" by (simp add: digit_def)
  then show ?thesis by auto
qed

lemma ParseInt_itoa_int:
  assumes "int64_range i"
  shows "ParseInt (itoa_int i) = Ok i"
proof (cases "i < 0")
  case True
  then show ?thesis
    using assms by (simp add: ParseInt_def itoa_int_def parse_digits_itoa)
next
  case False
  obtain c t where ct: "itoa (nat i) = c # t"
    using itoa_nonempty by (metis neq_Nil_conv)
  with itoa_hd_not_sign have "c \<noteq> CHR ''-''" "c \<noteq> CHR ''+''" by blast+
  with False ct assms parse_digits_itoa [of "nat i"] show ?thesis
    by (simp add: ParseInt_def itoa_int_def)
qed

end
