(* ===== verification/Kube_Secret.thy ===== *)
theory Kube_Secret
  imports Go_Prelude
begin

text \<open>
  \<^verbatim>\<open>tools/secret/pkg/secret/secret.go\<close>: \<open>ReconcileSecret\<close>, through which every job of the
  repository writes its keys and certificates into the cluster.

  The Kubernetes client (\<open>v1.SecretInterface\<close>, \<open>apierrs.IsNotFound\<close>) is not part of the
  repository: it is the parameter \<open>secret_if\<close> of the definitions, a record of the calls over
  an arbitrary type of worlds, and the locale \<open>secret_api\<close> names what its documentation
  promises of a call that reports no error. \<open>view w n\<close> is the data the API server holds
  for the secret \<open>n\<close> of the namespace, \<open>None\<close> when there is no such secret. No law
  excludes failing calls, and none says what a failed write left behind. The locale
  \<open>secret_api_live\<close> adds that calls do not fail; it is used only to show that the code gets
  to its end. A map of \<^verbatim>\<open>Data\<close> is nil (\<open>None\<close>) when the object has no data, and writing to
  it is a run-time panic. The server sets the resource version of an object it returns; the
  object \<open>ReconcileSecret\<close> makes itself has none.
\<close>

section \<open>The client\<close>

record secret =
  sec_Namespace :: string
  sec_Name :: string
  sec_ResourceVersion :: string
  sec_Data :: "gomap option"

record 'w secret_if =
  si_Get :: "string \<Rightarrow> 'w \<Rightarrow> (secret option \<times> goerr option) \<times> 'w"
  si_Create :: "secret \<Rightarrow> 'w \<Rightarrow> goerr option \<times> 'w"
  si_Update :: "secret \<Rightarrow> 'w \<Rightarrow> goerr option \<times> 'w"
  si_IsNotFound :: "goerr \<Rightarrow> bool"

text \<open>Reading a nil map finds no key.\<close>

definition nil_map :: "gomap option \<Rightarrow> gomap" where
  "nil_map d = (case d of None \<Rightarrow> Map.empty | Some m \<Rightarrow> m)"

section \<open>ReconcileSecret\<close>

text \<open>\<open>for k := range data\<close>: lines 44 to 50, the keys visited in the order \<open>ks\<close>.\<close>

fun reconcile_fields ::
  "gomap \<Rightarrow> string list \<Rightarrow> gomap option \<Rightarrow> bool \<Rightarrow> (gomap option \<times> bool) go" where
  "reconcile_fields data [] ex update = Ok (ex, update)"
| "reconcile_fields data (k # ks) ex update =
     (if go_get data k \<noteq> go_get (nil_map ex) k
      then (case ex of
              None \<Rightarrow> Panic ''assignment to entry in nil map''
            | Some m \<Rightarrow> reconcile_fields data ks (Some (m(k \<mapsto> go_get data k))) True)
      else reconcile_fields data ks ex update)"

definition reconcile_existing ::
  "'w secret_if \<Rightarrow> string \<Rightarrow> string \<Rightarrow> gomap \<Rightarrow> string list \<Rightarrow> secret \<Rightarrow> ('w, unit) io" where
  "reconcile_existing C name ns data ks s w =
     (case reconcile_fields data ks (sec_Data s) False of
        Ok (d, update) \<Rightarrow>
          (if update
           then (case si_Update C (s\<lparr>sec_Data := d\<rparr>) w of
                   (None, w') \<Rightarrow> (Ok (), w')
                 | (Some e, w') \<Rightarrow>
                     (Fail (Wrap (''failed to update secret '' @ ns @ ''/'' @ name) e), w'))
           else (Ok (), w))
      | Fail e \<Rightarrow> (Fail e, w)
      | Panic p \<Rightarrow> (Panic p, w)
      | Exit c \<Rightarrow> (Exit c, w))"

definition reconcile_create ::
  "'w secret_if \<Rightarrow> string \<Rightarrow> string \<Rightarrow> gomap \<Rightarrow> ('w, unit) io" where
  "reconcile_create C name ns data w =
     (case si_Create C \<lparr>sec_Namespace = ns, sec_Name = name, sec_ResourceVersion = [], sec_Data = Some data\<rparr> w of
        (None, w') \<Rightarrow> (Ok (), w')
      | (Some e, w') \<Rightarrow>
          (Fail (Wrap (''failed to create secret '' @ ns @ ''/'' @ name) e), w'))"

text \<open>What happens after the answer of the first call.\<close>

definition reconcile_answer ::
  "'w secret_if \<Rightarrow> string \<Rightarrow> string \<Rightarrow> gomap \<Rightarrow> string list \<Rightarrow> secret option \<times> goerr option \<Rightarrow> ('w, unit) io" where
  "reconcile_answer C name ns data ks answer w =
     (case answer of (existingSecret, err) \<Rightarrow>
       (case err of
          Some e \<Rightarrow>
            if \<not> si_IsNotFound C e
            then (Fail (Wrap (''failed to get secret '' @ ns @ ''/'' @ name) e), w)
            else reconcile_create C name ns data w
        | None \<Rightarrow>
            (case existingSecret of
               Some s \<Rightarrow> reconcile_existing C name ns data ks s w
             | None \<Rightarrow> reconcile_create C name ns data w)))"

definition ReconcileSecret ::
  "'w secret_if \<Rightarrow> string \<Rightarrow> string \<Rightarrow> gomap \<Rightarrow> string list \<Rightarrow> ('w, unit) io" where
  "ReconcileSecret C name ns data ks w =
     (case si_Get C name w of (answer, w1) \<Rightarrow> reconcile_answer C name ns data ks answer w1)"

section \<open>What the loop computes\<close>

text \<open>The data the loop leaves, as a function of the two maps only.\<close>

definition reconciled :: "gomap \<Rightarrow> gomap \<Rightarrow> gomap" where
  "reconciled m data =
     (\<lambda>k. if k \<in> dom data \<and> go_get data k \<noteq> go_get m k then data k else m k)"

definition differs :: "gomap \<Rightarrow> gomap \<Rightarrow> bool" where
  "differs m data \<longleftrightarrow> (\<exists>k \<in> dom data. go_get data k \<noteq> go_get m k)"

lemma nil_map_simps [simp]: "nil_map None = Map.empty" "nil_map (Some m) = m"
  by (simp_all add: nil_map_def)

lemma go_get_reconciled [simp]:
  "go_get (reconciled m data) k = (if k \<in> dom data then go_get data k else go_get m k)"
  by (auto simp: reconciled_def go_get_def split: option.splits)

lemma reconciled_other: "k \<notin> dom data \<Longrightarrow> reconciled m data k = m k"
  by (simp add: reconciled_def)

lemma reconciled_present: "data k = Some v \<Longrightarrow> v \<noteq> [] \<Longrightarrow> reconciled m data k = Some v"
  by (auto simp: reconciled_def go_get_def split: option.splits)

lemma reconciled_id: "\<not> differs m data \<Longrightarrow> reconciled m data = m"
  by (rule ext) (auto simp: differs_def reconciled_def)

lemma differs_reconciled [simp]: "\<not> differs (reconciled m data) data"
  by (auto simp: differs_def)

lemma differs_refl [simp]: "\<not> differs data data"
  by (simp add: differs_def)

lemma reconcile_fields_some:
  assumes "distinct ks"
  shows "reconcile_fields data ks (Some m) u =
     Ok (Some (\<lambda>k. if k \<in> set ks \<and> go_get data k \<noteq> go_get m k then Some (go_get data k) else m k),
         u \<or> (\<exists>k \<in> set ks. go_get data k \<noteq> go_get m k))"
  using assms
proof (induction ks arbitrary: m u)
  case Nil
  then show ?case by simp
next
  case (Cons k ks)
  then have kks: "k \<notin> set ks" "distinct ks" by auto
  show ?case
  proof (cases "go_get data k = go_get m k")
    case True
    with Cons.IH [OF kks(2)] show ?thesis by (auto simp: fun_eq_iff)
  next
    case False
    let ?m = "m(k \<mapsto> go_get data k)"
    have other: "x \<in> set ks \<Longrightarrow> go_get ?m x = go_get m x" for x
      using kks(1) by auto
    have loop: "(\<lambda>x. if x \<in> set ks \<and> go_get data x \<noteq> go_get ?m x then Some (go_get data x) else ?m x) =
        (\<lambda>x. if x \<in> set (k # ks) \<and> go_get data x \<noteq> go_get m x then Some (go_get data x) else m x)"
      using False kks(1) other by (intro ext) simp
    have "reconcile_fields data (k # ks) (Some m) u = reconcile_fields data ks (Some ?m) True"
      using False by simp
    then show ?thesis
      using False by (simp only: Cons.IH [OF kks(2)] loop) simp
  qed
qed

lemma reconcile_fields_none:
  "reconcile_fields data ks None u =
     (if \<exists>k \<in> set ks. go_get data k \<noteq> [] then Panic ''assignment to entry in nil map''
      else Ok (None, u))"
  by (induction ks) auto

lemma reconcile_fields_eq:
  assumes "range_order data ks"
  shows "reconcile_fields data ks ex False =
     (if ex = None \<and> differs Map.empty data then Panic ''assignment to entry in nil map''
      else Ok (map_option (\<lambda>m. reconciled m data) ex, differs (nil_map ex) data))"
proof (cases ex)
  case None
  with assms show ?thesis
    by (auto simp: reconcile_fields_none range_order_def differs_def)
next
  case (Some m)
  from assms have ks: "distinct ks" "set ks = dom data" by (auto simp: range_order_def)
  have "(\<lambda>k. if k \<in> set ks \<and> go_get data k \<noteq> go_get m k then Some (go_get data k) else m k)
      = reconciled m data"
    by (auto simp: ks reconciled_def fun_eq_iff)
  with Some ks show ?thesis
    by (simp add: reconcile_fields_some differs_def)
qed

section \<open>The contract of the API server\<close>

locale secret_api =
  fixes C :: "'w secret_if"
    and view :: "'w \<Rightarrow> string \<Rightarrow> gomap option"
  assumes get_ok: "si_Get C n w = ((ex, None), w') \<Longrightarrow>
      \<exists>s. ex = Some s \<and> sec_Name s = n \<and> view w n = Some (nil_map (sec_Data s))"
    and get_not_found: "si_Get C n w = ((ex, Some e), w') \<Longrightarrow> si_IsNotFound C e \<Longrightarrow> view w n = None"
    and get_error_zero: "si_Get C n w = ((Some s, Some e), w') \<Longrightarrow> sec_Data s = None"
    and get_view: "si_Get C n w = (r, w') \<Longrightarrow> view w' = view w"
    and create_ok: "si_Create C s w = (None, w') \<Longrightarrow>
      view w' = (view w)(sec_Name s \<mapsto> nil_map (sec_Data s))"
    and update_ok: "si_Update C s w = (None, w') \<Longrightarrow>
      view w' = (view w)(sec_Name s \<mapsto> nil_map (sec_Data s))"
begin

text \<open>The outcome by the answer of the first call.\<close>

lemma reconcile_found:
  assumes "si_Get C name w = ((Some s, None), w1)" and "range_order data ks"
  shows "ReconcileSecret C name ns data ks w =
     (if sec_Data s = None \<and> differs Map.empty data then (Panic ''assignment to entry in nil map'', w1)
      else if differs (nil_map (sec_Data s)) data
      then (case si_Update C (s\<lparr>sec_Data := map_option (\<lambda>m. reconciled m data) (sec_Data s)\<rparr>) w1 of
              (None, w') \<Rightarrow> (Ok (), w')
            | (Some e, w') \<Rightarrow> (Fail (Wrap (''failed to update secret '' @ ns @ ''/'' @ name) e), w'))
      else (Ok (), w1))"
  using assms(1) reconcile_fields_eq [OF assms(2), of "sec_Data s"]
  by (simp add: ReconcileSecret_def reconcile_answer_def reconcile_existing_def)

lemma reconcile_ok_view:
  assumes ok: "ReconcileSecret C name ns data ks w = (Ok (), w')" and ks: "range_order data ks"
  shows "view w' = (view w)(name \<mapsto>
     (case view w name of None \<Rightarrow> data | Some m \<Rightarrow> reconciled m data))"
proof -
  obtain ex err w1 where get: "si_Get C name w = ((ex, err), w1)" by (metis prod.collapse)
  then have v1: "view w1 = view w" by (rule get_view)
  show ?thesis
  proof (cases err)
    case (Some e)
    with ok get have nf: "si_IsNotFound C e" and cr: "reconcile_create C name ns data w1 = (Ok (), w')"
      by (auto simp: ReconcileSecret_def reconcile_answer_def split: if_splits)
    from cr have "si_Create C \<lparr>sec_Namespace = ns, sec_Name = name, sec_ResourceVersion = [], sec_Data = Some data\<rparr> w1 = (None, w')"
      by (auto simp: reconcile_create_def split: prod.splits option.splits)
    from create_ok [OF this] v1 get_not_found [OF get [unfolded Some] nf] show ?thesis by simp
  next
    case None
    from get_ok [OF get [unfolded None]] obtain s where
      s: "ex = Some s" "sec_Name s = name" "view w name = Some (nil_map (sec_Data s))" by blast
    show ?thesis
    proof (cases "differs (nil_map (sec_Data s)) data")
      case False
      with ok get None s reconcile_found [OF _ ks, of name w s w1 ns] have "w' = w1"
        by (auto split: if_splits)
      with False s v1 show ?thesis by (simp add: reconciled_id fun_upd_idem)
    next
      case True
      with ok get None s reconcile_found [OF _ ks, of name w s w1 ns] obtain m where
        m: "sec_Data s = Some m" and
        up: "si_Update C (s\<lparr>sec_Data := Some (reconciled m data)\<rparr>) w1 = (None, w')"
        by (cases "sec_Data s") (auto split: prod.splits option.splits if_splits)
      from update_ok [OF up] m s v1 show ?thesis by simp
    qed
  qed
qed

lemma reconcile_again:
  assumes ok: "ReconcileSecret C name ns data ks w = (Ok (), w')"
    and ks: "range_order data ks" and ks': "range_order data ks'"
    and get: "si_Get C name w' = ((ex, None), w2)"
  shows "ReconcileSecret C name ns' data ks' w' = (Ok (), w2)"
proof -
  from get_ok [OF get] obtain s where
    s: "ex = Some s" "view w' name = Some (nil_map (sec_Data s))" by blast
  then have "nil_map (sec_Data s) = (case view w name of None \<Rightarrow> data | Some m \<Rightarrow> reconciled m data)"
    using reconcile_ok_view [OF ok ks] by simp
  then have "\<not> differs (nil_map (sec_Data s)) data" by (simp split: option.splits)
  with reconcile_found [OF get [unfolded s(1)] ks', of ns'] show ?thesis by auto
qed

end

locale secret_api_live = secret_api +
  assumes get_live: "view w n = Some d \<Longrightarrow> \<exists>s w'. si_Get C n w = ((Some s, None), w')"
    and get_missing: "view w n = None \<Longrightarrow>
      \<exists>ex e w'. si_Get C n w = ((ex, Some e), w') \<and> si_IsNotFound C e"
    and create_live: "view w (sec_Name s) = None \<Longrightarrow> \<exists>w'. si_Create C s w = (None, w')"
    and update_live: "view w (sec_Name s) = Some d \<Longrightarrow> \<exists>w'. si_Update C s w = (None, w')"
begin

lemma reconcile_live:
  assumes "range_order data ks" and "view w name \<noteq> Some Map.empty"
  shows "\<exists>w'. ReconcileSecret C name ns data ks w = (Ok (), w')"
proof (cases "view w name")
  case None
  from get_missing [OF this] obtain ex e w1 where
    get: "si_Get C name w = ((ex, Some e), w1)" "si_IsNotFound C e" by blast
  from get_view [OF get(1)] None
    create_live [of w1 "\<lparr>sec_Namespace = ns, sec_Name = name, sec_ResourceVersion = [], sec_Data = Some data\<rparr>"]
  obtain w' where "si_Create C \<lparr>sec_Namespace = ns, sec_Name = name, sec_ResourceVersion = [], sec_Data = Some data\<rparr> w1 = (None, w')"
    by auto
  with get show ?thesis by (simp add: ReconcileSecret_def reconcile_answer_def reconcile_create_def)
next
  case (Some d)
  from get_live [OF this] obtain s w1 where get: "si_Get C name w = ((Some s, None), w1)" by blast
  from get_ok [OF get] Some have s: "sec_Name s = name" "d = nil_map (sec_Data s)" by auto
  with Some assms(2) obtain m where m: "sec_Data s = Some m" by (cases "sec_Data s") auto
  from update_live [of w1 "s\<lparr>sec_Data := Some (reconciled m data)\<rparr>"] get_view [OF get] Some s
  obtain w' where "si_Update C (s\<lparr>sec_Data := Some (reconciled m data)\<rparr>) w1 = (None, w')" by auto
  with reconcile_found [OF get assms(1), of ns] m show ?thesis by auto
qed

end

text \<open>
  A write that ends with an error may have been carried out (the answer was lost) or not. Under
  this contract a call of \<open>ReconcileSecret\<close> with any outcome leaves all secrets as they are or
  has merged the data into the one secret.
\<close>

definition merged :: "gomap option \<Rightarrow> gomap \<Rightarrow> gomap" where
  "merged old data = (case old of None \<Rightarrow> data | Some m \<Rightarrow> reconciled m data)"

locale secret_api_total = secret_api +
  assumes create_err: "si_Create C s w = (Some e, w') \<Longrightarrow>
      view w' = view w \<or> view w' = (view w)(sec_Name s \<mapsto> nil_map (sec_Data s))"
    and update_err: "si_Update C s w = (Some e, w') \<Longrightarrow>
      view w' = view w \<or> view w' = (view w)(sec_Name s \<mapsto> nil_map (sec_Data s))"
begin

lemma create_any: "si_Create C s w = (e, w') \<Longrightarrow>
    view w' = view w \<or> view w' = (view w)(sec_Name s \<mapsto> nil_map (sec_Data s))"
  by (cases e) (auto dest: create_ok create_err)

lemma update_any: "si_Update C s w = (e, w') \<Longrightarrow>
    view w' = view w \<or> view w' = (view w)(sec_Name s \<mapsto> nil_map (sec_Data s))"
  by (cases e) (auto dest: update_ok update_err)

lemma reconcile_any_view:
  assumes run: "ReconcileSecret C name ns data ks w = (r, w')" and ks: "range_order data ks"
  shows "view w' = view w \<or> view w' = (view w)(name \<mapsto> merged (view w name) data)"
proof -
  obtain ex err w1 where get: "si_Get C name w = ((ex, err), w1)" by (metis prod.collapse)
  then have v1: "view w1 = view w" by (rule get_view)
  show ?thesis
  proof (cases err)
    case None
    from get_ok [OF get [unfolded None]] obtain s where
      s: "ex = Some s" "sec_Name s = name" "view w name = Some (nil_map (sec_Data s))" by blast
    let ?s = "s\<lparr>sec_Data := map_option (\<lambda>m. reconciled m data) (sec_Data s)\<rparr>"
    obtain e w2 where up: "si_Update C ?s w1 = (e, w2)" by (metis prod.collapse)
    note run' = run [unfolded reconcile_found [OF get [unfolded None s(1)] ks] up]
    then have "w' = w1 \<or> w' = w2 \<and> sec_Data s \<noteq> None"
      by (auto split: if_splits option.splits)
    with update_any [OF up] v1 s show ?thesis by (auto simp: merged_def)
  next
    case (Some e)
    obtain x w2 where cr: "si_Create C \<lparr>sec_Namespace = ns, sec_Name = name, sec_ResourceVersion = [], sec_Data = Some data\<rparr> w1 = (x, w2)"
      by (metis prod.collapse)
    from run get Some cr have "w' = w1 \<or> w' = w2 \<and> si_IsNotFound C e"
      by (auto simp: ReconcileSecret_def reconcile_answer_def reconcile_create_def split: if_splits option.splits)
    with create_any [OF cr] v1 get_not_found [OF get [unfolded Some]] show ?thesis
      by (auto simp: merged_def)
  qed
qed

text \<open>A predicate on one secret that merging the data keeps is kept by the call, and so is every predicate on another secret.\<close>

lemma reconcile_keeps:
  assumes "range_order data ks" and "\<And>d. Q (Some d) \<Longrightarrow> Q (Some (reconciled d data))" and "\<not> Q None"
  shows "stable (\<lambda>w. Q (view w name)) (ReconcileSecret C name ns data ks)"
proof (rule stableI)
  fix w r w'
  assume q: "Q (view w name)" and run: "ReconcileSecret C name ns data ks w = (r, w')"
  from q assms(3) obtain d where d: "view w name = Some d" by (cases "view w name") auto
  with reconcile_any_view [OF run assms(1)] assms(2) q show "Q (view w' name)"
    by (auto simp: merged_def)
qed

lemma reconcile_keeps_other:
  assumes "range_order data ks" and "n \<noteq> name"
  shows "stable (\<lambda>w. Q (view w n)) (ReconcileSecret C name ns data ks)"
  using reconcile_any_view [OF _ assms(1)] assms(2) by (intro stableI) (metis fun_upd_other)

end

section \<open>An API server with a fault schedule\<close>

text \<open>
  An instance of the contract: a store, and a schedule that says which calls fail. With the
  flag off the schedule is not consulted.
\<close>

record cluster =
  cl_store :: "string \<rightharpoonup> gomap option"
  cl_faults :: "goerr option list"

definition next_fault :: "bool \<Rightarrow> cluster \<Rightarrow> goerr option \<times> cluster" where
  "next_fault faulty w =
     (if faulty then (case cl_faults w of [] \<Rightarrow> (None, w) | f # fs \<Rightarrow> (f, w\<lparr>cl_faults := fs\<rparr>))
      else (None, w))"

definition mem_get ::
  "bool \<Rightarrow> string \<Rightarrow> cluster \<Rightarrow> (secret option \<times> goerr option) \<times> cluster" where
  "mem_get faulty n w =
     (case next_fault faulty w of
        (Some e, w') \<Rightarrow> ((None, Some (Wrap ''server'' e)), w')
      | (None, w') \<Rightarrow>
          (case cl_store w' n of
             None \<Rightarrow> ((Some \<lparr>sec_Namespace = [], sec_Name = [], sec_ResourceVersion = [], sec_Data = None\<rparr>,
                        Some (NewErr ''not found'')), w')
           | Some d \<Rightarrow> ((Some \<lparr>sec_Namespace = [], sec_Name = n, sec_ResourceVersion = [], sec_Data = d\<rparr>, None), w')))"

definition mem_put :: "bool \<Rightarrow> bool \<Rightarrow> secret \<Rightarrow> cluster \<Rightarrow> goerr option \<times> cluster" where
  "mem_put faulty present s w =
     (case next_fault faulty w of
        (Some e, w') \<Rightarrow> (Some (Wrap ''server'' e), w')
      | (None, w') \<Rightarrow>
          (if (cl_store w' (sec_Name s) \<noteq> None) = present
           then (None, w'\<lparr>cl_store := (cl_store w')(sec_Name s \<mapsto> sec_Data s)\<rparr>)
           else (Some (Wrap ''server'' (NewErr ''conflict'')), w')))"

definition mem_if :: "bool \<Rightarrow> cluster secret_if" where
  "mem_if faulty =
     \<lparr>si_Get = mem_get faulty, si_Create = mem_put faulty False, si_Update = mem_put faulty True,
      si_IsNotFound = (\<lambda>e. e = NewErr ''not found'')\<rparr>"

definition mem_view :: "cluster \<Rightarrow> string \<Rightarrow> gomap option" where
  "mem_view w n = map_option nil_map (cl_store w n)"

lemmas mem_defs = mem_if_def mem_get_def mem_put_def mem_view_def next_fault_def

interpretation faulty: secret_api_total "mem_if b" mem_view
  by unfold_locales
     (auto simp: mem_defs fun_eq_iff split: prod.splits option.splits if_splits list.splits)

interpretation calm: secret_api_live "mem_if False" mem_view
  by unfold_locales (auto simp: mem_defs split: option.splits)

definition example_cluster :: "gomap option \<Rightarrow> cluster" where
  "example_cluster d = \<lparr>cl_store = [''tuf-root'' \<mapsto> d], cl_faults = []\<rparr>"

lemmas mem_run = mem_defs example_cluster_def ReconcileSecret_def reconcile_answer_def reconcile_existing_def
  reconcile_create_def

section \<open>Properties\<close>

definition old_data :: "('w \<Rightarrow> string \<Rightarrow> gomap option) \<Rightarrow> 'w \<Rightarrow> string \<Rightarrow> gomap" where
  "old_data view w name = nil_map (view w name)"

text \<open>
  C7. When \<open>ReconcileSecret\<close> returns without an error, the secret exists and agrees (in the
  sense of \<open>bytes.Equal\<close>) with \<open>data\<close> on every key of \<open>data\<close>, holding exactly the
  value when it is not empty; a key that is not in \<open>data\<close> is neither added, changed nor
  deleted; and no other secret of the namespace changes.
\<close>

theorem reconcile_establishes:
  assumes "secret_api C view" and "range_order data ks"
    and "ReconcileSecret C name ns data ks w = (Ok (), w')"
  shows "\<exists>d'. view w' name = Some d'
     \<and> (\<forall>k \<in> dom data. go_get d' k = go_get data k \<and> (data k \<noteq> Some [] \<longrightarrow> d' k = data k))
     \<and> (\<forall>k. k \<notin> dom data \<longrightarrow> d' k = old_data view w name k)
     \<and> (\<forall>n. n \<noteq> name \<longrightarrow> view w' n = view w n)"
proof -
  note v = secret_api.reconcile_ok_view [OF assms(1) assms(3) assms(2)]
  show ?thesis
  proof (cases "view w name")
    case None
    with v show ?thesis by (auto simp: old_data_def)
  next
    case (Some m)
    have "d' k = data k" if "d' = reconciled m data" "k \<in> dom data" "data k \<noteq> Some []" for d' k
      using that by (auto simp: reconciled_present)
    with Some v show ?thesis by (auto simp: old_data_def reconciled_other)
  qed
qed

theorem reconcile_establishes_witness:
  "\<exists>d'. mem_view (snd (ReconcileSecret (mem_if True) ''tuf-root'' ''ns'' [''root'' \<mapsto> ''v2''] [''root'']
       (example_cluster (Some [''root'' \<mapsto> ''v1'', ''keep'' \<mapsto> ''x''])))) ''tuf-root'' = Some d'
     \<and> d' ''root'' = Some ''v2'' \<and> d' ''keep'' = Some ''x''"
proof -
  let ?d = "[''root'' \<mapsto> ''v1'', ''keep'' \<mapsto> ''x'']"
  let ?r = "ReconcileSecret (mem_if True) ''tuf-root'' ''ns'' [''root'' \<mapsto> ''v2''] [''root'']
    (example_cluster (Some ?d))"
  have ok: "?r = (Ok (), snd ?r)" by (simp add: mem_run)
  have ro: "range_order [''root'' \<mapsto> ''v2''] [''root'']" by (simp add: range_order_def)
  have old: "old_data mem_view (example_cluster (Some ?d)) ''tuf-root'' = ?d"
    by (simp add: old_data_def mem_run)
  from reconcile_establishes [OF faulty.secret_api_axioms ro ok] obtain d' where
    d': "mem_view (snd ?r) ''tuf-root'' = Some d'" "d' ''root'' = Some ''v2''"
      "\<forall>k. k \<notin> dom [''root'' \<mapsto> ''v2''] \<longrightarrow> d' k = ?d k"
    unfolding old by auto
  then have "d' ''keep'' = ?d ''keep''" by simp
  with d' show ?thesis by auto
qed

text \<open>
  C25. A second \<open>ReconcileSecret\<close> with the same data, after one that succeeded, writes nothing:
  whatever order its loop takes, if its read succeeds then the whole call is that read, and it
  reports success.
\<close>

theorem reconcile_idempotent:
  assumes "secret_api C view" and "range_order data ks" and "range_order data ks'"
    and "ReconcileSecret C name ns data ks w = (Ok (), w')"
    and "si_Get C name w' = ((ex, None), w2)"
  shows "ReconcileSecret C name ns data ks' w' = (Ok (), w2)"
  using secret_api.reconcile_again [OF assms(1) assms(4) assms(2) assms(3) assms(5)] .

theorem reconcile_idempotent_witness:
  "ReconcileSecret (mem_if True) ''tuf-root'' ''ns'' [''a'' \<mapsto> ''1'', ''b'' \<mapsto> ''2''] [''b'', ''a'']
     (snd (ReconcileSecret (mem_if True) ''tuf-root'' ''ns'' [''a'' \<mapsto> ''1'', ''b'' \<mapsto> ''2''] [''a'', ''b'']
       (example_cluster (Some [''a'' \<mapsto> ''0''])))) =
   (Ok (), snd (ReconcileSecret (mem_if True) ''tuf-root'' ''ns'' [''a'' \<mapsto> ''1'', ''b'' \<mapsto> ''2''] [''a'', ''b'']
       (example_cluster (Some [''a'' \<mapsto> ''0'']))))"
  by (rule reconcile_idempotent [OF faulty.secret_api_axioms, where ks = "[''a'', ''b'']"
        and w = "example_cluster (Some [''a'' \<mapsto> ''0''])"])
     (auto simp: mem_run range_order_def)

text \<open>
  The outcome, the error text and every call made to the API server are the same for every
  order in which the runtime ranges over \<open>data\<close>.
\<close>

lemma reconcile_order_irrelevant:
  assumes "range_order data ks" and "range_order data ks'"
  shows "ReconcileSecret C name ns data ks w = ReconcileSecret C name ns data ks' w"
  using reconcile_fields_eq [OF assms(1)] reconcile_fields_eq [OF assms(2)]
  by (simp add: ReconcileSecret_def reconcile_answer_def reconcile_existing_def split: prod.splits option.splits)

text \<open>
  C27. An existing secret that carries no data at all (a nil \<^verbatim>\<open>Data\<close> map) is not repaired: as
  soon as some value of \<open>data\<close> is not empty the assignment of line 47 panics, in every
  order, and nothing is written.
\<close>

theorem reconcile_nil_data_panics:
  assumes "si_Get C name w = ((Some s, None), w1)" and "sec_Data s = None"
    and "range_order data ks" and "data k = Some v" and "v \<noteq> []"
  shows "ReconcileSecret C name ns data ks w = (Panic ''assignment to entry in nil map'', w1)"
proof -
  have "differs Map.empty data" using assms(4,5) by (auto simp: differs_def intro!: bexI [of _ k])
  with assms(1,2) reconcile_fields_eq [OF assms(3), of None] show ?thesis
    by (simp add: ReconcileSecret_def reconcile_answer_def reconcile_existing_def)
qed

theorem reconcile_nil_data_panics_witness:
  "ReconcileSecret (mem_if False) ''tuf-root'' ''ns'' [''root'' \<mapsto> ''v''] [''root''] (example_cluster None) =
   (Panic ''assignment to entry in nil map'', example_cluster None)"
  by (rule reconcile_nil_data_panics [where k = "''root''" and v = "''v''"
        and s = "\<lparr>sec_Namespace = [], sec_Name = ''tuf-root'', sec_ResourceVersion = [], sec_Data = None\<rparr>"])
     (auto simp: mem_run range_order_def)

text \<open>
  Any error of the first read other than not-found is returned, wrapped with the namespace
  and the name, and no write is issued: the world is the one the read left.
\<close>

lemma reconcile_get_error:
  assumes "si_Get C name w = ((ex, Some e), w1)" and "\<not> si_IsNotFound C e"
  shows "ReconcileSecret C name ns data ks w =
    (Fail (Wrap (''failed to get secret '' @ ns @ ''/'' @ name) e), w1)"
  using assms by (simp add: ReconcileSecret_def reconcile_answer_def)

text \<open>
  C28. When the API server answers every call, \<open>ReconcileSecret\<close> returns success for every data
  and every loop order, unless the secret exists and is empty.
\<close>

theorem reconcile_completes:
  assumes "secret_api_live C view" and "range_order data ks" and "view w name \<noteq> Some Map.empty"
  shows "\<exists>w'. ReconcileSecret C name ns data ks w = (Ok (), w')"
  using secret_api_live.reconcile_live [OF assms] .

theorem reconcile_completes_witness:
  "\<exists>w'. ReconcileSecret (mem_if False) ''other'' ''ns'' [''root'' \<mapsto> ''v''] [''root''] (example_cluster None) = (Ok (), w')"
  by (rule reconcile_completes [OF calm.secret_api_live_axioms])
     (auto simp: mem_run range_order_def)

text \<open>
  A key of \<open>data\<close> whose value is empty and which the existing secret lacks is not added:
  \<open>bytes.Equal\<close> takes the missing value for the empty one, so the call succeeds without a
  write.
\<close>

lemma reconcile_skips_empty_value:
  assumes "si_Get C name w = ((Some s, None), w1)" and "nil_map (sec_Data s) k = None"
  shows "ReconcileSecret C name ns [k \<mapsto> []] [k] w = (Ok (), w1)"
  using assms by (simp add: ReconcileSecret_def reconcile_answer_def reconcile_existing_def)

end
