(* ===== verification/Kube_Job.thy ===== *)
theory Kube_Job
  imports Kube_Secret
begin

text \<open>
  What the jobs that run inside the cluster share: the environment they start in, the secret
  client they make from it, and \<open>ReconcileSecret\<close> called with the namespace of the job. The
  locale \<open>kube_job\<close> is the contract of that environment. The job of
  \<^verbatim>\<open>tools/tuf/cmd/tuf/createsecret/main.go\<close>, which only reads and writes secrets, is here too.
\<close>

section \<open>The environment of a job\<close>

record configmap =
  cm_Data :: "gomap option"
  cm_BinaryData :: "gomap option"

record 'w kube_env =
  ke_NAMESPACE :: string
  ke_InClusterConfig :: "unit go"
  ke_NewForConfig :: "unit go"
  ke_secrets :: "'w secret_if"
  ke_order :: "gomap \<Rightarrow> string list"

definition kube_reconcile :: "'w kube_env \<Rightarrow> string \<Rightarrow> gomap \<Rightarrow> ('w, unit) io" where
  "kube_reconcile K name data =
     ReconcileSecret (ke_secrets K) name (ke_NAMESPACE K) data (ke_order K data)"

text \<open>\<open>rest.InClusterConfig\<close> and \<open>kubernetes.NewForConfig\<close>, with what happens to an error.\<close>

definition kube_client :: "(string \<Rightarrow> unit go \<Rightarrow> unit go) \<Rightarrow> 'w kube_env \<Rightarrow> ('w, unit) io" where
  "kube_client h K =
     io_bind (io_ret (h ''Failed to get InClusterConfig'' (ke_InClusterConfig K))) (\<lambda>_.
     io_ret (h ''Failed to get clientset'' (ke_NewForConfig K)))"

definition fatal :: "string \<Rightarrow> 'a go \<Rightarrow> 'a go" where
  "fatal m r = or_fatal r"

section \<open>createsecret\<close>

record tuf_secret_flags =
  tf_fulcioSecret :: string
  tf_rekorSecret :: string
  tf_ctlogSecret :: string
  tf_tsaSecret :: string
  tf_secretName :: string

definition tuf_secret_defaults :: tuf_secret_flags where
  "tuf_secret_defaults =
     \<lparr>tf_fulcioSecret = ''fulcio-pub-key'', tf_rekorSecret = ''rekor-pub-key'',
      tf_ctlogSecret = ''ctlog-public-key'', tf_tsaSecret = ''tsa-cert-chain'',
      tf_secretName = ''tuf-secrets''\<rparr>"

definition fulcioSecretKey :: string where "fulcioSecretKey = ''cert''"
definition ctSecretKey :: string where "ctSecretKey = ''public''"
definition rekorSecretKey :: string where "rekorSecretKey = ''public''"
definition tsaCertChainKey :: string where "tsaCertChainKey = ''cert-chain''"
definition fulcioSecretKeyOut :: string where "fulcioSecretKeyOut = ''fulcio_v1.crt.pem''"
definition ctSecretKeyOut :: string where "ctSecretKeyOut = ''ctfe.pub''"
definition rekorSecretKeyOut :: string where "rekorSecretKeyOut = ''rekor.pub''"
definition tsaCertChainOut :: string where "tsaCertChainOut = ''tsa.certchain.pem''"

lemmas tuf_secret_keys = fulcioSecretKey_def ctSecretKey_def rekorSecretKey_def tsaCertChainKey_def
  fulcioSecretKeyOut_def ctSecretKeyOut_def rekorSecretKeyOut_def tsaCertChainOut_def

text \<open>Read one key of a secret; an error of the read and a missing or empty value panic.\<close>

definition fetch_key :: "'w kube_env \<Rightarrow> string \<Rightarrow> string \<Rightarrow> string \<Rightarrow> string \<Rightarrow> ('w, bytes) io" where
  "fetch_key K kind what name key w =
     (case si_Get (ke_secrets K) name w of
        ((_, Some e), w1) \<Rightarrow> (Panic (''Failed to get '' @ kind @ '' '' @ ke_NAMESPACE K @ ''/'' @ name @ '': '' @ Error e), w1)
      | ((None, None), w1) \<Rightarrow> (Panic ''nil pointer dereference'', w1)
      | ((Some s, None), w1) \<Rightarrow>
          (let v = go_get (nil_map (sec_Data s)) key
           in if length v = 0
              then (Panic (what @ '' '' @ Quote key @ '' is missing ''
                     @ ke_NAMESPACE K @ ''/'' @ name), w1)
              else (Ok v, w1)))"

definition createsecret_main :: "'w kube_env \<Rightarrow> tuf_secret_flags \<Rightarrow> ('w, unit) io" where
  "createsecret_main K F =
     (if ke_NAMESPACE K = [] then io_ret (Panic ''env variable NAMESPACE must be set'')
      else io_bind (kube_client or_panic K) (\<lambda>_.
        io_bind (fetch_key K ''secret'' ''Fulcio cert key'' (tf_fulcioSecret F) fulcioSecretKey) (\<lambda>fCert.
        io_bind (fetch_key K ''secret'' ''Ctlog public key'' (tf_ctlogSecret F) ctSecretKey) (\<lambda>cPub.
        io_bind (fetch_key K ''secret'' ''Rekor public key'' (tf_rekorSecret F) rekorSecretKey) (\<lambda>rPub.
        io_bind (fetch_key K ''tsa secret'' ''TSA Cert chain key'' (tf_tsaSecret F) tsaCertChainKey) (\<lambda>certChain.
        io_map_out (or_panic (''Failed to get secret '' @ ke_NAMESPACE K @ ''/'' @ tf_secretName F))
          (kube_reconcile K (tf_secretName F)
            [fulcioSecretKeyOut \<mapsto> fCert, ctSecretKeyOut \<mapsto> cPub,
             rekorSecretKeyOut \<mapsto> rPub, tsaCertChainOut \<mapsto> certChain])))))))"

section \<open>The contract of the environment\<close>

declare io_bind.simps [simp del]

locale kube_job =
  fixes K :: "'w kube_env" and view :: "'w \<Rightarrow> string \<Rightarrow> gomap option"
  assumes api: "secret_api (ke_secrets K) view"
    and order: "finite (dom m) \<Longrightarrow> range_order m (ke_order K m)"
begin

lemma kube_reconcile_view:
  assumes "kube_reconcile K name data w = (Ok (), w')" and "finite (dom data)"
  shows "view w' = (view w)(name \<mapsto> (case view w name of None \<Rightarrow> data | Some m \<Rightarrow> reconciled m data))"
  using assms secret_api.reconcile_ok_view [OF api] order unfolding kube_reconcile_def by blast

text \<open>The written secret, key by key, and the other secrets.\<close>

lemma kube_reconcile_secret:
  assumes "kube_reconcile K name data w = (Ok (), w')" and "finite (dom data)"
  obtains d where "view w' name = Some d" "\<forall>k \<in> dom data. go_get d k = go_get data k"
    "\<forall>n. n \<noteq> name \<longrightarrow> view w' n = view w n"
  using kube_reconcile_view [OF assms] that by (auto split: option.splits)

lemma fetch_key_Ok:
  assumes "fetch_key K kind what name key w = (Ok v, w')"
  shows "view w' = view w \<and> v \<noteq> [] \<and> (\<exists>d. view w name = Some d \<and> go_get d key = v)"
proof -
  from assms obtain s where g: "si_Get (ke_secrets K) name w = ((Some s, None), w')"
    and v: "v = go_get (nil_map (sec_Data s)) key" "v \<noteq> []"
    by (auto simp: fetch_key_def Let_def split: prod.splits option.splits if_splits)
  with secret_api.get_ok [OF api g] secret_api.get_view [OF api g] show ?thesis by auto
qed

end

locale kube_job_live = kube_job K view
  for K :: "'w kube_env" and view :: "'w \<Rightarrow> string \<Rightarrow> gomap option" +
  assumes live: "secret_api_live (ke_secrets K) view"
begin

lemma kube_reconcile_live:
  assumes "finite (dom data)" and "view w name \<noteq> Some Map.empty"
  shows "\<exists>w'. kube_reconcile K name data w = (Ok (), w')"
  using secret_api_live.reconcile_live [OF live order [OF assms(1)] assms(2)]
  by (simp add: kube_reconcile_def)

lemma fetch_key_live:
  assumes "view w name = Some d" and "go_get d key \<noteq> []"
  shows "\<exists>w'. fetch_key K kind what name key w = (Ok (go_get d key), w') \<and> view w' = view w"
proof -
  from secret_api_live.get_live [OF live assms(1)] obtain s w' where
    get: "si_Get (ke_secrets K) name w = ((Some s, None), w')" by blast
  with secret_api.get_ok [OF api get] secret_api.get_view [OF api get] assms show ?thesis
    by (auto simp: fetch_key_def)
qed

text \<open>createsecret returns when the four values are there and the server answers.\<close>

lemma createsecret_live:
  assumes "ke_NAMESPACE K \<noteq> []" and "ke_InClusterConfig K = Ok ()" and "ke_NewForConfig K = Ok ()"
    and f: "view w (tf_fulcioSecret F) = Some f" "go_get f fulcioSecretKey \<noteq> []"
    and c: "view w (tf_ctlogSecret F) = Some c" "go_get c ctSecretKey \<noteq> []"
    and r: "view w (tf_rekorSecret F) = Some r" "go_get r rekorSecretKey \<noteq> []"
    and t: "view w (tf_tsaSecret F) = Some t" "go_get t tsaCertChainKey \<noteq> []"
    and "view w (tf_secretName F) \<noteq> Some Map.empty"
  shows "\<exists>w'. createsecret_main K F w = (Ok (), w')"
proof -
  obtain w1 where 1: "fetch_key K ''secret'' ''Fulcio cert key'' (tf_fulcioSecret F) fulcioSecretKey w =
      (Ok (go_get f fulcioSecretKey), w1)" "view w1 = view w"
    using fetch_key_live [OF f] by blast
  obtain w2 where 2: "fetch_key K ''secret'' ''Ctlog public key'' (tf_ctlogSecret F) ctSecretKey w1 =
      (Ok (go_get c ctSecretKey), w2)" "view w2 = view w"
    using fetch_key_live [of w1, OF _ c(2)] c(1) unfolding 1(2) by blast
  obtain w3 where 3: "fetch_key K ''secret'' ''Rekor public key'' (tf_rekorSecret F) rekorSecretKey w2 =
      (Ok (go_get r rekorSecretKey), w3)" "view w3 = view w"
    using fetch_key_live [of w2, OF _ r(2)] r(1) unfolding 2(2) by blast
  obtain w4 where 4: "fetch_key K ''tsa secret'' ''TSA Cert chain key'' (tf_tsaSecret F) tsaCertChainKey w3 =
      (Ok (go_get t tsaCertChainKey), w4)" "view w4 = view w"
    using fetch_key_live [of w3, OF _ t(2)] t(1) unfolding 3(2) by blast
  obtain w' where "kube_reconcile K (tf_secretName F)
      [fulcioSecretKeyOut \<mapsto> go_get f fulcioSecretKey, ctSecretKeyOut \<mapsto> go_get c ctSecretKey,
       rekorSecretKeyOut \<mapsto> go_get r rekorSecretKey, tsaCertChainOut \<mapsto> go_get t tsaCertChainKey] w4 = (Ok (), w')"
    using kube_reconcile_live [OF finite_dom_upd [OF finite_dom_upd [OF finite_dom_upd [OF finite_dom_upd [OF finite_dom_empty]]]], of w4]
      assms(12) unfolding 4(2) by blast
  with assms(1-3) 1(1) 2(1) 3(1) 4(1) show ?thesis
    by (simp add: createsecret_main_def kube_client_def io_bind.simps io_ret_def io_map_out_def or_panic_def)
qed

end

section \<open>A run of createsecret that returns\<close>

definition tuf_secret_data :: "gomap \<Rightarrow> gomap \<Rightarrow> gomap \<Rightarrow> gomap \<Rightarrow> gomap" where
  "tuf_secret_data f c r t =
     [fulcioSecretKeyOut \<mapsto> go_get f fulcioSecretKey, ctSecretKeyOut \<mapsto> go_get c ctSecretKey,
      rekorSecretKeyOut \<mapsto> go_get r rekorSecretKey, tsaCertChainOut \<mapsto> go_get t tsaCertChainKey]"

lemma createsecret_OkE:
  assumes "kube_job K view" and "createsecret_main K F w = (Ok (), w')"
  obtains f c r t where "view w (tf_fulcioSecret F) = Some f" "view w (tf_ctlogSecret F) = Some c"
    "view w (tf_rekorSecret F) = Some r" "view w (tf_tsaSecret F) = Some t"
    "[] \<notin> {go_get f fulcioSecretKey, go_get c ctSecretKey, go_get r rekorSecretKey, go_get t tsaCertChainKey}"
    "view w' = (view w)(tf_secretName F \<mapsto> (case view w (tf_secretName F) of
       None \<Rightarrow> tuf_secret_data f c r t | Some m \<Rightarrow> reconciled m (tuf_secret_data f c r t)))"
proof -
  obtain fv cv rv tv w1 w2 w3 w4 where
    f: "fetch_key K ''secret'' ''Fulcio cert key'' (tf_fulcioSecret F) fulcioSecretKey w = (Ok fv, w1)" and
    c: "fetch_key K ''secret'' ''Ctlog public key'' (tf_ctlogSecret F) ctSecretKey w1 = (Ok cv, w2)" and
    r: "fetch_key K ''secret'' ''Rekor public key'' (tf_rekorSecret F) rekorSecretKey w2 = (Ok rv, w3)" and
    t: "fetch_key K ''tsa secret'' ''TSA Cert chain key'' (tf_tsaSecret F) tsaCertChainKey w3 = (Ok tv, w4)" and
    k: "kube_reconcile K (tf_secretName F)
       [fulcioSecretKeyOut \<mapsto> fv, ctSecretKeyOut \<mapsto> cv, rekorSecretKeyOut \<mapsto> rv, tsaCertChainOut \<mapsto> tv] w4 = (Ok (), w')"
    using assms(2)
    by (auto simp: createsecret_main_def kube_client_def io_bind_Ok_conv split: if_splits)
  note fetch = kube_job.fetch_key_Ok [OF assms(1)]
  from fetch [OF f] fetch [OF c] fetch [OF r] fetch [OF t] obtain fd cd rd td where
    "view w (tf_fulcioSecret F) = Some fd" "view w (tf_ctlogSecret F) = Some cd"
    "view w (tf_rekorSecret F) = Some rd" "view w (tf_tsaSecret F) = Some td"
    and v: "fv = go_get fd fulcioSecretKey" "cv = go_get cd ctSecretKey" "rv = go_get rd rekorSecretKey"
      "tv = go_get td tsaCertChainKey" "[] \<notin> {fv, cv, rv, tv}" "view w4 = view w"
    by auto
  with kube_job.kube_reconcile_view [OF assms(1) k, unfolded v] v(5) show thesis
    by (intro that [of fd cd rd td, unfolded tuf_secret_data_def]) (auto simp: v(1-4))
qed

section \<open>A reference environment\<close>

definition sorted_order :: "gomap \<Rightarrow> string list" where
  "sorted_order m = sorted_list_of_set (dom m)"

lemma sorted_order_range: "finite (dom m) \<Longrightarrow> range_order m (sorted_order m)"
  by (simp add: range_order_def sorted_order_def)

definition ref_kube :: "cluster kube_env" where
  "ref_kube = \<lparr>ke_NAMESPACE = ''ns'', ke_InClusterConfig = Ok (), ke_NewForConfig = Ok (),
     ke_secrets = mem_if False, ke_order = sorted_order\<rparr>"

interpretation refkube: kube_job_live ref_kube mem_view
  by (intro kube_job_live.intro kube_job.intro kube_job_live_axioms.intro)
     (simp_all add: ref_kube_def sorted_order_range faulty.secret_api_axioms calm.secret_api_live_axioms)

definition example_secrets :: "bytes \<Rightarrow> cluster" where
  "example_secrets chain = \<lparr>cl_store =
     [''fulcio-pub-key'' \<mapsto> Some [''cert'' \<mapsto> ''F''], ''ctlog-public-key'' \<mapsto> Some [''public'' \<mapsto> ''C''],
      ''rekor-pub-key'' \<mapsto> Some [''public'' \<mapsto> ''R''], ''tsa-cert-chain'' \<mapsto> Some [''cert-chain'' \<mapsto> chain]],
     cl_faults = []\<rparr>"

lemma example_createsecret:
  assumes "chain \<noteq> []"
  shows "\<exists>w'. createsecret_main ref_kube tuf_secret_defaults (example_secrets chain) = (Ok (), w')"
  by (rule refkube.createsecret_live [where f = "[''cert'' \<mapsto> ''F'']" and c = "[''public'' \<mapsto> ''C'']"
        and r = "[''public'' \<mapsto> ''R'']" and t = "[''cert-chain'' \<mapsto> chain]"])
     (use assms in \<open>simp_all add: ref_kube_def mem_view_def example_secrets_def tuf_secret_defaults_def tuf_secret_keys go_get_def\<close>)

section \<open>Properties\<close>

text \<open>
  A run of createsecret that returns has copied: the secret for TUF holds under the four
  target names the values the four source secrets had, none of them empty, and every other
  secret is as before.
\<close>

lemma createsecret_copies:
  assumes "kube_job K view" and "createsecret_main K F w = (Ok (), w')"
  shows "\<exists>d f c r t. view w' (tf_secretName F) = Some d
    \<and> view w (tf_fulcioSecret F) = Some f \<and> go_get d fulcioSecretKeyOut = go_get f fulcioSecretKey
    \<and> view w (tf_ctlogSecret F) = Some c \<and> go_get d ctSecretKeyOut = go_get c ctSecretKey
    \<and> view w (tf_rekorSecret F) = Some r \<and> go_get d rekorSecretKeyOut = go_get r rekorSecretKey
    \<and> view w (tf_tsaSecret F) = Some t \<and> go_get d tsaCertChainOut = go_get t tsaCertChainKey
    \<and> [] \<notin> {go_get d fulcioSecretKeyOut, go_get d ctSecretKeyOut, go_get d rekorSecretKeyOut, go_get d tsaCertChainOut}
    \<and> (\<forall>n. n \<noteq> tf_secretName F \<longrightarrow> view w' n = view w n)"
  by (rule createsecret_OkE [OF assms]) (auto simp: tuf_secret_data_def tuf_secret_keys split: option.splits)

end
