(* ===== verification/Text_Codec.thy ===== *)
theory Text_Codec
  imports Go_Prelude
begin

text \<open>
  An injective text form for lists of strings, options and integers. The reference instances
  of the library parameters (the text form of a protobuf message, PEM) are built from it, so
  that the round-trip hypotheses about those libraries are shown to be satisfiable.
\<close>

fun put_str :: "string \<Rightarrow> string" where
  "put_str [] = ''.''"
| "put_str (c # s) = CHR ''x'' # c # put_str s"

fun get_str :: "string \<Rightarrow> (string \<times> string) option" where
  "get_str [] = None"
| "get_str [t] = (if t = CHR ''.'' then Some ([], []) else None)"
| "get_str (t # c # r) =
     (if t = CHR ''.'' then Some ([], c # r)
      else case get_str r of None \<Rightarrow> None | Some (s, rest) \<Rightarrow> Some (c # s, rest))"

definition enc_strs :: "string list \<Rightarrow> string" where
  "enc_strs xs = concat (map put_str xs)"

fun get_strs :: "nat \<Rightarrow> string \<Rightarrow> string list option" where
  "get_strs 0 s = None"
| "get_strs (Suc n) s =
     (if s = [] then Some []
      else case get_str s of None \<Rightarrow> None | Some (x, r) \<Rightarrow> map_option (Cons x) (get_strs n r))"

definition dec_strs :: "string \<Rightarrow> string list option" where
  "dec_strs s = get_strs (Suc (length s)) s"

definition enc_opt :: "('a \<Rightarrow> string) \<Rightarrow> 'a option \<Rightarrow> string" where
  "enc_opt f x = enc_strs (case x of None \<Rightarrow> [] | Some y \<Rightarrow> [f y])"

definition dec_opt :: "(string \<Rightarrow> 'a option) \<Rightarrow> string \<Rightarrow> 'a option option" where
  "dec_opt g s =
     (case dec_strs s of
        Some [] \<Rightarrow> Some None
      | Some [t] \<Rightarrow> map_option Some (g t)
      | _ \<Rightarrow> None)"

definition enc_list :: "('a \<Rightarrow> string) \<Rightarrow> 'a list \<Rightarrow> string" where
  "enc_list f xs = enc_strs (map f xs)"

definition dec_list :: "(string \<Rightarrow> 'a option) \<Rightarrow> string \<Rightarrow> 'a list option" where
  "dec_list g s = (case dec_strs s of None \<Rightarrow> None | Some ts \<Rightarrow> those (map g ts))"

definition dec_int :: "string \<Rightarrow> int option" where
  "dec_int s =
     (case s of
        [] \<Rightarrow> None
      | c # t \<Rightarrow> if c = CHR ''-'' then map_option (\<lambda>n. - int n) (parse_digits 0 t)
                 else map_option int (parse_digits 0 s))"

definition opt_go :: "'a option \<Rightarrow> 'a go" where
  "opt_go x = (case x of None \<Rightarrow> Fail (NewErr ''malformed'') | Some y \<Rightarrow> Ok y)"

lemma get_str_put: "get_str (put_str s @ r) = Some (s, r)"
proof (induction s)
  case Nil
  show ?case by (cases r) simp_all
next
  case (Cons c s)
  then show ?case by simp
qed

lemma put_str_nonempty [simp]: "put_str s \<noteq> []"
  by (cases s) simp_all

lemma get_strs_enc: "length xs < n \<Longrightarrow> get_strs n (enc_strs xs) = Some xs"
proof (induction xs arbitrary: n)
  case Nil
  then show ?case by (cases n) (simp_all add: enc_strs_def)
next
  case (Cons x xs)
  then obtain m where "n = Suc m" "length xs < m" by (cases n) auto
  with Cons.IH [of m] show ?case
    by (simp add: enc_strs_def get_str_put)
qed

lemma length_enc_strs: "length xs \<le> length (enc_strs xs)"
proof (induction xs)
  case Nil
  then show ?case by (simp add: enc_strs_def)
next
  case (Cons x xs)
  then show ?case by (cases x) (simp_all add: enc_strs_def)
qed

lemma dec_enc_strs [simp]: "dec_strs (enc_strs xs) = Some xs"
  unfolding dec_strs_def by (rule get_strs_enc) (use length_enc_strs [of xs] in simp)

lemma dec_enc_opt: "(\<And>y. g (f y) = Some y) \<Longrightarrow> dec_opt g (enc_opt f x) = Some x"
  by (cases x) (simp_all add: enc_opt_def dec_opt_def)

lemma those_map: "(\<And>x. g (f x) = Some x) \<Longrightarrow> those (map g (map f xs)) = Some xs"
  by (induction xs) simp_all

lemma dec_enc_list: "(\<And>y. g (f y) = Some y) \<Longrightarrow> dec_list g (enc_list f xs) = Some xs"
  using those_map [of g f xs] by (simp add: enc_list_def dec_list_def)

lemma dec_enc_int: "dec_int (itoa_int i) = Some i"
proof (cases "i < 0")
  case True
  then show ?thesis by (simp add: itoa_int_def dec_int_def parse_digits_itoa)
next
  case False
  obtain c t where ct: "itoa (nat i) = c # t"
    using itoa_nonempty by (metis neq_Nil_conv)
  with itoa_hd_not_sign have "c \<noteq> CHR ''-''" by blast
  with False ct parse_digits_itoa [of "nat i"] show ?thesis
    by (simp add: itoa_int_def dec_int_def)
qed

end
