(* ===== verification/CTLog_Config.thy ===== *)
theory CTLog_Config
  imports Go_Prelude Text_Codec
begin

text \<open>
  \<^verbatim>\<open>tools/ctlog/pkg/ctlog/config.go\<close>: the configuration of the certificate transparency log,
  its set of trusted Fulcio roots, and its translation to and from the map of a Kubernetes
  secret.

  The protobuf types and their text form (\<open>configpb\<close>, \<open>prototext\<close>, \<open>anypb\<close>), the sigstore
  \<open>cryptoutils\<close> and the cryptographic part of Go's library (\<open>x509\<close>, \<open>pem\<close>) are the record
  \<open>ct_lib\<close> the definitions take; \<open>ct_crypto\<close> names what the round trips need of it: decoding
  undoes encoding. A private key that implements \<open>crypto.Signer\<close> is one for which
  \<open>signer_Public\<close> returns its public key. The random bytes of the encryption are an argument.
\<close>

section \<open>Data\<close>

definition ConfigKey :: string where "ConfigKey = ''config''"
definition PrivateKey :: string where "PrivateKey = ''private''"
definition PublicKey :: string where "PublicKey = ''public''"
definition LegacyRootCAKey :: string where "LegacyRootCAKey = ''rootca''"
definition rootsPemFileDir :: string where "rootsPemFileDir = ''/ctfe-keys/''"
definition privateKeyFile :: string where "privateKeyFile = ''/ctfe-keys/private''"

lemmas key_defs = ConfigKey_def PrivateKey_def PublicKey_def LegacyRootCAKey_def

record ('priv, 'pub) Config =
  PrivKey :: 'priv
  PrivKeyPassword :: string
  PubKey :: 'pub
  LogID :: int
  LogPrefix :: string
  TrillianServerAddr :: string
  FulcioCerts :: "bytes list"

record pem_block =
  pem_Type :: string
  pem_Headers :: "(string \<times> string) list"
  pem_Bytes :: bytes

record PEMKeyFile =
  kf_Path :: string
  kf_Password :: string

datatype proto_msg = PEMKeyFileMsg PEMKeyFile | OtherMsg string

record 'any LogConfig =
  lc_LogId :: int
  lc_Prefix :: string
  lc_RootsPemFile :: "string list"
  lc_PrivateKey :: "'any option"
  lc_PublicKey :: "bytes option"
  lc_LogBackendName :: string
  lc_ExtKeyUsages :: "string list"

record LogBackend =
  be_Name :: string
  be_BackendSpec :: string

record 'any LogMultiConfig =
  mc_LogConfigs :: "'any LogConfig list option"
  mc_Backends :: "LogBackend list option"

record ('cert, 'priv, 'pub, 'any) ct_lib =
  UnmarshalCertificatesFromPEM :: "bytes \<Rightarrow> 'cert list go"
  MarshalCertificateToPEM :: "'cert \<Rightarrow> bytes go"
  UnmarshalPEMToPublicKey :: "bytes \<Rightarrow> 'pub go"
  signer_Public :: "'priv \<Rightarrow> 'pub option"
  MarshalPKIXPublicKey :: "'pub \<Rightarrow> bytes go"
  MarshalPKCS8PrivateKey :: "'priv \<Rightarrow> bytes go"
  ParsePKCS8PrivateKey :: "bytes \<Rightarrow> 'priv go"
  ParsePKCS1PrivateKey :: "bytes \<Rightarrow> 'priv go"
  ParseECPrivateKey :: "bytes \<Rightarrow> 'priv go"
  EncryptPEMBlock :: "bytes \<Rightarrow> string \<Rightarrow> bytes \<Rightarrow> bytes \<Rightarrow> pem_block go"
  DecryptPEMBlock :: "pem_block \<Rightarrow> bytes \<Rightarrow> bytes go"
  pem_EncodeToMemory :: "pem_block \<Rightarrow> bytes option"
  pem_Decode :: "bytes \<Rightarrow> pem_block option \<times> bytes"
  anypb_New :: "PEMKeyFile \<Rightarrow> 'any go"
  UnmarshalNew :: "'any option \<Rightarrow> proto_msg go"
  prototext_Marshal :: "'any LogMultiConfig \<Rightarrow> bytes go"
  prototext_Unmarshal :: "bytes \<Rightarrow> 'any LogMultiConfig go"

text \<open>A slice that may be nil, where the code does not look.\<close>

definition nil_bytes :: "bytes option \<Rightarrow> bytes" where
  "nil_bytes b = (case b of None \<Rightarrow> [] | Some x \<Rightarrow> x)"

section \<open>Trusted roots\<close>

definition extractFulcioRoot :: "('cert, 'priv, 'pub, 'any) ct_lib \<Rightarrow> bytes \<Rightarrow> bytes go" where
  "extractFulcioRoot L fulcioRoot =
     go_bind (wrapf ''unable to unmarshal certficate chain'' (UnmarshalCertificatesFromPEM L fulcioRoot))
       (\<lambda>certs. if certs = [] then Panic ''index out of range [-1]''
                else MarshalCertificateToPEM L (last certs))"

text \<open>The two loops over \<open>c.FulcioCerts\<close>.\<close>

fun has_root :: "bytes list \<Rightarrow> bytes \<Rightarrow> bool" where
  "has_root [] root = False"
| "has_root (fc # cs) root = (if fc = root then True else has_root cs root)"

definition add_root :: "bytes \<Rightarrow> bytes list \<Rightarrow> bytes list" where
  "add_root root cs = (if has_root cs root then cs else cs @ [root])"

fun remove_root :: "bytes \<Rightarrow> bytes list \<Rightarrow> bytes list" where
  "remove_root root [] = []"
| "remove_root root (fc # cs) = (if fc \<noteq> root then fc # remove_root root cs else remove_root root cs)"

definition AddFulcioRoot ::
  "('cert, 'priv, 'pub, 'any) ct_lib \<Rightarrow> bytes \<Rightarrow> (('priv, 'pub) Config, unit) io" where
  "AddFulcioRoot L fulcioRoot c =
     (case wrapf ''extracting fulcioRoot'' (extractFulcioRoot L fulcioRoot) of
        Ok root \<Rightarrow> (Ok (), c\<lparr>FulcioCerts := add_root root (FulcioCerts c)\<rparr>)
      | Fail e \<Rightarrow> (Fail e, c) | Panic p \<Rightarrow> (Panic p, c) | Exit n \<Rightarrow> (Exit n, c))"

definition RemoveFulcioRoot ::
  "('cert, 'priv, 'pub, 'any) ct_lib \<Rightarrow> bytes \<Rightarrow> (('priv, 'pub) Config, unit) io" where
  "RemoveFulcioRoot L fulcioRoot c =
     (case wrapf ''extracting fulcioRoot'' (extractFulcioRoot L fulcioRoot) of
        Ok root \<Rightarrow> (Ok (), c\<lparr>FulcioCerts := remove_root root (FulcioCerts c)\<rparr>)
      | Fail e \<Rightarrow> (Fail e, c) | Panic p \<Rightarrow> (Panic p, c) | Exit n \<Rightarrow> (Exit n, c))"

section \<open>Text form\<close>

abbreviation nl :: string where "nl \<equiv> [CHR 0x0A]"

definition public_block :: "bytes \<Rightarrow> pem_block" where
  "public_block der = \<lparr>pem_Type = ''PUBLIC KEY'', pem_Headers = [], pem_Bytes = der\<rparr>"

definition Config_String ::
  "('cert, 'priv, 'pub, 'any) ct_lib \<Rightarrow> ('priv, 'pub) Config \<Rightarrow> string" where
  "Config_String L c =
     ''PrivateKeyPassword: '' @ PrivKeyPassword c @ nl
     @ ''LogID: '' @ itoa_int (LogID c) @ nl
     @ ''LogPrefix: '' @ LogPrefix c @ nl
     @ ''TrillianServerAddr: '' @ TrillianServerAddr c @ nl
     @ concat (map (\<lambda>fulcioCert. ''fulciocert:'' @ nl @ fulcioCert @ nl) (FulcioCerts c))
     @ (case signer_Public L (PrivKey c) of
          None \<Rightarrow> []
        | Some pub \<Rightarrow>
            (case MarshalPKIXPublicKey L pub of
               Ok der \<Rightarrow> ''PublicKey:'' @ nl @ nil_bytes (pem_EncodeToMemory L (public_block der)) @ nl
             | _ \<Rightarrow> []))"

section \<open>Reading a private key\<close>

definition DecryptExistingPrivateKey ::
  "('cert, 'priv, 'pub, 'any) ct_lib \<Rightarrow> bytes \<Rightarrow> string \<Rightarrow> ('priv \<times> 'pub) go" where
  "DecryptExistingPrivateKey L privateKey password =
     (case fst (pem_Decode L privateKey) of
        None \<Rightarrow> Fail (NewErr ''did not find valid private PEM data'')
      | Some privPEM \<Rightarrow>
          go_bind (wrapf ''failed to decrypt private PEMKeyFile'' (DecryptPEMBlock L privPEM password))
            (\<lambda>der. go_bind
               (on_fail (ParsePKCS8PrivateKey L der)
                  (\<lambda>_. on_fail (ParsePKCS1PrivateKey L der)
                     (\<lambda>_. wrapf ''failed to parse private key PEM'' (ParseECPrivateKey L der))))
               (\<lambda>priv. case signer_Public L priv of
                    None \<Rightarrow> Fail (NewErr ''failed to convert private key to Signer'')
                  | Some pub \<Rightarrow> Ok (priv, pub))))"

section \<open>From a secret to a configuration\<close>

text \<open>
  \<open>uniqueFulcioCerts\<close>: the legacy entry, then every entry whose key starts with \<open>fulcio-\<close>,
  visited in the order \<open>ks\<close>, each under its own text as the key.
\<close>

fun collect_certs :: "gomap \<Rightarrow> string list \<Rightarrow> gomap \<Rightarrow> gomap" where
  "collect_certs inm [] u = u"
| "collect_certs inm (k # ks) u =
     (if HasPrefix k ''fulcio-'' then collect_certs inm ks (u(go_get inm k \<mapsto> go_get inm k))
      else collect_certs inm ks u)"

definition uniqueFulcioCerts :: "gomap \<Rightarrow> string list \<Rightarrow> gomap" where
  "uniqueFulcioCerts inm ks =
     collect_certs inm ks
       (case inm LegacyRootCAKey of
          Some legacyRoot \<Rightarrow> if 0 < length legacyRoot then [legacyRoot \<mapsto> legacyRoot] else Map.empty
        | None \<Rightarrow> Map.empty)"

definition go_entry :: "gomap \<Rightarrow> string \<Rightarrow> bytes go" where
  "go_entry inm k = (case inm k of None \<Rightarrow> Fail (NewErr (''missing entry for '' @ k)) | Some v \<Rightarrow> Ok v)"

definition the_log_config :: "'any LogMultiConfig \<Rightarrow> 'any LogConfig go" where
  "the_log_config mc =
     (case mc_LogConfigs mc of
        None \<Rightarrow> Fail (NewErr ''missing multiConfig or nil LogConfigs'')
      | Some lcs \<Rightarrow>
          if length lcs \<noteq> 1
          then Fail (NewErr (''unexpected number of LogConfig, want 1 got '' @ itoa (length lcs)))
          else Ok (hd lcs))"

definition the_backend :: "'any LogMultiConfig \<Rightarrow> LogBackend go" where
  "the_backend mc =
     (case mc_Backends mc of
        None \<Rightarrow> Fail (NewErr ''missing backends'')
      | Some bs \<Rightarrow>
          if length bs \<noteq> 1
          then Fail (NewErr (''unexpected number of Backends, want 1 got '' @ itoa (length bs)))
          else Ok (hd bs))"

definition key_file_of :: "proto_msg \<Rightarrow> PEMKeyFile go" where
  "key_file_of m =
     (case m of PEMKeyFileMsg pb \<Rightarrow> Ok pb
      | OtherMsg _ \<Rightarrow> Fail (NewErr ''not a valid PEMKeyFile in proto''))"

definition Unmarshal ::
  "('cert, 'priv, 'pub, 'any) ct_lib \<Rightarrow> gomap \<Rightarrow> string list \<Rightarrow> string list \<Rightarrow> ('priv, 'pub) Config go" where
  "Unmarshal L inm ks ks2 =
     go_bind (go_entry inm ConfigKey) (\<lambda>config.
     go_bind (go_entry inm PrivateKey) (\<lambda>private.
     go_bind (go_entry inm PublicKey) (\<lambda>public.
     go_bind (wrapf ''failed to unmarshal'' (prototext_Unmarshal L config)) (\<lambda>multiConfig.
     go_bind (the_log_config multiConfig) (\<lambda>logConfig.
     go_bind (the_backend multiConfig) (\<lambda>backend.
     go_bind (wrapf ''failed to unmarshal public key'' (UnmarshalPEMToPublicKey L public)) (\<lambda>pubKey.
     go_bind (wrapf ''invalid private key'' (UnmarshalNew L (lc_PrivateKey logConfig))) (\<lambda>privProto.
     go_bind (key_file_of privProto) (\<lambda>pb.
     go_bind (wrapf ''decrypting existing private key''
                (DecryptExistingPrivateKey L private (kf_Password pb))) (\<lambda>(privKey, _).
       Ok \<lparr>PrivKey = privKey, PrivKeyPassword = kf_Password pb, PubKey = pubKey,
           LogID = lc_LogId logConfig, LogPrefix = lc_Prefix logConfig,
           TrillianServerAddr = be_BackendSpec backend,
           FulcioCerts = map (go_get (uniqueFulcioCerts inm ks)) ks2\<rparr>))))))))))"

section \<open>From a configuration to a secret\<close>

definition fulcio_key :: "nat \<Rightarrow> string" where
  "fulcio_key i = ''fulcio-'' @ itoa i"

fun add_fulcio_keys :: "nat \<Rightarrow> bytes list \<Rightarrow> gomap \<Rightarrow> gomap" where
  "add_fulcio_keys i [] m = m"
| "add_fulcio_keys i (cert # cs) m = add_fulcio_keys (Suc i) cs (m(fulcio_key i \<mapsto> cert))"

definition marshalSecrets ::
  "('cert, 'priv, 'pub, 'any) ct_lib \<Rightarrow> bytes \<Rightarrow> ('priv, 'pub) Config \<Rightarrow> gomap go" where
  "marshalSecrets L rnd c =
     go_bind (wrapf ''failed to marshal private key'' (MarshalPKCS8PrivateKey L (PrivKey c)))
      (\<lambda>marshalledPrivKey.
     go_bind (wrapf ''failed to encrypt private key''
                (EncryptPEMBlock L rnd ''PRIVATE KEY'' marshalledPrivKey (PrivKeyPassword c)))
      (\<lambda>encryptedBlock.
     case pem_EncodeToMemory L encryptedBlock of
       None \<Rightarrow> Fail (NewErr ''failed to encode encrypted private key'')
     | Some privPEM \<Rightarrow>
         (case signer_Public L (PrivKey c) of
            None \<Rightarrow> Fail (NewErr ''failed to convert private key to crypto.Signer'')
          | Some pubkey \<Rightarrow>
              go_bind (wrapf ''failed to marshal public key'' (MarshalPKIXPublicKey L pubkey))
               (\<lambda>marshalledPubKey.
                 Ok (add_fulcio_keys 0 (FulcioCerts c)
                   [PrivateKey \<mapsto> privPEM,
                    PublicKey \<mapsto> nil_bytes (pem_EncodeToMemory L (public_block marshalledPubKey))])))))"

definition mustMarshalAny :: "('cert, 'priv, 'pub, 'any) ct_lib \<Rightarrow> PEMKeyFile \<Rightarrow> 'any go" where
  "mustMarshalAny L pb = on_fail (anypb_New L pb) (\<lambda>e. Panic (''MarshalAny failed: '' @ Error e))"

definition root_pems :: "bytes list \<Rightarrow> string list" where
  "root_pems certs = map (\<lambda>i. rootsPemFileDir @ ''fulcio-'' @ itoa i) [0..<length certs]"

definition multi_config :: "('priv, 'pub) Config \<Rightarrow> 'any \<Rightarrow> bytes \<Rightarrow> 'any LogMultiConfig" where
  "multi_config c any keyDER =
     \<lparr>mc_LogConfigs = Some
        [\<lparr>lc_LogId = LogID c, lc_Prefix = LogPrefix c, lc_RootsPemFile = root_pems (FulcioCerts c),
          lc_PrivateKey = Some any, lc_PublicKey = Some keyDER,
          lc_LogBackendName = ''trillian'', lc_ExtKeyUsages = [''CodeSigning'']\<rparr>],
      mc_Backends = Some [\<lparr>be_Name = ''trillian'', be_BackendSpec = TrillianServerAddr c\<rparr>]\<rparr>"

definition MarshalConfig ::
  "('cert, 'priv, 'pub, 'any) ct_lib \<Rightarrow> bytes \<Rightarrow> ('priv, 'pub) Config \<Rightarrow> gomap go" where
  "MarshalConfig L rnd c =
     (case signer_Public L (PrivKey c) of
        None \<Rightarrow> Exit 1
      | Some pubkey \<Rightarrow>
          go_bind (on_fail (MarshalPKIXPublicKey L pubkey) (\<lambda>e. Panic (''Failed to marshal the public key: '' @ Error e)))
           (\<lambda>keyDER.
          go_bind (mustMarshalAny L \<lparr>kf_Path = privateKeyFile, kf_Password = PrivKeyPassword c\<rparr>)
           (\<lambda>any.
          go_bind (prototext_Marshal L (multi_config c any keyDER))
           (\<lambda>marshalledConfig.
          go_bind (marshalSecrets L rnd c)
           (\<lambda>secrets. Ok (secrets(ConfigKey \<mapsto> marshalledConfig)))))))"

lemma go_entry_Ok [simp]: "go_entry m k = Ok v \<longleftrightarrow> m k = Some v"
  by (simp add: go_entry_def split: option.splits)

lemma length_one_conv: "length xs = Suc 0 \<longleftrightarrow> (\<exists>x. xs = [x])"
  by (cases xs) auto

lemma the_log_config_Ok [simp]: "the_log_config mc = Ok lc \<longleftrightarrow> mc_LogConfigs mc = Some [lc]"
  by (auto simp: the_log_config_def length_one_conv split: option.splits)

lemma the_backend_Ok [simp]: "the_backend mc = Ok b \<longleftrightarrow> mc_Backends mc = Some [b]"
  by (auto simp: the_backend_def length_one_conv split: option.splits)

lemma key_file_of_Ok [simp]: "key_file_of m = Ok f \<longleftrightarrow> m = PEMKeyFileMsg f"
  by (simp add: key_file_of_def split: proto_msg.splits)

section \<open>The set of roots as an abstract data type\<close>

locale root_store =
  fixes add :: "'r \<Rightarrow> 's \<Rightarrow> 's"
    and remove :: "'r \<Rightarrow> 's \<Rightarrow> 's"
    and trusts :: "'s \<Rightarrow> 'r \<Rightarrow> bool"
    and roots :: "'s \<Rightarrow> 'r set"
    and invar :: "'s \<Rightarrow> bool"
  assumes trusts_iff: "invar s \<Longrightarrow> trusts s r \<longleftrightarrow> r \<in> roots s"
    and roots_add: "invar s \<Longrightarrow> roots (add r s) = insert r (roots s)"
    and roots_remove: "invar s \<Longrightarrow> roots (remove r s) = roots s - {r}"
    and invar_add: "invar s \<Longrightarrow> invar (add r s)"
    and invar_remove: "invar s \<Longrightarrow> invar (remove r s)"
    and add_known: "invar s \<Longrightarrow> r \<in> roots s \<Longrightarrow> add r s = s"
begin

lemma add_twice: "invar s \<Longrightarrow> add r (add r s) = add r s"
  by (simp add: add_known invar_add roots_add)

lemma remove_after_add: "invar s \<Longrightarrow> r \<notin> roots s \<Longrightarrow> roots (remove r (add r s)) = roots s"
  by (simp add: invar_add roots_add roots_remove)

end

lemma has_root_iff: "has_root cs r \<longleftrightarrow> r \<in> set cs"
  by (induction cs) auto

lemma remove_root_filter: "remove_root r cs = filter (\<lambda>x. x \<noteq> r) cs"
  by (induction cs) auto

interpretation fulcio_roots: root_store add_root remove_root has_root set distinct
  by unfold_locales (auto simp: has_root_iff add_root_def remove_root_filter)

section \<open>Keys of the secret\<close>

lemma fulcio_key_inject [simp]: "fulcio_key i = fulcio_key j \<longleftrightarrow> i = j"
  by (simp add: fulcio_key_def)

lemma fulcio_key_prefix [simp]: "HasPrefix (fulcio_key i) ''fulcio-''"
  by (simp add: fulcio_key_def)

lemma fulcio_key_other [simp]:
  "fulcio_key i \<noteq> ConfigKey" "fulcio_key i \<noteq> PrivateKey" "fulcio_key i \<noteq> PublicKey"
  "fulcio_key i \<noteq> LegacyRootCAKey"
  by (simp_all add: fulcio_key_def key_defs)

lemma fixed_keys_prefix [simp]:
  "\<not> HasPrefix ConfigKey ''fulcio-''" "\<not> HasPrefix PrivateKey ''fulcio-''"
  "\<not> HasPrefix PublicKey ''fulcio-''" "\<not> HasPrefix LegacyRootCAKey ''fulcio-''"
  by (simp_all add: key_defs)

lemma fixed_keys_distinct [simp]:
  "ConfigKey \<noteq> PrivateKey" "ConfigKey \<noteq> PublicKey" "PrivateKey \<noteq> PublicKey"
  "PrivateKey \<noteq> ConfigKey" "PublicKey \<noteq> ConfigKey" "PublicKey \<noteq> PrivateKey"
  "ConfigKey \<noteq> LegacyRootCAKey" "PrivateKey \<noteq> LegacyRootCAKey" "PublicKey \<noteq> LegacyRootCAKey"
  "LegacyRootCAKey \<noteq> ConfigKey" "LegacyRootCAKey \<noteq> PrivateKey" "LegacyRootCAKey \<noteq> PublicKey"
  by (simp_all add: key_defs)

lemma add_fulcio_keys_other:
  "(\<And>j. j < length cs \<Longrightarrow> k \<noteq> fulcio_key (i + j)) \<Longrightarrow> add_fulcio_keys i cs m k = m k"
proof (induction cs arbitrary: i m)
  case Nil
  then show ?case by simp
next
  case (Cons c cs)
  from Cons.prems [of 0] have "k \<noteq> fulcio_key i" by simp
  moreover have "k \<noteq> fulcio_key (Suc i + j)" if "j < length cs" for j
    using Cons.prems [of "Suc j"] that by simp
  ultimately show ?case using Cons.IH [of "Suc i"] by simp
qed

lemma add_fulcio_keys_nth:
  "j < length cs \<Longrightarrow> add_fulcio_keys i cs m (fulcio_key (i + j)) = Some (cs ! j)"
proof (induction cs arbitrary: i j m)
  case Nil
  then show ?case by simp
next
  case (Cons c cs)
  show ?case
  proof (cases j)
    case 0
    then show ?thesis by (simp add: add_fulcio_keys_other)
  next
    case (Suc j')
    with Cons.prems Cons.IH [of j' "Suc i"] show ?thesis by simp
  qed
qed

lemma add_fulcio_keys_Some_iff:
  "add_fulcio_keys 0 cs m k = Some v \<longleftrightarrow>
     (\<exists>j < length cs. k = fulcio_key j \<and> v = cs ! j) \<or>
     ((\<forall>j < length cs. k \<noteq> fulcio_key j) \<and> m k = Some v)"
proof (cases "\<exists>j < length cs. k = fulcio_key j")
  case True
  then obtain j where j: "j < length cs" "k = fulcio_key j" by blast
  with add_fulcio_keys_nth [of j cs 0 m] have "add_fulcio_keys 0 cs m k = Some (cs ! j)" by simp
  with j show ?thesis by auto
next
  case False
  with add_fulcio_keys_other [of cs k 0 m] show ?thesis by auto
qed

section \<open>The roots a secret holds\<close>

definition secret_roots :: "gomap \<Rightarrow> bytes set" where
  "secret_roots m =
     {v. \<exists>k. HasPrefix k ''fulcio-'' \<and> m k = Some v} \<union> {v. m LegacyRootCAKey = Some v \<and> v \<noteq> []}"

definition self_keyed :: "gomap \<Rightarrow> bool" where
  "self_keyed u \<longleftrightarrow> (\<forall>k v. u k = Some v \<longrightarrow> v = k)"

lemma collect_certs_spec:
  assumes "self_keyed u"
  shows "self_keyed (collect_certs inm ks u) \<and>
    dom (collect_certs inm ks u) = dom u \<union> go_get inm ` {k \<in> set ks. HasPrefix k ''fulcio-''}"
  using assms
proof (induction ks arbitrary: u)
  case Nil
  then show ?case by simp
next
  case (Cons k ks)
  let ?u = "u(go_get inm k \<mapsto> go_get inm k)"
  have u: "self_keyed ?u" using Cons.prems by (auto simp: self_keyed_def)
  show ?case
  proof (cases "HasPrefix k ''fulcio-''")
    case True
    have step: "collect_certs inm (k # ks) u = collect_certs inm ks ?u" using True by simp
    have "{x \<in> set (k # ks). HasPrefix x ''fulcio-''} = insert k {x \<in> set ks. HasPrefix x ''fulcio-''}"
      using True by auto
    then show ?thesis
      unfolding step using Cons.IH [OF u] by (simp only: dom_fun_upd) simp
  next
    case False
    then have "{x \<in> set (k # ks). HasPrefix x ''fulcio-''} = {x \<in> set ks. HasPrefix x ''fulcio-''}"
      by auto
    with False Cons.IH [OF Cons.prems] show ?thesis by simp
  qed
qed

lemma uniqueFulcioCerts_spec:
  assumes "range_order inm ks"
  shows "self_keyed (uniqueFulcioCerts inm ks) \<and> dom (uniqueFulcioCerts inm ks) = secret_roots inm"
proof -
  let ?u = "case inm LegacyRootCAKey of
      Some l \<Rightarrow> if 0 < length l then [l \<mapsto> l] else Map.empty | None \<Rightarrow> Map.empty"
  have u: "self_keyed ?u" by (auto simp: self_keyed_def split: option.splits)
  have legacy: "dom ?u = {v. inm LegacyRootCAKey = Some v \<and> v \<noteq> []}"
    by (auto split: option.splits)
  have "go_get inm ` {k \<in> set ks. HasPrefix k ''fulcio-''} = {v. \<exists>k. HasPrefix k ''fulcio-'' \<and> inm k = Some v}"
    using assms by (force simp: range_order_def)
  with collect_certs_spec [OF u, of inm ks] legacy show ?thesis
    by (auto simp: uniqueFulcioCerts_def secret_roots_def)
qed

lemma Unmarshal_roots:
  assumes "Unmarshal L inm ks ks2 = Ok c" and "range_order inm ks"
    and "range_order (uniqueFulcioCerts inm ks) ks2"
  shows "set (FulcioCerts c) = secret_roots inm" "distinct (FulcioCerts c)"
proof -
  note u = uniqueFulcioCerts_spec [OF assms(2)]
  from assms(3) u have ks2: "distinct ks2" "set ks2 = secret_roots inm"
    by (auto simp: range_order_def)
  have "map (go_get (uniqueFulcioCerts inm ks)) ks2 = ks2"
    using u ks2(2) by (intro map_idI) (auto simp: self_keyed_def go_get_def split: option.splits)
  moreover from assms(1) have "FulcioCerts c = map (go_get (uniqueFulcioCerts inm ks)) ks2"
    by (auto simp: Unmarshal_def)
  ultimately show "set (FulcioCerts c) = secret_roots inm" "distinct (FulcioCerts c)"
    using ks2 by simp_all
qed

section \<open>The map MarshalConfig builds\<close>

lemma marshalSecrets_OkE:
  assumes "marshalSecrets L rnd c = Ok d"
  obtains der blk priv pub pder where
    "MarshalPKCS8PrivateKey L (PrivKey c) = Ok der"
    "EncryptPEMBlock L rnd ''PRIVATE KEY'' der (PrivKeyPassword c) = Ok blk"
    "pem_EncodeToMemory L blk = Some priv"
    "signer_Public L (PrivKey c) = Some pub"
    "MarshalPKIXPublicKey L pub = Ok pder"
    "d = add_fulcio_keys 0 (FulcioCerts c)
       [PrivateKey \<mapsto> priv, PublicKey \<mapsto> nil_bytes (pem_EncodeToMemory L (public_block pder))]"
proof -
  from assms obtain der blk where 1: "MarshalPKCS8PrivateKey L (PrivKey c) = Ok der"
    "EncryptPEMBlock L rnd ''PRIVATE KEY'' der (PrivKeyPassword c) = Ok blk"
    by (auto simp: marshalSecrets_def)
  with assms obtain priv where 2: "pem_EncodeToMemory L blk = Some priv"
    by (auto simp: marshalSecrets_def split: option.splits)
  with 1 assms obtain pub where 3: "signer_Public L (PrivKey c) = Some pub"
    by (auto simp: marshalSecrets_def split: option.splits)
  with 1 2 assms show thesis
    by (auto simp: marshalSecrets_def intro: that [OF 1 2 3])
qed

lemma mustMarshalAny_Ok [simp]: "mustMarshalAny L pb = Ok a \<longleftrightarrow> anypb_New L pb = Ok a"
  by (cases "anypb_New L pb") (auto simp: mustMarshalAny_def)

lemma MarshalConfig_OkE:
  assumes "MarshalConfig L rnd c = Ok data"
  obtains pub der any mc d where
    "signer_Public L (PrivKey c) = Some pub" "MarshalPKIXPublicKey L pub = Ok der"
    "anypb_New L \<lparr>kf_Path = privateKeyFile, kf_Password = PrivKeyPassword c\<rparr> = Ok any"
    "prototext_Marshal L (multi_config c any der) = Ok mc"
    "marshalSecrets L rnd c = Ok d" "data = d(ConfigKey \<mapsto> mc)"
  using assms by (auto simp: MarshalConfig_def split: option.splits)

lemma MarshalConfig_fulcio_key:
  assumes "MarshalConfig L rnd c = Ok data" and "HasPrefix k ''fulcio-''"
  shows "data k = Some v \<longleftrightarrow> (\<exists>j < length (FulcioCerts c). k = fulcio_key j \<and> v = FulcioCerts c ! j)"
proof -
  from assms(2) have k: "k \<noteq> ConfigKey" "k \<noteq> PrivateKey" "k \<noteq> PublicKey" by auto
  from MarshalConfig_OkE [OF assms(1)] obtain mc d where
    d: "marshalSecrets L rnd c = Ok d" "data = d(ConfigKey \<mapsto> mc)" by metis
  from marshalSecrets_OkE [OF d(1)] obtain p q where
    "d = add_fulcio_keys 0 (FulcioCerts c) [PrivateKey \<mapsto> p, PublicKey \<mapsto> q]" by metis
  with d(2) k show ?thesis by (simp add: add_fulcio_keys_Some_iff)
qed

lemma MarshalConfig_dom:
  assumes "MarshalConfig L rnd c = Ok data"
  shows "dom data = {ConfigKey, PrivateKey, PublicKey} \<union> fulcio_key ` {..<length (FulcioCerts c)}"
proof -
  from MarshalConfig_OkE [OF assms] obtain mc d where
    d: "marshalSecrets L rnd c = Ok d" "data = d(ConfigKey \<mapsto> mc)" by metis
  from marshalSecrets_OkE [OF d(1)] obtain p q where
    "d = add_fulcio_keys 0 (FulcioCerts c) [PrivateKey \<mapsto> p, PublicKey \<mapsto> q]" by metis
  with d(2) show ?thesis
    by (auto simp: dom_def add_fulcio_keys_Some_iff image_iff lessThan_iff split: if_splits)
qed

lemma MarshalConfig_roots:
  assumes "MarshalConfig L rnd c = Ok data"
  shows "secret_roots data = set (FulcioCerts c)"
proof -
  have "LegacyRootCAKey \<notin> dom data"
    unfolding MarshalConfig_dom [OF assms] using fulcio_key_other(4) [THEN not_sym] by auto
  then have "data LegacyRootCAKey = None" by (simp add: domIff)
  then show ?thesis
    using MarshalConfig_fulcio_key [OF assms]
    by (auto simp: secret_roots_def in_set_conv_nth) (metis fulcio_key_prefix)
qed

section \<open>Round trip through a secret\<close>

locale ct_crypto =
  fixes L :: "('cert, 'priv, 'pub, 'any) ct_lib"
  assumes prototext_law: "prototext_Marshal L mc = Ok b \<Longrightarrow> prototext_Unmarshal L b = Ok mc"
    and any_law: "anypb_New L pb = Ok a \<Longrightarrow> UnmarshalNew L (Some a) = Ok (PEMKeyFileMsg pb)"
    and pem_law: "pem_EncodeToMemory L blk = Some t \<Longrightarrow> pem_Decode L t = (Some blk, [])"
    and cipher_law: "EncryptPEMBlock L rnd ty bs pw = Ok blk \<Longrightarrow> DecryptPEMBlock L blk pw = Ok bs"
    and pkcs8_law: "MarshalPKCS8PrivateKey L k = Ok der \<Longrightarrow> ParsePKCS8PrivateKey L der = Ok k"
    and public_pem_law: "MarshalPKIXPublicKey L q = Ok der \<Longrightarrow>
      UnmarshalPEMToPublicKey L (nil_bytes (pem_EncodeToMemory L (public_block der))) = Ok q"
begin

lemma decrypt_marshalled:
  assumes "MarshalPKCS8PrivateKey L k = Ok der" and "EncryptPEMBlock L rnd ty der pw = Ok blk"
    and "pem_EncodeToMemory L blk = Some t" and "signer_Public L k = Some q"
  shows "DecryptExistingPrivateKey L t pw = Ok (k, q)"
  using pem_law [OF assms(3)] cipher_law [OF assms(2)] pkcs8_law [OF assms(1)] assms(4)
  by (simp add: DecryptExistingPrivateKey_def)

lemma marshal_unmarshal:
  assumes "MarshalConfig L rnd c = Ok data"
  shows "\<exists>q. signer_Public L (PrivKey c) = Some q \<and>
    Unmarshal L data ks ks2 =
      Ok (c\<lparr>PubKey := q, FulcioCerts := map (go_get (uniqueFulcioCerts data ks)) ks2\<rparr>)"
proof -
  from MarshalConfig_OkE [OF assms] obtain q pder any mc d where
    q: "signer_Public L (PrivKey c) = Some q"
    and any: "anypb_New L \<lparr>kf_Path = privateKeyFile, kf_Password = PrivKeyPassword c\<rparr> = Ok any"
    and mc: "prototext_Marshal L (multi_config c any pder) = Ok mc"
    and d: "marshalSecrets L rnd c = Ok d" "data = d(ConfigKey \<mapsto> mc)"
    by metis
  from marshalSecrets_OkE [OF d(1)] q obtain der blk t pder' where
    t: "MarshalPKCS8PrivateKey L (PrivKey c) = Ok der"
      "EncryptPEMBlock L rnd ''PRIVATE KEY'' der (PrivKeyPassword c) = Ok blk"
      "pem_EncodeToMemory L blk = Some t"
    and pd: "MarshalPKIXPublicKey L q = Ok pder'"
    and dd: "d = add_fulcio_keys 0 (FulcioCerts c)
       [PrivateKey \<mapsto> t, PublicKey \<mapsto> nil_bytes (pem_EncodeToMemory L (public_block pder'))]"
    by (metis option.inject)
  have entries: "data ConfigKey = Some mc" "data PrivateKey = Some t"
    "data PublicKey = Some (nil_bytes (pem_EncodeToMemory L (public_block pder')))"
    by (simp_all add: d(2) dd add_fulcio_keys_Some_iff fulcio_key_other [THEN not_sym])
  with q prototext_law [OF mc] any_law [OF any] decrypt_marshalled [OF t q] public_pem_law [OF pd]
  show ?thesis
    by (simp add: Unmarshal_def go_entry_def the_log_config_def the_backend_def multi_config_def
        key_file_of_def)
qed

end

section \<open>A reference instance of the libraries\<close>

definition enc_block :: "pem_block \<Rightarrow> bytes" where
  "enc_block b = enc_strs [pem_Type b, enc_list (\<lambda>(x, y). enc_strs [x, y]) (pem_Headers b), pem_Bytes b]"

definition dec_block :: "bytes \<Rightarrow> pem_block option" where
  "dec_block t =
     (case dec_strs t of
        Some [ty, hs, bs] \<Rightarrow>
          map_option (\<lambda>h. \<lparr>pem_Type = ty, pem_Headers = h, pem_Bytes = bs\<rparr>)
            (dec_list (\<lambda>p. case dec_strs p of Some [x, y] \<Rightarrow> Some (x, y) | _ \<Rightarrow> None) hs)
      | _ \<Rightarrow> None)"

definition enc_key_file :: "PEMKeyFile \<Rightarrow> string" where
  "enc_key_file f = enc_strs [kf_Path f, kf_Password f]"

definition dec_key_file :: "string \<Rightarrow> PEMKeyFile option" where
  "dec_key_file t = (case dec_strs t of Some [x, y] \<Rightarrow> Some \<lparr>kf_Path = x, kf_Password = y\<rparr> | _ \<Rightarrow> None)"

definition enc_log_config :: "PEMKeyFile LogConfig \<Rightarrow> string" where
  "enc_log_config l = enc_strs
     [itoa_int (lc_LogId l), lc_Prefix l, enc_strs (lc_RootsPemFile l),
      enc_opt enc_key_file (lc_PrivateKey l), enc_opt (\<lambda>x. x) (lc_PublicKey l),
      lc_LogBackendName l, enc_strs (lc_ExtKeyUsages l)]"

definition dec_log_config :: "string \<Rightarrow> PEMKeyFile LogConfig option" where
  "dec_log_config t =
     (case dec_strs t of
        Some [i, p, rs, kf, pk, bn, eu] \<Rightarrow>
          (case (dec_int i, dec_strs rs, dec_opt dec_key_file kf, dec_opt Some pk, dec_strs eu) of
             (Some i', Some rs', Some kf', Some pk', Some eu') \<Rightarrow>
               Some \<lparr>lc_LogId = i', lc_Prefix = p, lc_RootsPemFile = rs', lc_PrivateKey = kf',
                     lc_PublicKey = pk', lc_LogBackendName = bn, lc_ExtKeyUsages = eu'\<rparr>
           | _ \<Rightarrow> None)
      | _ \<Rightarrow> None)"

definition enc_multi_config :: "PEMKeyFile LogMultiConfig \<Rightarrow> string" where
  "enc_multi_config m = enc_strs
     [enc_opt (enc_list enc_log_config) (mc_LogConfigs m),
      enc_opt (enc_list (\<lambda>b. enc_strs [be_Name b, be_BackendSpec b])) (mc_Backends m)]"

definition dec_multi_config :: "string \<Rightarrow> PEMKeyFile LogMultiConfig option" where
  "dec_multi_config t =
     (case dec_strs t of
        Some [ls, bs] \<Rightarrow>
          (case (dec_opt (dec_list dec_log_config) ls,
                 dec_opt (dec_list (\<lambda>p. case dec_strs p of
                    Some [x, y] \<Rightarrow> Some \<lparr>be_Name = x, be_BackendSpec = y\<rparr> | _ \<Rightarrow> None)) bs) of
             (Some ls', Some bs') \<Rightarrow> Some \<lparr>mc_LogConfigs = ls', mc_Backends = bs'\<rparr>
           | _ \<Rightarrow> None)
      | _ \<Rightarrow> None)"

definition ref_lib :: "(bytes, bytes, bytes, PEMKeyFile) ct_lib" where
  "ref_lib =
     \<lparr>UnmarshalCertificatesFromPEM = (\<lambda>p. opt_go (dec_strs p)),
      MarshalCertificateToPEM = (\<lambda>c. Ok (enc_strs [c])),
      UnmarshalPEMToPublicKey = (\<lambda>p. opt_go (map_option pem_Bytes (dec_block p))),
      signer_Public = (\<lambda>k. if k = [] then None else Some (''pub-'' @ k)),
      MarshalPKIXPublicKey = Ok,
      MarshalPKCS8PrivateKey = Ok,
      ParsePKCS8PrivateKey = Ok,
      ParsePKCS1PrivateKey = (\<lambda>_. Fail (NewErr ''pkcs1'')),
      ParseECPrivateKey = (\<lambda>_. Fail (NewErr ''ec'')),
      EncryptPEMBlock = (\<lambda>rnd ty bs pw.
         Ok \<lparr>pem_Type = ty, pem_Headers = [(''DEK-Info'', pw)], pem_Bytes = bs\<rparr>),
      DecryptPEMBlock = (\<lambda>b pw. if pem_Headers b = [(''DEK-Info'', pw)] then Ok (pem_Bytes b)
         else Fail (NewErr ''decryption password incorrect'')),
      pem_EncodeToMemory = (\<lambda>b. Some (enc_block b)),
      pem_Decode = (\<lambda>t. case dec_block t of None \<Rightarrow> (None, t) | Some b \<Rightarrow> (Some b, [])),
      anypb_New = Ok,
      UnmarshalNew = (\<lambda>a. case a of None \<Rightarrow> Fail (NewErr ''nil'') | Some f \<Rightarrow> Ok (PEMKeyFileMsg f)),
      prototext_Marshal = (\<lambda>m. Ok (enc_multi_config m)),
      prototext_Unmarshal = (\<lambda>t. opt_go (dec_multi_config t))\<rparr>"

lemma dec_enc_block [simp]: "dec_block (enc_block b) = Some b"
proof -
  have "dec_list (\<lambda>p. case dec_strs p of Some [x, y] \<Rightarrow> Some (x, y) | _ \<Rightarrow> None)
      (enc_list (\<lambda>(x, y). enc_strs [x, y]) (pem_Headers b)) = Some (pem_Headers b)"
    by (rule dec_enc_list) (auto split: prod.splits)
  then show ?thesis by (simp add: dec_block_def enc_block_def)
qed

lemma dec_enc_key_file [simp]: "dec_key_file (enc_key_file f) = Some f"
  by (simp add: dec_key_file_def enc_key_file_def)

lemma dec_enc_log_config [simp]: "dec_log_config (enc_log_config l) = Some l"
  by (simp add: dec_log_config_def enc_log_config_def dec_enc_int dec_enc_opt)

lemma dec_enc_multi_config [simp]: "dec_multi_config (enc_multi_config m) = Some m"
proof -
  have "dec_opt (dec_list dec_log_config) (enc_opt (enc_list enc_log_config) (mc_LogConfigs m))
      = Some (mc_LogConfigs m)"
    by (intro dec_enc_opt dec_enc_list) simp
  moreover have "dec_opt (dec_list (\<lambda>p. case dec_strs p of
        Some [x, y] \<Rightarrow> Some \<lparr>be_Name = x, be_BackendSpec = y\<rparr> | _ \<Rightarrow> None))
      (enc_opt (enc_list (\<lambda>b. enc_strs [be_Name b, be_BackendSpec b])) (mc_Backends m))
      = Some (mc_Backends m)"
    by (intro dec_enc_opt dec_enc_list) simp
  ultimately show ?thesis by (simp add: dec_multi_config_def enc_multi_config_def)
qed

interpretation ref: ct_crypto ref_lib
  by unfold_locales (auto simp: ref_lib_def opt_go_def nil_bytes_def public_block_def)

section \<open>Sequences of updates\<close>

datatype root_op = AddOp bytes | RemoveOp bytes

fun apply_root_op ::
  "('cert, 'priv, 'pub, 'any) ct_lib \<Rightarrow> root_op \<Rightarrow> (('priv, 'pub) Config, unit) io" where
  "apply_root_op L (AddOp p) = AddFulcioRoot L p"
| "apply_root_op L (RemoveOp p) = RemoveFulcioRoot L p"

text \<open>A caller that goes on after an error, as \<^verbatim>\<open>createctconfig\<close> does; a panic ends the run.\<close>

fun run_root_ops ::
  "('cert, 'priv, 'pub, 'any) ct_lib \<Rightarrow> root_op list \<Rightarrow> ('priv, 'pub) Config \<Rightarrow> ('priv, 'pub) Config" where
  "run_root_ops L [] c = c"
| "run_root_ops L (x # xs) c =
     (case apply_root_op L x c of
        (Panic p, c') \<Rightarrow> c'
      | (_, c') \<Rightarrow> run_root_ops L xs c')"

text \<open>The same run on the abstract set of trusted roots.\<close>

fun abs_root_op :: "root_op \<Rightarrow> bytes \<Rightarrow> bytes set \<Rightarrow> bytes set" where
  "abs_root_op (AddOp _) r S = insert r S"
| "abs_root_op (RemoveOp _) r S = S - {r}"

fun op_chain :: "root_op \<Rightarrow> bytes" where
  "op_chain (AddOp p) = p"
| "op_chain (RemoveOp p) = p"

fun abs_root_ops :: "('cert, 'priv, 'pub, 'any) ct_lib \<Rightarrow> root_op list \<Rightarrow> bytes set \<Rightarrow> bytes set" where
  "abs_root_ops L [] S = S"
| "abs_root_ops L (x # xs) S =
     (case extractFulcioRoot L (op_chain x) of
        Ok r \<Rightarrow> abs_root_ops L xs (abs_root_op x r S)
      | Panic p \<Rightarrow> S
      | _ \<Rightarrow> abs_root_ops L xs S)"

lemma apply_root_op_cases:
  "apply_root_op L x c =
     (case extractFulcioRoot L (op_chain x) of
        Ok r \<Rightarrow> (Ok (), c\<lparr>FulcioCerts :=
           (case x of AddOp _ \<Rightarrow> add_root r (FulcioCerts c) | RemoveOp _ \<Rightarrow> remove_root r (FulcioCerts c))\<rparr>)
      | Fail e \<Rightarrow> (Fail (Wrap ''extracting fulcioRoot'' e), c)
      | Panic p \<Rightarrow> (Panic p, c) | Exit n \<Rightarrow> (Exit n, c))"
  by (cases x) (auto simp: AddFulcioRoot_def RemoveFulcioRoot_def split: go.splits)

lemma run_root_ops_refines:
  "distinct (FulcioCerts c) \<Longrightarrow>
   \<exists>cs. run_root_ops L xs c = c\<lparr>FulcioCerts := cs\<rparr> \<and> distinct cs \<and>
     set cs = abs_root_ops L xs (set (FulcioCerts c))"
proof (induction xs arbitrary: c)
  case Nil
  then show ?case by (intro exI [of _ "FulcioCerts c"]) simp
next
  case (Cons x xs)
  show ?case
  proof (cases "extractFulcioRoot L (op_chain x)")
    case (Ok r)
    let ?cs = "case x of AddOp _ \<Rightarrow> add_root r (FulcioCerts c) | RemoveOp _ \<Rightarrow> remove_root r (FulcioCerts c)"
    have cs: "distinct ?cs" "set ?cs = abs_root_op x r (set (FulcioCerts c))"
      using Cons.prems fulcio_roots.invar_add fulcio_roots.invar_remove
        fulcio_roots.roots_add fulcio_roots.roots_remove by (cases x; simp)+
    from Cons.IH [of "c\<lparr>FulcioCerts := ?cs\<rparr>"] cs Ok show ?thesis
      by (simp add: apply_root_op_cases)
  next
    case (Fail e)
    with Cons.IH [OF Cons.prems] show ?thesis by (simp add: apply_root_op_cases)
  next
    case (Panic p)
    with Cons.prems show ?thesis
      by (intro exI [of _ "FulcioCerts c"]) (simp add: apply_root_op_cases)
  next
    case (Exit n)
    with Cons.IH [OF Cons.prems] show ?thesis by (simp add: apply_root_op_cases)
  qed
qed

section \<open>Properties\<close>

definition example_config :: "(bytes, bytes) Config" where
  "example_config =
     \<lparr>PrivKey = ''key'', PrivKeyPassword = ''test'', PubKey = [], LogID = 42, LogPrefix = ''sigstorescaffolding'',
      TrillianServerAddr = ''log-server:80'', FulcioCerts = [''A'', ''B'']\<rparr>"

definition example_keys :: "string list" where
  "example_keys = [ConfigKey, PrivateKey, PublicKey, fulcio_key 0, fulcio_key 1]"

lemma example_marshal: "\<exists>data. MarshalConfig ref_lib rnd example_config = Ok data"
  by (simp add: MarshalConfig_def ref_lib_def example_config_def marshalSecrets_def mustMarshalAny_def)

lemma example_order:
  assumes "MarshalConfig ref_lib rnd example_config = Ok data"
  shows "range_order data example_keys"
    and "range_order (uniqueFulcioCerts data example_keys) [''A'', ''B'']"
proof -
  have two: "{..<2} = {0, 1 :: nat}" by auto
  show 1: "range_order data example_keys"
    using MarshalConfig_dom [OF assms]
    by (auto simp: range_order_def example_keys_def example_config_def two fulcio_key_other [THEN not_sym])
  show "range_order (uniqueFulcioCerts data example_keys) [''A'', ''B'']"
    using uniqueFulcioCerts_spec [OF 1] MarshalConfig_roots [OF assms]
    by (simp add: range_order_def example_config_def)
qed

text \<open>
  C9. Marshalling a configuration into the map of a secret and unmarshalling that map, whatever
  orders the two range loops take, gives back the configuration: private key, password, log
  id, prefix and server as they were, the public key of the private key, and the same set of
  Fulcio roots, each once.
\<close>

theorem ctlog_round_trip:
  assumes "ct_crypto L" and "MarshalConfig L rnd c = Ok data"
    and "range_order data ks" and "range_order (uniqueFulcioCerts data ks) ks2"
  shows "\<exists>c' q. Unmarshal L data ks ks2 = Ok c' \<and> signer_Public L (PrivKey c) = Some q
     \<and> PrivKey c' = PrivKey c \<and> PubKey c' = q \<and> PrivKeyPassword c' = PrivKeyPassword c
     \<and> LogID c' = LogID c \<and> LogPrefix c' = LogPrefix c \<and> TrillianServerAddr c' = TrillianServerAddr c
     \<and> set (FulcioCerts c') = set (FulcioCerts c) \<and> distinct (FulcioCerts c')"
proof -
  from ct_crypto.marshal_unmarshal [OF assms(1,2), of ks ks2] obtain q where
    q: "signer_Public L (PrivKey c) = Some q"
    and un: "Unmarshal L data ks ks2 =
      Ok (c\<lparr>PubKey := q, FulcioCerts := map (go_get (uniqueFulcioCerts data ks)) ks2\<rparr>)" by blast
  from Unmarshal_roots [OF un assms(3,4)] MarshalConfig_roots [OF assms(2)] q un show ?thesis
    by auto
qed

theorem ctlog_round_trip_witness:
  "\<exists>data c'. MarshalConfig ref_lib ''seed'' example_config = Ok data \<and>
     Unmarshal ref_lib data example_keys [''A'', ''B''] = Ok c' \<and> PrivKey c' = ''key'' \<and> LogID c' = 42 \<and>
     set (FulcioCerts c') = {''A'', ''B''}"
proof -
  obtain data where m: "MarshalConfig ref_lib ''seed'' example_config = Ok data"
    using example_marshal by blast
  from ctlog_round_trip [OF ref.ct_crypto_axioms m example_order [OF m]] m show ?thesis
    by (auto simp: example_config_def)
qed

text \<open>
  C29. The configuration file and the mounted secret agree: in the map MarshalConfig returns the
  \<open>config\<close> entry decodes to one log configuration, its list of root files names exactly the
  \<open>fulcio-\<close> entries of the map under the mount directory, each once and in order, and its
  private key file is the mounted \<open>private\<close> entry.
\<close>

theorem marshal_mounts_roots:
  assumes "ct_crypto L" and "MarshalConfig L rnd c = Ok data"
  shows "\<exists>mc lc any. prototext_Unmarshal L (go_get data ConfigKey) = Ok mc \<and> mc_LogConfigs mc = Some [lc]
     \<and> lc_RootsPemFile lc = map (\<lambda>i. rootsPemFileDir @ fulcio_key i) [0..<length (FulcioCerts c)]
     \<and> {k \<in> dom data. HasPrefix k ''fulcio-''} = fulcio_key ` {..<length (FulcioCerts c)}
     \<and> (\<forall>i < length (FulcioCerts c). data (fulcio_key i) = Some (FulcioCerts c ! i))
     \<and> lc_PrivateKey lc = Some any \<and> PrivateKey \<in> dom data
     \<and> UnmarshalNew L (Some any) = Ok (PEMKeyFileMsg
          \<lparr>kf_Path = rootsPemFileDir @ PrivateKey, kf_Password = PrivKeyPassword c\<rparr>)"
proof -
  from MarshalConfig_OkE [OF assms(2)] obtain der any b d where
    any: "anypb_New L \<lparr>kf_Path = privateKeyFile, kf_Password = PrivKeyPassword c\<rparr> = Ok any"
    and mc: "prototext_Marshal L (multi_config c any der) = Ok b"
    and d: "data = d(ConfigKey \<mapsto> b)" by metis
  have key_path: "privateKeyFile = rootsPemFileDir @ PrivateKey"
    by (simp add: privateKeyFile_def rootsPemFileDir_def PrivateKey_def)
  have keys: "{k \<in> dom data. HasPrefix k ''fulcio-''} = fulcio_key ` {..<length (FulcioCerts c)}"
    "PrivateKey \<in> dom data"
    using MarshalConfig_dom [OF assms(2)] by auto
  have vals: "\<forall>i < length (FulcioCerts c). data (fulcio_key i) = Some (FulcioCerts c ! i)"
    using MarshalConfig_fulcio_key [OF assms(2)] by auto
  show ?thesis
    using ct_crypto.prototext_law [OF assms(1) mc] ct_crypto.any_law [OF assms(1) any] keys vals
    by (intro exI [of _ "multi_config c any der"])
       (simp add: d multi_config_def root_pems_def fulcio_key_def key_path)
qed

theorem marshal_mounts_roots_witness:
  "\<exists>data. MarshalConfig ref_lib ''seed'' example_config = Ok data \<and>
     {k \<in> dom data. HasPrefix k ''fulcio-''} = fulcio_key ` {..<2} \<and> data (fulcio_key 1) = Some ''B''"
proof -
  obtain data where m: "MarshalConfig ref_lib ''seed'' example_config = Ok data"
    using example_marshal by blast
  have len: "length (FulcioCerts example_config) = 2" "FulcioCerts example_config ! 1 = ''B''"
    by (simp_all add: example_config_def)
  from marshal_mounts_roots [OF ref.ct_crypto_axioms m, unfolded len] have
    "{k \<in> dom data. HasPrefix k ''fulcio-''} = fulcio_key ` {..<2}"
    "\<forall>i < 2. data (fulcio_key i) = Some (FulcioCerts example_config ! i)" by blast+
  with m len show ?thesis by auto
qed

text \<open>
  C14. Any run of \<open>AddFulcioRoot\<close> and \<open>RemoveFulcioRoot\<close> calls refines the same run on a set
  of roots: the list of certificates stays free of duplicates, its elements are the set that
  inserting and deleting the extracted roots gives (a call that returns an error changes
  nothing), and no other field of the configuration changes.
\<close>

theorem root_ops_refine_set:
  assumes "distinct (FulcioCerts c)"
  shows "\<exists>cs. run_root_ops L xs c = c\<lparr>FulcioCerts := cs\<rparr> \<and> distinct cs
     \<and> set cs = abs_root_ops L xs (set (FulcioCerts c))"
  by (rule run_root_ops_refines [OF assms])

theorem root_ops_refine_set_witness:
  "\<exists>cs. run_root_ops ref_lib [AddOp (enc_strs [''leaf'', ''R'']), RemoveOp (enc_strs [''R'']), AddOp ''broken'']
      example_config = example_config\<lparr>FulcioCerts := cs\<rparr> \<and> distinct cs \<and> set cs = {''A'', ''B''}"
proof -
  have "distinct (FulcioCerts example_config)" by (simp add: example_config_def)
  from root_ops_refine_set [OF this, of ref_lib
      "[AddOp (enc_strs [''leaf'', ''R'']), RemoveOp (enc_strs [''R'']), AddOp ''broken'']"]
  show ?thesis
    by (simp add: extractFulcioRoot_def ref_lib_def opt_go_def dec_strs_def [of "''broken''"]
        example_config_def) (simp add: enc_strs_def)
qed

text \<open>
  \<open>Unmarshal\<close> never returns a configuration from an incomplete or inconsistent secret:
  success means that the three entries are there, that the text form holds exactly one log
  configuration and one back end, whose values are the ones returned, that the key file in it
  carries the password, and that this password decrypts the stored private key to the one
  returned.
\<close>

lemma unmarshal_accepts_only_complete:
  assumes "Unmarshal L inm ks ks2 = Ok c"
  shows "\<exists>config private public mc lc be f q.
     inm ConfigKey = Some config \<and> inm PrivateKey = Some private \<and> inm PublicKey = Some public
     \<and> prototext_Unmarshal L config = Ok mc \<and> mc_LogConfigs mc = Some [lc] \<and> mc_Backends mc = Some [be]
     \<and> LogID c = lc_LogId lc \<and> LogPrefix c = lc_Prefix lc \<and> TrillianServerAddr c = be_BackendSpec be
     \<and> UnmarshalPEMToPublicKey L public = Ok (PubKey c)
     \<and> UnmarshalNew L (lc_PrivateKey lc) = Ok (PEMKeyFileMsg f) \<and> PrivKeyPassword c = kf_Password f
     \<and> DecryptExistingPrivateKey L private (kf_Password f) = Ok (PrivKey c, q)"
  using assms by (auto simp: Unmarshal_def)

text \<open>
  \<open>DecryptExistingPrivateKey\<close> returns a key only together with its own public key, only
  if the password decrypts the first PEM block, and takes the PKCS8 reading before the PKCS1
  one and that before the EC one.
\<close>

lemma decrypt_key_sound:
  assumes "DecryptExistingPrivateKey L t pw = Ok (k, q)"
  shows "signer_Public L k = Some q \<and> (\<exists>blk der. fst (pem_Decode L t) = Some blk \<and>
     DecryptPEMBlock L blk pw = Ok der \<and>
     (ParsePKCS8PrivateKey L der = Ok k
      \<or> (\<exists>e. ParsePKCS8PrivateKey L der = Fail e) \<and> ParsePKCS1PrivateKey L der = Ok k
      \<or> (\<exists>e e'. ParsePKCS8PrivateKey L der = Fail e \<and> ParsePKCS1PrivateKey L der = Fail e')
         \<and> ParseECPrivateKey L der = Ok k))"
proof -
  from assms obtain blk der where
    b: "fst (pem_Decode L t) = Some blk" "DecryptPEMBlock L blk pw = Ok der"
    by (auto simp: DecryptExistingPrivateKey_def split: option.splits)
  with assms have parsed: "on_fail (ParsePKCS8PrivateKey L der) (\<lambda>_. on_fail (ParsePKCS1PrivateKey L der)
      (\<lambda>_. wrapf ''failed to parse private key PEM'' (ParseECPrivateKey L der))) = Ok k"
    and q: "signer_Public L k = Some q"
    by (auto simp: DecryptExistingPrivateKey_def split: option.splits)
  from parsed have "ParsePKCS8PrivateKey L der = Ok k
      \<or> (\<exists>e. ParsePKCS8PrivateKey L der = Fail e) \<and> ParsePKCS1PrivateKey L der = Ok k
      \<or> (\<exists>e e'. ParsePKCS8PrivateKey L der = Fail e \<and> ParsePKCS1PrivateKey L der = Fail e')
         \<and> ParseECPrivateKey L der = Ok k"
    by (cases "ParsePKCS8PrivateKey L der"; cases "ParsePKCS1PrivateKey L der") auto
  with b q show ?thesis by blast
qed

end
