(* ===== verification/CTLog_Job.thy ===== *)
theory CTLog_Job
  imports Kube_Job CTLog_Config
begin

text \<open>
  \<^verbatim>\<open>tools/ctlog/cmd/ctlog/createctconfig/main.go\<close>: the job that creates the configuration
  secret of the CT log or adds the current Fulcio root to the existing one.

  \<open>ct_env\<close> holds what the job reads from outside: the environment variable, the cluster
  client, the config map, the Fulcio client, the key generators and the orders the runtime
  picks for range loops. The process ends by returning (\<open>Ok\<close>), with \<open>os.Exit\<close> (\<open>Exit\<close>;
  \<open>Exit 0\<close> after a new configuration was created) or with a panic. Logging is left out.
\<close>

section \<open>Inputs\<close>

record ct_flags =
  fl_cmname :: string
  fl_privateKeySecret :: string
  fl_secretName :: string
  fl_pubKeySecretName :: string
  fl_ctlogPrefix :: string
  fl_fulcioURL :: string
  fl_trillianServerAddr :: string
  fl_keyType :: string
  fl_curveType :: string
  fl_keyPassword :: string

definition ct_default_flags :: ct_flags where
  "ct_default_flags =
     \<lparr>fl_cmname = ''ctlog-config'', fl_privateKeySecret = '''', fl_secretName = ''ctlog-secrets'',
      fl_pubKeySecretName = ''ctlog-public-key'', fl_ctlogPrefix = ''sigstorescaffolding'',
      fl_fulcioURL = ''http://fulcio.fulcio-system.svc'',
      fl_trillianServerAddr = ''log-server.trillian-system.svc:80'',
      fl_keyType = ''ecdsa'', fl_curveType = ''p256'', fl_keyPassword = ''test''\<rparr>"

definition supportedCurves :: "string \<rightharpoonup> elliptic_curve" where
  "supportedCurves = [''p256'' \<mapsto> P256, ''p384'' \<mapsto> P384, ''p521'' \<mapsto> P521]"

record ('w, 'cert, 'priv, 'pub, 'any) ct_env =
  ev_NAMESPACE :: string
  ev_InClusterConfig :: "unit go"
  ev_NewForConfig :: "unit go"
  ev_ConfigMapGet :: "string \<Rightarrow> ('w, configmap) io"
  ev_secrets :: "'w secret_if"
  ev_url_Parse :: "string \<Rightarrow> string go"
  ev_RootCert :: "string \<Rightarrow> ('w, bytes) io"
  ev_rsa_GenerateKey :: "nat \<Rightarrow> 'priv go"
  ev_ecdsa_GenerateKey :: "elliptic_curve \<Rightarrow> 'priv go"
  ev_rand :: bytes
  ev_lib :: "('cert, 'priv, 'pub, 'any) ct_lib"
  ev_order :: "gomap \<Rightarrow> string list"

section \<open>Keys\<close>

text \<open>\<open>&ctlog.Config\<close> with the two key fields set and every other field at its zero value.\<close>

definition key_config :: "'priv \<Rightarrow> 'pub \<Rightarrow> ('priv, 'pub) Config" where
  "key_config priv pub =
     \<lparr>PrivKey = priv, PrivKeyPassword = [], PubKey = pub, LogID = 0, LogPrefix = [],
      TrillianServerAddr = [], FulcioCerts = []\<rparr>"

definition bitSize :: nat where "bitSize = 4096"

definition createConfigWithKeys ::
  "('w, 'cert, 'priv, 'pub, 'any) ct_env \<Rightarrow> ct_flags \<Rightarrow> string \<Rightarrow> ('priv, 'pub) Config go" where
  "createConfigWithKeys E F keytype =
     go_bind
       (if keytype = ''rsa''
        then wrapf ''failed to generate Private RSA Key'' (ev_rsa_GenerateKey E bitSize)
        else (case supportedCurves (fl_curveType F) of
                None \<Rightarrow> Panic ''nil pointer dereference''
              | Some c \<Rightarrow> wrapf ''failed to generate Private ECDSA Key'' (ev_ecdsa_GenerateKey E c)))
       (\<lambda>privKey. case signer_Public (ev_lib E) privKey of
            None \<Rightarrow> Exit 1
          | Some pub \<Rightarrow> Ok (key_config privKey pub))"

definition createConfigFromExistingSecret ::
  "('w, 'cert, 'priv, 'pub, 'any) ct_env \<Rightarrow> ct_flags \<Rightarrow> string \<Rightarrow> ('w, ('priv, 'pub) Config) io" where
  "createConfigFromExistingSecret E F name w =
     (case si_Get (ev_secrets E) name w of
        ((_, Some e), w1) \<Rightarrow> (Fail (Wrap ''getting an existing private key secret'' e), w1)
      | ((None, None), w1) \<Rightarrow> (Panic ''nil pointer dereference'', w1)
      | ((Some s, None), w1) \<Rightarrow>
          (let private = go_get (nil_map (sec_Data s)) PrivateKey
           in if length private = 0
              then (Fail (NewErr ''secret missing private key entry''), w1)
              else (go_bind (wrapf ''decrypting existing private key secret''
                               (DecryptExistingPrivateKey (ev_lib E) private (fl_keyPassword F)))
                     (\<lambda>(priv, pub). Ok (key_config priv pub)), w1)))"

section \<open>main\<close>

text \<open>An error of \<open>AddFulcioRoot\<close> is only logged; the configuration goes on unchanged.\<close>

definition add_root_logged ::
  "('w, 'cert, 'priv, 'pub, 'any) ct_env \<Rightarrow> bytes \<Rightarrow> ('priv, 'pub) Config \<Rightarrow> ('priv, 'pub) Config go" where
  "add_root_logged E chain c =
     (case AddFulcioRoot (ev_lib E) chain c of
        (Ok _, c') \<Rightarrow> Ok c' | (Fail _, c') \<Rightarrow> Ok c' | (Panic p, _) \<Rightarrow> Panic p | (Exit n, _) \<Rightarrow> Exit n)"

definition reconcile_job ::
  "('w, 'cert, 'priv, 'pub, 'any) ct_env \<Rightarrow> string \<Rightarrow> gomap \<Rightarrow> ('w, unit) io" where
  "reconcile_job E name data =
     ReconcileSecret (ev_secrets E) name (ev_NAMESPACE E) data (ev_order E data)"

definition create_steps ::
  "('w, 'cert, 'priv, 'pub, 'any) ct_env \<Rightarrow> ct_flags \<Rightarrow> int \<Rightarrow> bytes \<Rightarrow> ('w, unit) io" where
  "create_steps E F treeID chain =
     io_bind
       (io_map_out or_fatal
         (if fl_privateKeySecret F \<noteq> []
          then createConfigFromExistingSecret E F (fl_privateKeySecret F)
          else io_ret (createConfigWithKeys E F (fl_keyType F))))
       (\<lambda>c0. let c = c0\<lparr>PrivKeyPassword := fl_keyPassword F, LogID := treeID,
                       LogPrefix := fl_ctlogPrefix F, TrillianServerAddr := fl_trillianServerAddr F\<rparr>
       in io_bind (io_ret (add_root_logged E chain c)) (\<lambda>c1.
          io_bind (io_ret (or_fatal (MarshalConfig (ev_lib E) (ev_rand E) c1))) (\<lambda>configMap.
          io_bind (io_map_out or_fatal (reconcile_job E (fl_secretName F) configMap)) (\<lambda>_.
          io_map_out (or_panic (''Failed to reconcile public key secret '' @ ev_NAMESPACE E @ ''/'' @ fl_secretName F))
            (reconcile_job E (fl_pubKeySecretName F) [PublicKey \<mapsto> go_get configMap PublicKey])))))"

definition create_configuration ::
  "('w, 'cert, 'priv, 'pub, 'any) ct_env \<Rightarrow> ct_flags \<Rightarrow> int \<Rightarrow> bytes \<Rightarrow> ('w, unit) io" where
  "create_configuration E F treeID chain =
     io_bind (create_steps E F treeID chain) (\<lambda>_. io_ret (Exit 0))"

definition update_configuration ::
  "('w, 'cert, 'priv, 'pub, 'any) ct_env \<Rightarrow> ct_flags \<Rightarrow> gomap \<Rightarrow> bytes option \<Rightarrow> bytes \<Rightarrow> ('w, unit) io" where
  "update_configuration E F data existingCMConfig chain =
     (let inm = (if data ConfigKey \<noteq> None then data else data(ConfigKey := existingCMConfig))
      in io_bind (io_ret (or_fatal (Unmarshal (ev_lib E) inm (ev_order E inm)
                   (ev_order E (uniqueFulcioCerts inm (ev_order E inm)))))) (\<lambda>existingConfig.
         io_bind (io_ret (add_root_logged E chain existingConfig)) (\<lambda>c1.
         io_bind (io_ret (or_fatal (MarshalConfig (ev_lib E) (ev_rand E) c1))) (\<lambda>marshaled.
         io_bind (io_map_out (or_panic (''Failed to reconcile secret '' @ ev_NAMESPACE E @ ''/'' @ fl_secretName F))
                   (reconcile_job E (fl_secretName F)
                     (marshaled(PrivateKey := None, PublicKey := None)))) (\<lambda>_.
         io_map_out (or_panic (''Failed to reconcile secret '' @ ev_NAMESPACE E @ ''/'' @ fl_secretName F))
           (reconcile_job E (fl_pubKeySecretName F) [PublicKey \<mapsto> go_get inm PublicKey]))))))"

text \<open>
  From the config map and the Fulcio client, the tree id and the chain. The last message has the
  verb percent-w in a call that does not know it; what follows it in the text depends on the type of the error.
\<close>

definition read_inputs ::
  "('w, 'cert, 'priv, 'pub, 'any) ct_env \<Rightarrow> ct_flags \<Rightarrow> ('w, int \<times> bytes \<times> bytes option) io" where
  "read_inputs E F =
     io_bind (io_ret (or_panic ''Failed to get InClusterConfig'' (ev_InClusterConfig E))) (\<lambda>_.
     io_bind (io_ret (or_panic ''Failed to get clientset'' (ev_NewForConfig E))) (\<lambda>_.
     io_bind (io_map_out (or_panic (''Failed to get the configmap '' @ ev_NAMESPACE E @ ''/'' @ fl_cmname F)) (ev_ConfigMapGet E (fl_cmname F))) (\<lambda>cm.
     io_bind (io_ret (case nil_map (cm_Data cm) ''treeID'' of None \<Rightarrow> Exit (-1) | Some t \<Rightarrow> Ok t)) (\<lambda>treeID.
     io_bind (io_ret (or_panic (''Invalid TreeID '' @ treeID @ '' '') (ParseInt treeID))) (\<lambda>treeIDInt.
     io_bind (io_ret (or_panic (''Invalid fulcioURL '' @ fl_fulcioURL F @ '' '') (ev_url_Parse E (fl_fulcioURL F)))) (\<lambda>u.
     io_bind (io_map_out (\<lambda>r. on_fail r (\<lambda>e. Panic ''Failed to fetch fulcio Root cert: %!w'')) (ev_RootCert E u)) (\<lambda>chain.
     io_ret (Ok (treeIDInt, chain, nil_map (cm_BinaryData cm) ConfigKey)))))))))"

definition createctconfig_main ::
  "('w, 'cert, 'priv, 'pub, 'any) ct_env \<Rightarrow> ct_flags \<Rightarrow> ('w, unit) io" where
  "createctconfig_main E F w =
     (if ev_NAMESPACE E = [] then (Panic ''env variable NAMESPACE must be set'', w)
      else if fl_keyType F \<noteq> ''rsa'' \<and> fl_keyType F \<noteq> ''ecdsa''
      then (Panic (''invalid keytype specified: '' @ fl_keyType F @ '', support for [rsa,ecdsa]''), w)
      else if supportedCurves (fl_curveType F) = None
      then (Panic (''invalid curvetype specified: '' @ fl_keyType F @ '', support for [p256,p384,p521]''), w)
      else io_bind (read_inputs E F) (\<lambda>(treeID, chain, existingCMConfig) w1.
        case si_Get (ev_secrets E) (fl_secretName F) w1 of
          ((existingSecret, err), w2) \<Rightarrow>
            if (case err of None \<Rightarrow> False | Some e \<Rightarrow> \<not> si_IsNotFound (ev_secrets E) e)
            then (Exit 1, w2)
            else (case existingSecret of
                None \<Rightarrow> (Panic ''nil pointer dereference'', w2)
              | Some s \<Rightarrow>
                  (let data = nil_map (sec_Data s) in
                   if data PrivateKey = None \<or> data PublicKey = None
                      \<or> data ConfigKey = None \<and> existingCMConfig = None
                   then create_configuration E F treeID chain w2
                   else update_configuration E F data existingCMConfig chain w2))) w)"

section \<open>The environment of the job\<close>

declare io_bind.simps [simp del]

locale ct_job =
  fixes E :: "('w, 'cert, 'priv, 'pub, 'any) ct_env"
    and view :: "'w \<Rightarrow> string \<Rightarrow> gomap option"
  assumes api: "secret_api (ev_secrets E) view"
    and order: "finite (dom m) \<Longrightarrow> range_order m (ev_order E m)"
    and cm_view: "ev_ConfigMapGet E n w = (r, w') \<Longrightarrow> view w' = view w"
    and root_view: "ev_RootCert E u w = (t, w') \<Longrightarrow> view w' = view w"
begin

lemma read_inputs_view: "read_inputs E F w = (Ok x, w') \<Longrightarrow> view w' = view w"
  unfolding read_inputs_def
  by (auto simp: io_bind_Ok_conv split: option.splits dest!: cm_view root_view)

lemma reconcile_job_view:
  assumes "reconcile_job E name data w = (Ok (), w')" and "finite (dom data)"
  shows "view w' = (view w)(name \<mapsto> (case view w name of None \<Rightarrow> data | Some m \<Rightarrow> reconciled m data))"
  using assms secret_api.reconcile_ok_view [OF api] order unfolding reconcile_job_def by blast

lemma update_OkE:
  assumes "update_configuration E F data cmc chain w = (Ok (), w')"
  obtains inm c0 c1 m w1 where
    "inm = (if data ConfigKey \<noteq> None then data else data(ConfigKey := cmc))"
    "Unmarshal (ev_lib E) inm (ev_order E inm) (ev_order E (uniqueFulcioCerts inm (ev_order E inm))) = Ok c0"
    "add_root_logged E chain c0 = Ok c1"
    "MarshalConfig (ev_lib E) (ev_rand E) c1 = Ok m"
    "reconcile_job E (fl_secretName F) (m(PrivateKey := None, PublicKey := None)) w = (Ok (), w1)"
    "reconcile_job E (fl_pubKeySecretName F) [PublicKey \<mapsto> go_get inm PublicKey] w1 = (Ok (), w')"
  using assms unfolding update_configuration_def
  by (auto simp: io_bind_Ok_conv Let_def)

lemma main_OkE:
  assumes "createctconfig_main E F w = (Ok (), w')"
  obtains treeID chain cmc w1 w2 d where
    "read_inputs E F w = (Ok (treeID, chain, cmc), w1)"
    "view w2 = view w" "view w (fl_secretName F) = Some d"
    "d PrivateKey \<noteq> None" "d PublicKey \<noteq> None" "d ConfigKey \<noteq> None \<or> cmc \<noteq> None"
    "update_configuration E F d cmc chain w2 = (Ok (), w')"
proof -
  let ?S = "ev_secrets E"
  from assms obtain treeID chain cmc w1 where ri: "read_inputs E F w = (Ok (treeID, chain, cmc), w1)"
    by (auto simp: createctconfig_main_def io_bind_Ok_conv split: if_splits)
  obtain ex err w2 where get: "si_Get ?S (fl_secretName F) w1 = ((ex, err), w2)" by (metis prod.collapse)
  from assms ri get obtain s where s: "ex = Some s"
    by (auto simp: createctconfig_main_def io_bind_Ok_conv split: if_splits option.splits)
  let ?d = "nil_map (sec_Data s)"
  have no: "create_configuration E F treeID chain w2 \<noteq> (Ok (), w')"
    by (auto simp: create_configuration_def io_bind_Ok_conv io_ret_def)
  with assms ri get s have d: "?d PrivateKey \<noteq> None" "?d PublicKey \<noteq> None"
    "?d ConfigKey \<noteq> None \<or> cmc \<noteq> None"
    and up: "update_configuration E F ?d cmc chain w2 = (Ok (), w')"
    by (auto simp: createctconfig_main_def io_bind_Ok_conv Let_def split: if_splits)
  have "err = None"
    using d(1) get secret_api.get_error_zero [OF api, of "fl_secretName F" w1 s] s by (cases err) auto
  with get s secret_api.get_ok [OF api, of "fl_secretName F" w1 ex w2]
  have "view w1 (fl_secretName F) = Some ?d" by auto
  moreover have "view w2 = view w1" "view w1 = view w"
    using secret_api.get_view [OF api get] read_inputs_view [OF ri] by auto
  ultimately show thesis using that [OF ri _ _ d up] by simp
qed

text \<open>What a run that updated the configuration leaves in the two secrets.\<close>

lemma main_Ok_view:
  assumes main: "createctconfig_main E F w = (Ok (), w')"
    and names: "fl_secretName F \<noteq> fl_pubKeySecretName F"
    and finite_data: "finite (dom (old_data view w (fl_secretName F)))"
  obtains treeID chain cmc w1 d c0 c1 m p where
    "read_inputs E F w = (Ok (treeID, chain, cmc), w1)"
    "view w (fl_secretName F) = Some d" "d PrivateKey \<noteq> None" "d PublicKey \<noteq> None"
    "set (FulcioCerts c0) = secret_roots d" "distinct (FulcioCerts c0)"
    "add_root_logged E chain c0 = Ok c1" "MarshalConfig (ev_lib E) (ev_rand E) c1 = Ok m"
    "view w' (fl_secretName F) = Some (reconciled d (m(PrivateKey := None, PublicKey := None)))"
    "view w' (fl_pubKeySecretName F) = Some p" "go_get p PublicKey = go_get d PublicKey"
proof -
  from main_OkE [OF main] obtain treeID chain cmc w1 w2 d where
    ri: "read_inputs E F w = (Ok (treeID, chain, cmc), w1)" and v2: "view w2 = view w"
    and d: "view w (fl_secretName F) = Some d" "d PrivateKey \<noteq> None" "d PublicKey \<noteq> None"
    and up: "update_configuration E F d cmc chain w2 = (Ok (), w')" by metis
  from update_OkE [OF up] obtain inm c0 c1 m w3 where
    inm: "inm = (if d ConfigKey \<noteq> None then d else d(ConfigKey := cmc))"
    and un: "Unmarshal (ev_lib E) inm (ev_order E inm) (ev_order E (uniqueFulcioCerts inm (ev_order E inm))) = Ok c0"
    and c1: "add_root_logged E chain c0 = Ok c1" "MarshalConfig (ev_lib E) (ev_rand E) c1 = Ok m"
    and r1: "reconcile_job E (fl_secretName F) (m(PrivateKey := None, PublicKey := None)) w2 = (Ok (), w3)"
    and r2: "reconcile_job E (fl_pubKeySecretName F) [PublicKey \<mapsto> go_get inm PublicKey] w3 = (Ok (), w')"
    by metis
  have fin: "finite (dom inm)" using finite_data d(1) by (simp add: inm old_data_def)
  have uniq: "finite (dom (uniqueFulcioCerts inm (ev_order E inm)))"
    using uniqueFulcioCerts_spec [OF order [OF fin]] fin
    by (auto simp: secret_roots_def intro!: finite_subset [OF _ finite_ran [OF fin]] intro: ranI)
  have sr: "secret_roots inm = secret_roots d"
    by (auto simp: inm secret_roots_def) (metis fixed_keys_prefix(1))+
  have finm: "finite (dom (m(PrivateKey := None, PublicKey := None)))"
    using MarshalConfig_dom [OF c1(2)] by simp
  have v3: "view w3 = (view w)(fl_secretName F \<mapsto> reconciled d (m(PrivateKey := None, PublicKey := None)))"
    using reconcile_job_view [OF r1 finm] v2 d(1) by simp
  have v4: "view w' = (view w3)(fl_pubKeySecretName F \<mapsto> (case view w3 (fl_pubKeySecretName F) of
      None \<Rightarrow> [PublicKey \<mapsto> go_get inm PublicKey] | Some q \<Rightarrow> reconciled q [PublicKey \<mapsto> go_get inm PublicKey]))"
    using reconcile_job_view [OF r2] by simp
  have pub: "go_get inm PublicKey = go_get d PublicKey" by (simp add: inm go_get_def)
  have secret: "view w' (fl_secretName F) = Some (reconciled d (m(PrivateKey := None, PublicKey := None)))"
    using names v3 v4 by simp
  obtain p where p: "view w' (fl_pubKeySecretName F) = Some p" "go_get p PublicKey = go_get d PublicKey"
    using v4 pub by (auto split: option.splits)
  note roots = Unmarshal_roots [OF un order [OF fin] order [OF uniq], unfolded sr]
  show thesis by (rule that [OF ri d roots c1 secret p])
qed

lemma create_steps_OkE:
  assumes "create_steps E F treeID chain w = (Ok (), w')"
  obtains c0 c1 m w1 w2 where
    "FulcioCerts c0 = []" "LogID c0 = treeID" "PrivKeyPassword c0 = fl_keyPassword F"
    "LogPrefix c0 = fl_ctlogPrefix F" "TrillianServerAddr c0 = fl_trillianServerAddr F"
    "add_root_logged E chain c0 = Ok c1" "MarshalConfig (ev_lib E) (ev_rand E) c1 = Ok m"
    "reconcile_job E (fl_secretName F) m w1 = (Ok (), w2)"
    "reconcile_job E (fl_pubKeySecretName F) [PublicKey \<mapsto> go_get m PublicKey] w2 = (Ok (), w')"
    "view w1 = view w"
proof -
  from assms obtain k w1 c1 m w2 where
    k: "(if fl_privateKeySecret F \<noteq> [] then createConfigFromExistingSecret E F (fl_privateKeySecret F)
         else io_ret (createConfigWithKeys E F (fl_keyType F))) w = (Ok k, w1)"
    and rest: "add_root_logged E chain (k\<lparr>PrivKeyPassword := fl_keyPassword F, LogID := treeID,
        LogPrefix := fl_ctlogPrefix F, TrillianServerAddr := fl_trillianServerAddr F\<rparr>) = Ok c1"
      "MarshalConfig (ev_lib E) (ev_rand E) c1 = Ok m"
      "reconcile_job E (fl_secretName F) m w1 = (Ok (), w2)"
      "reconcile_job E (fl_pubKeySecretName F) [PublicKey \<mapsto> go_get m PublicKey] w2 = (Ok (), w')"
    unfolding create_steps_def by (auto simp: io_bind_Ok_conv Let_def)
  from k have fk: "FulcioCerts k = []"
    by (auto simp: createConfigFromExistingSecret_def createConfigWithKeys_def key_config_def Let_def
        split: if_splits prod.splits option.splits)
  have v1: "view w1 = view w"
  proof (cases "fl_privateKeySecret F = []")
    case True
    with k show ?thesis by (simp add: io_ret_def)
  next
    case False
    obtain a w0 where get: "si_Get (ev_secrets E) (fl_privateKeySecret F) w = (a, w0)" by (metis prod.collapse)
    with k False have "w1 = w0"
      by (auto simp: createConfigFromExistingSecret_def Let_def split: prod.splits option.splits if_splits)
    with secret_api.get_view [OF api get] show ?thesis by simp
  qed
  show thesis by (rule that [OF _ _ _ _ _ rest v1]) (simp_all add: fk)
qed

text \<open>A run that finds no secret and makes the configuration leaves one key pair: the whole of the marshalled map in the secret, its public key in the other one.\<close>

lemma create_steps_new:
  assumes "create_steps E F treeID chain w = (Ok (), w')" and "view w (fl_secretName F) = None"
    and names: "fl_secretName F \<noteq> fl_pubKeySecretName F"
  obtains m p where "view w' (fl_secretName F) = Some m" "{ConfigKey, PrivateKey, PublicKey} \<subseteq> dom m"
    "view w' (fl_pubKeySecretName F) = Some p" "go_get p PublicKey = go_get m PublicKey"
proof (rule create_steps_OkE [OF assms(1)], goal_cases)
  case (1 c0 c1 m w1 w2)
  have dom: "finite (dom m)" "{ConfigKey, PrivateKey, PublicKey} \<subseteq> dom m" using MarshalConfig_dom [OF 1(8)] by auto
  have v2: "view w2 (fl_secretName F) = Some m"
    using reconcile_job_view [OF 1(9) dom(1)] 1(11) assms(2) by simp
  note v' = reconcile_job_view [OF 1(10) finite_dom_upd [OF finite_dom_empty]]
  obtain p where "view w' (fl_pubKeySecretName F) = Some p" "go_get p PublicKey = go_get m PublicKey"
    using v' by (auto split: option.splits)
  then show thesis using that [OF _ dom(2)] v' v2 names by simp
qed

end

section \<open>Roots in the secret after a run\<close>

lemma add_root_logged_Ok:
  assumes "add_root_logged E chain c = Ok c1"
  shows "c1 = c\<lparr>FulcioCerts := (case extractFulcioRoot (ev_lib E) chain of
      Ok r \<Rightarrow> add_root r (FulcioCerts c) | _ \<Rightarrow> FulcioCerts c)\<rparr>"
  using assms by (auto simp: add_root_logged_def AddFulcioRoot_def split: go.splits)

lemma reconciled_roots:
  assumes m: "MarshalConfig L rnd c = Ok m" and sub: "secret_roots d \<subseteq> set (FulcioCerts c)"
    and ne: "[] \<notin> set (FulcioCerts c)"
  shows "secret_roots (reconciled d (m(PrivateKey := None, PublicKey := None))) = set (FulcioCerts c)"
proof -
  let ?m = "m(PrivateKey := None, PublicKey := None)"
  have fk: "reconciled d ?m k = (case m k of Some v \<Rightarrow> Some v | None \<Rightarrow> d k)" if pre: "HasPrefix k ''fulcio-''" for k
  proof -
    from pre have mk: "?m k = m k" by auto
    show ?thesis
    proof (cases "m k")
      case None
      with mk show ?thesis by (simp add: reconciled_other domIff)
    next
      case (Some v)
      then obtain j where "j < length (FulcioCerts c)" "v = FulcioCerts c ! j"
        unfolding MarshalConfig_fulcio_key [OF m pre] by blast
      then have "v \<noteq> []" using ne nth_mem by metis
      with mk Some have "reconciled d ?m k = Some v" by (intro reconciled_present) simp_all
      with Some show ?thesis by simp
    qed
  qed
  have legacy: "reconciled d ?m LegacyRootCAKey = d LegacyRootCAKey"
  proof -
    have "LegacyRootCAKey \<notin> dom ?m"
      using MarshalConfig_dom [OF m] fulcio_key_other(4) [THEN not_sym] by auto
    then show ?thesis by (rule reconciled_other)
  qed
  show ?thesis
  proof (intro equalityI subsetI)
    fix v
    assume "v \<in> secret_roots (reconciled d ?m)"
    then consider k where "HasPrefix k ''fulcio-''" "reconciled d ?m k = Some v"
      | "d LegacyRootCAKey = Some v" "v \<noteq> []"
      unfolding secret_roots_def legacy by blast
    then show "v \<in> set (FulcioCerts c)"
    proof cases
      case 1
      with fk [OF 1(1)] have "m k = Some v \<or> d k = Some v" by (simp split: option.splits)
      then show ?thesis
        using 1(1) sub MarshalConfig_roots [OF m] unfolding secret_roots_def by blast
    next
      case 2
      with sub show ?thesis unfolding secret_roots_def by blast
    qed
  next
    fix v
    assume "v \<in> set (FulcioCerts c)"
    then obtain j where j: "j < length (FulcioCerts c)" "v = FulcioCerts c ! j"
      by (metis in_set_conv_nth)
    then have "m (fulcio_key j) = Some v"
      unfolding MarshalConfig_fulcio_key [OF m fulcio_key_prefix] by blast
    then have "reconciled d ?m (fulcio_key j) = Some v" by (simp add: fk [OF fulcio_key_prefix])
    then show "v \<in> secret_roots (reconciled d ?m)"
      unfolding secret_roots_def using fulcio_key_prefix by blast
  qed
qed

section \<open>A reference environment\<close>

definition ref_env :: "(cluster, bytes, bytes, bytes, PEMKeyFile) ct_env" where
  "ref_env =
     \<lparr>ev_NAMESPACE = ''ctlog-system'', ev_InClusterConfig = Ok (), ev_NewForConfig = Ok (),
      ev_ConfigMapGet = (\<lambda>n w. (Ok \<lparr>cm_Data = Some [''treeID'' \<mapsto> ''42''], cm_BinaryData = None\<rparr>, w)),
      ev_secrets = mem_if False, ev_url_Parse = Ok,
      ev_RootCert = (\<lambda>u w. (Ok (enc_strs [''leaf'', ''R'']), w)),
      ev_rsa_GenerateKey = (\<lambda>_. Ok ''rsakey''), ev_ecdsa_GenerateKey = (\<lambda>_. Ok ''eckey''), ev_rand = [],
      ev_lib = ref_lib, ev_order = sorted_order\<rparr>"

lemma mem_ct_job:
  assumes "ev_secrets E = mem_if b" and "ev_order E = sorted_order"
    and "\<And>n w. snd (ev_ConfigMapGet E n w) = w" and "\<And>u w. snd (ev_RootCert E u w) = w"
  shows "ct_job E mem_view"
proof (rule ct_job.intro)
  show "secret_api (ev_secrets E) mem_view" using assms(1) faulty.secret_api_axioms by simp
qed (use assms sorted_order_range in \<open>auto intro: arg_cong [where f = mem_view] dest: arg_cong [where f = snd]\<close>)

interpretation refjob: ct_job ref_env mem_view
  by (rule mem_ct_job) (simp_all add: ref_env_def)

lemma ParseInt_42: "ParseInt ''42'' = Ok 42"
  by code_simp

lemma ref_read_inputs:
  "read_inputs ref_env F w = (Ok (42, enc_strs [''leaf'', ''R''], None), w)"
  by (simp add: read_inputs_def io_bind.simps io_ret_def io_map_out_def or_panic_def ref_env_def ParseInt_42)

lemma ref_flags:
  "ev_NAMESPACE ref_env \<noteq> []" "fl_keyType ct_default_flags = ''ecdsa''"
  "supportedCurves (fl_curveType ct_default_flags) = Some P256"
  "fl_secretName ct_default_flags = ''ctlog-secrets''"
  "fl_pubKeySecretName ct_default_flags = ''ctlog-public-key''"
  "ev_secrets ref_env = mem_if False" "ev_lib ref_env = ref_lib" "ev_order ref_env = sorted_order"
  "ev_rand ref_env = []"
  by (simp_all add: ref_env_def ct_default_flags_def supportedCurves_def)

lemma ref_update_runs:
  assumes m: "MarshalConfig ref_lib rnd example_config = Ok data"
  shows "\<exists>w'. createctconfig_main ref_env ct_default_flags
     \<lparr>cl_store = [''ctlog-secrets'' \<mapsto> Some data], cl_faults = []\<rparr> = (Ok (), w')"
proof -
  let ?w = "\<lparr>cl_store = [''ctlog-secrets'' \<mapsto> Some data], cl_faults = []\<rparr>"
  let ?F = ct_default_flags
  have dom: "ConfigKey \<in> dom data" "PrivateKey \<in> dom data" "PublicKey \<in> dom data"
    using MarshalConfig_dom [OF m] by auto
  have v: "mem_view ?w ''ctlog-secrets'' = Some data" by (simp add: mem_view_def)
  from ref.marshal_unmarshal [OF m, of "sorted_order data" "sorted_order (uniqueFulcioCerts data (sorted_order data))"]
  obtain c0 where c0: "Unmarshal ref_lib data (sorted_order data)
      (sorted_order (uniqueFulcioCerts data (sorted_order data))) = Ok c0" "PrivKey c0 = ''key''"
    by (auto simp: example_config_def)
  obtain c1 where c1: "add_root_logged ref_env (enc_strs [''leaf'', ''R'']) c0 = Ok c1" "PrivKey c1 = PrivKey c0"
    by (auto simp: add_root_logged_def AddFulcioRoot_def extractFulcioRoot_def ref_env_def ref_lib_def opt_go_def)
  obtain m1 where m1: "MarshalConfig ref_lib [] c1 = Ok m1"
    using c0 c1 by (auto simp: MarshalConfig_def ref_lib_def marshalSecrets_def mustMarshalAny_def)
  let ?d1 = "m1(PrivateKey := None, PublicKey := None)"
  have fin: "finite (dom ?d1)" using MarshalConfig_dom [OF m1] by simp
  have ne: "data \<noteq> Map.empty" using dom by auto
  obtain w1 where r1: "reconcile_job ref_env ''ctlog-secrets'' ?d1 ?w = (Ok (), w1)"
    using calm.reconcile_live [OF sorted_order_range [OF fin], of ?w "''ctlog-secrets''" "''ctlog-system''"] v ne
    by (auto simp: reconcile_job_def ref_env_def)
  have v1: "mem_view w1 ''ctlog-public-key'' = None"
    using refjob.reconcile_job_view [OF r1 fin] by (simp add: mem_view_def)
  obtain w2 where r2: "reconcile_job ref_env ''ctlog-public-key'' [PublicKey \<mapsto> go_get data PublicKey] w1 = (Ok (), w2)"
    using calm.reconcile_live [OF sorted_order_range [of "[PublicKey \<mapsto> go_get data PublicKey]"],
        of w1 "''ctlog-public-key''" "''ctlog-system''"] v1
    by (auto simp: reconcile_job_def ref_env_def)
  have up: "update_configuration ref_env ?F data None (enc_strs [''leaf'', ''R'']) ?w = (Ok (), w2)"
    using c0 c1 m1 r1 r2 dom
    by (simp add: update_configuration_def io_bind.simps io_ret_def io_map_out_def or_fatal_def or_panic_def
        ref_flags domIff)
  have ri: "read_inputs ref_env ?F ?w = (Ok (42, enc_strs [''leaf'', ''R''], None), ?w)"
    by (rule ref_read_inputs)
  have get: "si_Get (ev_secrets ref_env) (fl_secretName ?F) ?w =
      ((Some \<lparr>sec_Namespace = [], sec_Name = ''ctlog-secrets'', sec_ResourceVersion = [], sec_Data = Some data\<rparr>, None), ?w)"
    by (simp add: ref_flags mem_defs)
  show ?thesis
    using up ri get dom
    by (intro exI [of _ w2]) (auto simp: createctconfig_main_def io_bind.simps ref_flags)
qed

section \<open>Properties\<close>

text \<open>
  C15. A run that finds a complete configuration and returns keeps the key pair: the secret had a
  private and a public key, it holds the same two entries afterwards, and the public secret
  holds the same public key.
\<close>

theorem ctlog_job_keeps_keys:
  assumes "ct_job E view" and "createctconfig_main E F w = (Ok (), w')"
    and "fl_secretName F \<noteq> fl_pubKeySecretName F"
    and "finite (dom (old_data view w (fl_secretName F)))"
  shows "\<exists>d d' p. view w (fl_secretName F) = Some d \<and> view w' (fl_secretName F) = Some d'
     \<and> d PrivateKey \<noteq> None \<and> d PublicKey \<noteq> None
     \<and> d' PrivateKey = d PrivateKey \<and> d' PublicKey = d PublicKey
     \<and> view w' (fl_pubKeySecretName F) = Some p \<and> go_get p PublicKey = go_get d PublicKey"
proof (rule ct_job.main_Ok_view [OF assms], goal_cases)
  case (1 treeID chain cmc w1 d c0 c1 m p)
  then show ?thesis
    by (intro exI [of _ d] exI [of _ "reconciled d (m(PrivateKey := None, PublicKey := None))"] exI [of _ p])
       (simp add: reconciled_other)
qed

lemma example_finite:
  assumes "MarshalConfig ref_lib rnd example_config = Ok data"
  shows "finite (dom (old_data mem_view
     \<lparr>cl_store = [''ctlog-secrets'' \<mapsto> Some data], cl_faults = []\<rparr> ''ctlog-secrets''))"
  using MarshalConfig_dom [OF assms] by (simp add: old_data_def mem_view_def)

theorem ctlog_job_keeps_keys_witness:
  "\<exists>data w' d'. MarshalConfig ref_lib ''seed'' example_config = Ok data \<and>
     createctconfig_main ref_env ct_default_flags
       \<lparr>cl_store = [''ctlog-secrets'' \<mapsto> Some data], cl_faults = []\<rparr> = (Ok (), w') \<and>
     mem_view w' ''ctlog-secrets'' = Some d' \<and> d' PrivateKey = data PrivateKey"
proof -
  obtain data where m: "MarshalConfig ref_lib ''seed'' example_config = Ok data"
    using example_marshal by blast
  from ref_update_runs [OF m] obtain w' where
    run: "createctconfig_main ref_env ct_default_flags
       \<lparr>cl_store = [''ctlog-secrets'' \<mapsto> Some data], cl_faults = []\<rparr> = (Ok (), w')" by blast
  from ctlog_job_keeps_keys [OF refjob.ct_job_axioms run] example_finite [OF m] m run show ?thesis
    by (auto simp: ref_flags mem_view_def)
qed

text \<open>
  C16. A run that finds a complete configuration and returns has added the root of the fetched
  chain to the trusted roots of the secret and lost none: the roots of the secret afterwards
  are those before and the last certificate of the chain (or just those before when the chain
  cannot be read). Keys left over in the secret do not change this.
\<close>

theorem ctlog_job_adds_root:
  assumes "ct_job E view" and "createctconfig_main E F w = (Ok (), w')"
    and "fl_secretName F \<noteq> fl_pubKeySecretName F"
    and "finite (dom (old_data view w (fl_secretName F)))"
    and "[] \<notin> secret_roots (old_data view w (fl_secretName F))"
    and "\<And>p. extractFulcioRoot (ev_lib E) p \<noteq> Ok []"
  shows "\<exists>treeID chain cmc w1. read_inputs E F w = (Ok (treeID, chain, cmc), w1)
     \<and> secret_roots (old_data view w' (fl_secretName F)) =
         (case extractFulcioRoot (ev_lib E) chain of
            Ok r \<Rightarrow> insert r (secret_roots (old_data view w (fl_secretName F)))
          | _ \<Rightarrow> secret_roots (old_data view w (fl_secretName F)))"
proof (rule ct_job.main_Ok_view [OF assms(1-4)], goal_cases)
  case (1 treeID chain cmc w1 d c0 c1 m p)
  let ?R = "case extractFulcioRoot (ev_lib E) chain of
      Ok r \<Rightarrow> insert r (secret_roots d) | _ \<Rightarrow> secret_roots d"
  have d: "old_data view w (fl_secretName F) = d" using 1 by (simp add: old_data_def)
  have c1: "set (FulcioCerts c1) = ?R"
    using add_root_logged_Ok [OF 1(7)] 1(5,6) fulcio_roots.roots_add [of "FulcioCerts c0"]
    by (auto split: go.splits)
  then have "[] \<notin> set (FulcioCerts c1)"
    using assms(5,6) by (auto simp: d split: go.splits)
  from reconciled_roots [OF 1(8) _ this, of d] c1
  have "secret_roots (old_data view w' (fl_secretName F)) = ?R"
    using 1(9) by (auto simp: old_data_def split: go.splits)
  with 1(1) d show ?thesis by auto
qed

theorem ctlog_job_adds_root_witness:
  "\<exists>data w'. MarshalConfig ref_lib ''seed'' example_config = Ok data \<and>
     createctconfig_main ref_env ct_default_flags
       \<lparr>cl_store = [''ctlog-secrets'' \<mapsto> Some data], cl_faults = []\<rparr> = (Ok (), w') \<and>
     secret_roots (old_data mem_view w' ''ctlog-secrets'') = {enc_strs [''R''], ''A'', ''B''}"
proof -
  obtain data where m: "MarshalConfig ref_lib ''seed'' example_config = Ok data"
    using example_marshal by blast
  let ?w = "\<lparr>cl_store = [''ctlog-secrets'' \<mapsto> Some data], cl_faults = []\<rparr>"
  from ref_update_runs [OF m] obtain w' where
    run: "createctconfig_main ref_env ct_default_flags ?w = (Ok (), w')" by blast
  have old: "secret_roots (old_data mem_view ?w ''ctlog-secrets'') = {''A'', ''B''}"
    using MarshalConfig_roots [OF m] by (simp add: old_data_def mem_view_def example_config_def)
  have ne: "extractFulcioRoot ref_lib p \<noteq> Ok []" for p
  proof -
    have "put_str x \<noteq> []" for x by simp
    then show ?thesis by (auto simp: extractFulcioRoot_def ref_lib_def enc_strs_def split: if_splits)
  qed
  have r: "extractFulcioRoot ref_lib (enc_strs [''leaf'', ''R'']) = Ok (enc_strs [''R''])"
    by (simp add: extractFulcioRoot_def ref_lib_def opt_go_def)
  from ctlog_job_adds_root [OF refjob.ct_job_axioms run] example_finite [OF m] m run old ne r show ?thesis
    by (auto simp: ref_flags ref_read_inputs)
qed

text \<open>
  C30. When the secret is complete the job generates no key: the outcome and every effect are the
  same whatever the key generators would return.
\<close>

theorem ctlog_job_never_regenerates:
  assumes "read_inputs E F w = (Ok (treeID, chain, cmc), w1)"
    and "si_Get (ev_secrets E) (fl_secretName F) w1 = ((Some s, None), w2)"
    and "nil_map (sec_Data s) PrivateKey \<noteq> None" and "nil_map (sec_Data s) PublicKey \<noteq> None"
    and "nil_map (sec_Data s) ConfigKey \<noteq> None \<or> cmc \<noteq> None"
  shows "createctconfig_main (E\<lparr>ev_rsa_GenerateKey := g, ev_ecdsa_GenerateKey := h\<rparr>) F w
     = createctconfig_main E F w"
proof -
  let ?E = "E\<lparr>ev_rsa_GenerateKey := g, ev_ecdsa_GenerateKey := h\<rparr>"
  have eqs: "read_inputs ?E = read_inputs E" "update_configuration ?E = update_configuration E"
    by (simp_all add: fun_eq_iff read_inputs_def update_configuration_def add_root_logged_def
        reconcile_job_def cong: if_cong)
  show ?thesis
    using assms by (auto simp: createctconfig_main_def io_bind.simps eqs Let_def)
qed

theorem ctlog_job_never_regenerates_witness:
  "\<exists>data. MarshalConfig ref_lib ''seed'' example_config = Ok data \<and>
     createctconfig_main (ref_env\<lparr>ev_rsa_GenerateKey := (\<lambda>_. Ok ''x''), ev_ecdsa_GenerateKey := (\<lambda>_. Ok ''y'')\<rparr>)
       ct_default_flags \<lparr>cl_store = [''ctlog-secrets'' \<mapsto> Some data], cl_faults = []\<rparr> =
     createctconfig_main ref_env
       ct_default_flags \<lparr>cl_store = [''ctlog-secrets'' \<mapsto> Some data], cl_faults = []\<rparr>"
proof -
  obtain data where m: "MarshalConfig ref_lib ''seed'' example_config = Ok data"
    using example_marshal by blast
  let ?w = "\<lparr>cl_store = [''ctlog-secrets'' \<mapsto> Some data], cl_faults = []\<rparr>"
  let ?s = "\<lparr>sec_Namespace = [], sec_Name = ''ctlog-secrets'', sec_ResourceVersion = [], sec_Data = Some data\<rparr>"
  have dom: "ConfigKey \<in> dom data" "PrivateKey \<in> dom data" "PublicKey \<in> dom data"
    using MarshalConfig_dom [OF m] by auto
  have get: "si_Get (ev_secrets ref_env) (fl_secretName ct_default_flags) ?w = ((Some ?s, None), ?w)"
    by (simp add: ref_flags mem_defs)
  show ?thesis
    using m ctlog_job_never_regenerates [OF ref_read_inputs get, of "\<lambda>_. Ok ''y''" "\<lambda>_. Ok ''x''"] dom
    by (auto simp: domIff)
qed

text \<open>
  C31. When the job creates a configuration, both secrets describe one and the same key pair and
  tree: there is a configuration with the tree id of the config map, the password, prefix and
  server of the flags and just the fetched root, whose marshalled map the secret agrees with
  on every key, and whose public key is in the public secret.
\<close>

theorem ctlog_job_creates:
  assumes "ct_job E view" and "create_steps E F treeID chain w = (Ok (), w')"
    and "fl_secretName F \<noteq> fl_pubKeySecretName F"
  shows "\<exists>c m d' p. MarshalConfig (ev_lib E) (ev_rand E) c = Ok m \<and> LogID c = treeID
     \<and> PrivKeyPassword c = fl_keyPassword F \<and> LogPrefix c = fl_ctlogPrefix F
     \<and> TrillianServerAddr c = fl_trillianServerAddr F
     \<and> FulcioCerts c = (case extractFulcioRoot (ev_lib E) chain of Ok r \<Rightarrow> [r] | _ \<Rightarrow> [])
     \<and> view w' (fl_secretName F) = Some d' \<and> (\<forall>k \<in> dom m. go_get d' k = go_get m k)
     \<and> view w' (fl_pubKeySecretName F) = Some p \<and> go_get p PublicKey = go_get d' PublicKey"
proof (rule ct_job.create_steps_OkE [OF assms(1,2)], goal_cases)
  case (1 c0 c1 m w1 w2)
  note job = ct_job.reconcile_job_view [OF assms(1)]
  have fin: "finite (dom m)" using MarshalConfig_dom [OF 1(7)] by simp
  have pk: "PublicKey \<in> dom m" using MarshalConfig_dom [OF 1(7)] by simp
  obtain d' where d': "view w2 (fl_secretName F) = Some d'" "\<forall>k \<in> dom m. go_get d' k = go_get m k"
    using job [OF 1(8) fin] by (auto split: option.splits)
  have v': "view w' (fl_secretName F) = Some d'"
    using job [OF 1(9)] d'(1) assms(3) by simp
  obtain p where "view w' (fl_pubKeySecretName F) = Some p" "go_get p PublicKey = go_get m PublicKey"
    using job [OF 1(9)] by (auto split: option.splits)
  with add_root_logged_Ok [OF 1(6)] 1(1-5,7) d' v' pk show ?thesis
    by (intro exI [of _ c1] exI [of _ m] exI [of _ d'] exI [of _ p])
       (auto simp: add_root_def split: go.splits)
qed

theorem ctlog_job_creates_witness:
  "\<exists>w'. create_steps ref_env ct_default_flags 42 (enc_strs [''R'']) \<lparr>cl_store = Map.empty, cl_faults = []\<rparr> = (Ok (), w')
     \<and> (\<exists>c m. MarshalConfig ref_lib [] c = Ok m \<and> LogID c = 42 \<and> FulcioCerts c = [enc_strs [''R'']])"
proof -
  let ?w = "\<lparr>cl_store = Map.empty, cl_faults = []\<rparr> :: cluster"
  let ?c = "key_config ''eckey'' ''pub-eckey''
      \<lparr>PrivKeyPassword := ''test'', LogID := 42, LogPrefix := ''sigstorescaffolding'',
       TrillianServerAddr := ''log-server.trillian-system.svc:80'', FulcioCerts := [enc_strs [''R'']]\<rparr>"
  obtain m where m: "MarshalConfig ref_lib [] ?c = Ok m"
    by (auto simp: MarshalConfig_def ref_lib_def marshalSecrets_def mustMarshalAny_def key_config_def)
  have fin: "finite (dom m)" using MarshalConfig_dom [OF m] by simp
  obtain w1 where r1: "reconcile_job ref_env ''ctlog-secrets'' m ?w = (Ok (), w1)"
    using calm.reconcile_live [OF sorted_order_range [OF fin], of ?w "''ctlog-secrets''" "''ctlog-system''"]
    by (auto simp: reconcile_job_def ref_env_def mem_view_def)
  have v1: "mem_view w1 ''ctlog-public-key'' = None"
    using refjob.reconcile_job_view [OF r1 fin] by (simp add: mem_view_def)
  obtain w2 where r2: "reconcile_job ref_env ''ctlog-public-key'' [PublicKey \<mapsto> go_get m PublicKey] w1 = (Ok (), w2)"
    using calm.reconcile_live [OF sorted_order_range [of "[PublicKey \<mapsto> go_get m PublicKey]"],
        of w1 "''ctlog-public-key''" "''ctlog-system''"] v1
    by (auto simp: reconcile_job_def ref_env_def)
  have keys: "createConfigWithKeys ref_env ct_default_flags (fl_keyType ct_default_flags)
      = Ok (key_config ''eckey'' ''pub-eckey'')"
    by (simp add: createConfigWithKeys_def ref_env_def ref_lib_def ct_default_flags_def supportedCurves_def)
  have root: "add_root_logged ref_env (enc_strs [''R'']) (?c\<lparr>FulcioCerts := []\<rparr>) = Ok ?c"
    by (simp add: add_root_logged_def AddFulcioRoot_def extractFulcioRoot_def ref_env_def ref_lib_def opt_go_def
        add_root_def)
  have fl: "fl_privateKeySecret ct_default_flags = []" "fl_keyPassword ct_default_flags = ''test''"
    "fl_ctlogPrefix ct_default_flags = ''sigstorescaffolding''"
    "fl_trillianServerAddr ct_default_flags = ''log-server.trillian-system.svc:80''"
    by (simp_all add: ct_default_flags_def)
  have run: "create_steps ref_env ct_default_flags 42 (enc_strs [''R'']) ?w = (Ok (), w2)"
    using keys root m r1 r2
    by (simp add: create_steps_def io_bind.simps io_ret_def io_map_out_def or_fatal_def or_panic_def fl ref_flags
        key_config_def)
  have "fl_secretName ct_default_flags \<noteq> fl_pubKeySecretName ct_default_flags" by (simp add: ref_flags)
  from ctlog_job_creates [OF refjob.ct_job_axioms run this] run show ?thesis
    by (auto simp: ref_flags extractFulcioRoot_def ref_lib_def opt_go_def)
qed

text \<open>
  A missing namespace, an unknown key type or an unknown curve stops the job with a panic
  before it reads or writes anything.
\<close>

lemma ctlog_job_rejects_flags:
  assumes "ev_NAMESPACE E = [] \<or> fl_keyType F \<notin> {''rsa'', ''ecdsa''}
     \<or> fl_curveType F \<notin> {''p256'', ''p384'', ''p521''}"
  shows "\<exists>msg. createctconfig_main E F w = (Panic msg, w)"
  using assms by (auto simp: createctconfig_main_def supportedCurves_def)

end
