(* ===== verification/CTLog_Overlap.thy ===== *)
theory CTLog_Overlap
  imports CTLog_Job
begin

text \<open>
  Two runs of createctconfig at the same time. The job looks for its secret once, when it decides
  whether to make keys, and \<open>ReconcileSecret\<close> looks again when it writes; a run of another pod may
  write in between. \<open>share\<close> gives the environment of a run in which other clients act before each
  of its requests for a secret: the world carries the actions still to come, and a trace of the
  requests with the world before and after each. Two runs overlap when their traces can be shuffled
  into one sequence of requests in which each finds the world as the one before left it.
\<close>

section \<open>Requests with others in between\<close>

record 'w shared =
  sh_world :: 'w
  sh_others :: "('w \<Rightarrow> 'w) list"
  sh_trace :: "('w \<times> 'w) list"

definition others_act :: "'w shared \<Rightarrow> 'w shared" where
  "others_act w =
     (case sh_others w of [] \<Rightarrow> w | f # fs \<Rightarrow> w\<lparr>sh_world := f (sh_world w), sh_others := fs\<rparr>)"

definition request :: "('w \<Rightarrow> 'a \<times> 'w) \<Rightarrow> 'w shared \<Rightarrow> 'a \<times> 'w shared" where
  "request m w =
     (case m (sh_world w) of (a, v) \<Rightarrow> (a, w\<lparr>sh_world := v, sh_trace := sh_trace w @ [(sh_world w, v)]\<rparr>))"

text \<open>A call that is no request for a secret: the config map and the root certificate.\<close>

definition outside :: "('w \<Rightarrow> 'a \<times> 'w) \<Rightarrow> 'w shared \<Rightarrow> 'a \<times> 'w shared" where
  "outside m w = (case m (sh_world w) of (a, v) \<Rightarrow> (a, w\<lparr>sh_world := v\<rparr>))"

definition shared_if :: "'w secret_if \<Rightarrow> 'w shared secret_if" where
  "shared_if C =
     \<lparr>si_Get = (\<lambda>n w. request (si_Get C n) (others_act w)),
      si_Create = (\<lambda>s w. request (si_Create C s) (others_act w)),
      si_Update = (\<lambda>s w. request (si_Update C s) (others_act w)),
      si_IsNotFound = si_IsNotFound C\<rparr>"

definition share ::
  "('w, 'cert, 'priv, 'pub, 'any) ct_env \<Rightarrow> ('w shared, 'cert, 'priv, 'pub, 'any) ct_env" where
  "share E =
     \<lparr>ev_NAMESPACE = ev_NAMESPACE E, ev_InClusterConfig = ev_InClusterConfig E,
      ev_NewForConfig = ev_NewForConfig E, ev_ConfigMapGet = (\<lambda>n. outside (ev_ConfigMapGet E n)),
      ev_secrets = shared_if (ev_secrets E), ev_url_Parse = ev_url_Parse E,
      ev_RootCert = (\<lambda>u. outside (ev_RootCert E u)), ev_rsa_GenerateKey = ev_rsa_GenerateKey E,
      ev_ecdsa_GenerateKey = ev_ecdsa_GenerateKey E, ev_rand = ev_rand E, ev_lib = ev_lib E,
      ev_order = ev_order E\<rparr>"

lemma share_sel [simp]:
  "ev_NAMESPACE (share E) = ev_NAMESPACE E" "ev_lib (share E) = ev_lib E" "ev_rand (share E) = ev_rand E"
  "ev_order (share E) = ev_order E" "ev_secrets (share E) = shared_if (ev_secrets E)"
  "ev_rsa_GenerateKey (share E) = ev_rsa_GenerateKey E" "ev_ecdsa_GenerateKey (share E) = ev_ecdsa_GenerateKey E"
  by (simp_all add: share_def)

text \<open>A sequence of requests, each in the world the one before left.\<close>

fun linked :: "'w \<Rightarrow> ('w \<times> 'w) list \<Rightarrow> 'w \<Rightarrow> bool" where
  "linked w [] w' \<longleftrightarrow> w = w'"
| "linked w ((a, b) # tr) w' \<longleftrightarrow> a = w \<and> linked b tr w'"

lemma linked_append: "linked u ts v \<Longrightarrow> linked v us w \<Longrightarrow> linked u (ts @ us) w"
  by (induction u ts v rule: linked.induct) auto

text \<open>
  Two runs of the job that overlap, from the world \<open>w\<close> to the world \<open>w'\<close>, and end as after
  a success.
\<close>

definition runs_overlap ::
  "('w, 'cert, 'priv, 'pub, 'any) ct_env \<Rightarrow> ('w, 'cert, 'priv, 'pub, 'any) ct_env \<Rightarrow> ct_flags \<Rightarrow> 'w \<Rightarrow> 'w \<Rightarrow> bool" where
  "runs_overlap E1 E2 F w w' \<longleftrightarrow>
     (\<exists>fs gs s1 s2 tr.
        createctconfig_main (share E1) F \<lparr>sh_world = w, sh_others = fs, sh_trace = []\<rparr> = (Exit 0, s1)
      \<and> createctconfig_main (share E2) F \<lparr>sh_world = w, sh_others = gs, sh_trace = []\<rparr> = (Exit 0, s2)
      \<and> tr \<in> shuffles (sh_trace s1) (sh_trace s2) \<and> linked w tr w')"

lemma shuffles_left: "zs \<in> shuffles xs ys \<Longrightarrow> ps @ zs \<in> shuffles (ps @ xs) ys"
  by (induction ps) (auto intro: Cons_in_shuffles_leftI)

lemma shuffles_right: "zs \<in> shuffles xs ys \<Longrightarrow> ps @ zs \<in> shuffles xs (ps @ ys)"
  by (induction ps) (auto intro: Cons_in_shuffles_rightI)

text \<open>
  A call of \<open>ReconcileSecret\<close> before which others act, and during which they do not: it makes some
  requests that are linked, and ends as the call on the world that the others left.
\<close>

lemma shared_call:
  assumes "ReconcileSecret C name ns data ks (f w) = (r, w')"
  obtains n tr where "linked (f w) tr w'"
    "\<And>rest t. ReconcileSecret (shared_if C) name ns data ks
        \<lparr>sh_world = w, sh_others = f # replicate n (\<lambda>w. w) @ rest, sh_trace = t\<rparr> =
      (r, \<lparr>sh_world = w', sh_others = rest, sh_trace = t @ tr\<rparr>)"
proof -
  obtain ex e w1 where get: "si_Get C name (f w) = ((ex, e), w1)" by (metis prod.collapse)
  have g: "si_Get (shared_if C) name \<lparr>sh_world = w, sh_others = f # fs, sh_trace = t\<rparr> =
      ((ex, e), \<lparr>sh_world = w1, sh_others = fs, sh_trace = t @ [(f w, w1)]\<rparr>)" for fs t
    by (simp add: shared_if_def request_def others_act_def get)
  have nf: "si_IsNotFound (shared_if C) = si_IsNotFound C" by (simp add: shared_if_def)
  have answer: "reconcile_answer C name ns data ks (ex, e) w1 = (r, w')"
    using assms get by (simp add: ReconcileSecret_def)
  have "(w' = w1 \<and> (\<forall>v. reconcile_answer (shared_if C) name ns data ks (ex, e) v = (r, v)))
    \<or> (\<forall>fs t. reconcile_answer (shared_if C) name ns data ks (ex, e)
          \<lparr>sh_world = w1, sh_others = (\<lambda>w. w) # fs, sh_trace = t\<rparr> =
        (r, \<lparr>sh_world = w', sh_others = fs, sh_trace = t @ [(w1, w')]\<rparr>))"
    using answer
    by (cases e; cases ex)
       (auto simp: reconcile_answer_def reconcile_existing_def reconcile_create_def nf shared_if_def request_def
         others_act_def split: prod.splits option.splits go.splits if_splits)
  then show thesis
  proof
    assume "w' = w1 \<and> (\<forall>v. reconcile_answer (shared_if C) name ns data ks (ex, e) v = (r, v))"
    then show thesis by (intro that [of "[(f w, w1)]" 0]) (simp_all add: ReconcileSecret_def g)
  next
    assume "\<forall>fs t. reconcile_answer (shared_if C) name ns data ks (ex, e)
          \<lparr>sh_world = w1, sh_others = (\<lambda>w. w) # fs, sh_trace = t\<rparr> =
        (r, \<lparr>sh_world = w', sh_others = fs, sh_trace = t @ [(w1, w')]\<rparr>)"
    then show thesis by (intro that [of "[(f w, w1), (w1, w')]" 1]) (simp_all add: ReconcileSecret_def g)
  qed
qed

lemma shared_job:
  assumes "reconcile_job E name data (f w) = (r, w')"
  obtains n tr where "linked (f w) tr w'"
    "\<And>rest t. reconcile_job (share E) name data
        \<lparr>sh_world = w, sh_others = f # replicate n (\<lambda>w. w) @ rest, sh_trace = t\<rparr> =
      (r, \<lparr>sh_world = w', sh_others = rest, sh_trace = t @ tr\<rparr>)"
proof (rule shared_call [where f = f and w = w, OF assms [unfolded reconcile_job_def]], goal_cases)
  case (1 n tr)
  show ?case by (rule that [OF 1(2), of n]) (simp add: reconcile_job_def 1(3))
qed

section \<open>A run that creates is two writes\<close>

definition create_writes ::
  "('w, 'cert, 'priv, 'pub, 'any) ct_env \<Rightarrow> ct_flags \<Rightarrow> gomap \<Rightarrow> ('w, unit) io" where
  "create_writes E F m =
     io_bind (io_map_out or_fatal (reconcile_job E (fl_secretName F) m)) (\<lambda>_.
       io_map_out (or_panic (''Failed to reconcile public key secret '' @ ev_NAMESPACE E @ ''/'' @ fl_secretName F))
         (reconcile_job E (fl_pubKeySecretName F) [PublicKey \<mapsto> go_get m PublicKey]))"

definition new_config ::
  "('w, 'cert, 'priv, 'pub, 'any) ct_env \<Rightarrow> ct_flags \<Rightarrow> int \<Rightarrow> bytes \<Rightarrow> gomap go" where
  "new_config E F treeID chain =
     go_bind (or_fatal (createConfigWithKeys E F (fl_keyType F))) (\<lambda>c0.
     go_bind (add_root_logged E chain (c0\<lparr>PrivKeyPassword := fl_keyPassword F, LogID := treeID,
         LogPrefix := fl_ctlogPrefix F, TrillianServerAddr := fl_trillianServerAddr F\<rparr>)) (\<lambda>c1.
     or_fatal (MarshalConfig (ev_lib E) (ev_rand E) c1)))"

lemma create_steps_writes:
  assumes "fl_privateKeySecret F = []" and "new_config E F treeID chain = Ok m"
  shows "create_steps E F treeID chain = create_writes E F m"
proof -
  obtain c0 c1 where "createConfigWithKeys E F (fl_keyType F) = Ok c0"
    "add_root_logged E chain (c0\<lparr>PrivKeyPassword := fl_keyPassword F, LogID := treeID,
         LogPrefix := fl_ctlogPrefix F, TrillianServerAddr := fl_trillianServerAddr F\<rparr>) = Ok c1"
    "MarshalConfig (ev_lib E) (ev_rand E) c1 = Ok m"
    using assms(2) by (auto simp: new_config_def go_bind_Ok_conv)
  with assms(1) show ?thesis
    by (simp add: create_steps_def create_writes_def io_map_out_def io_ret_def io_bind.simps or_fatal_def fun_eq_iff)
qed

lemma new_config_share: "new_config (share E) = new_config E"
  by (simp add: new_config_def createConfigWithKeys_def add_root_logged_def fun_eq_iff cong: option.case_cong if_cong)

lemma ref_lib_pem: "ref_lib\<lparr>pem_EncodeToMemory := \<lambda>b. Some (enc_block b)\<rparr> = ref_lib"
  by (simp add: ref_lib_def)

section \<open>Two pods\<close>

definition second_env :: "(cluster, bytes, bytes, bytes, PEMKeyFile) ct_env" where
  "second_env = ref_env\<lparr>ev_ecdsa_GenerateKey := (\<lambda>_. Ok ''eckey2'')\<rparr>"

definition no_secrets :: cluster where
  "no_secrets = \<lparr>cl_store = Map.empty, cl_faults = []\<rparr>"

definition fulcio_chain :: bytes where
  "fulcio_chain = enc_strs [''leaf'', ''R'']"

interpretation second: ct_job second_env mem_view
  by (rule mem_ct_job) (simp_all add: second_env_def ref_env_def)

lemma pods:
  "ev_lib second_env = ref_lib" "ev_secrets second_env = mem_if False" "ev_order second_env = sorted_order"
  "ev_ecdsa_GenerateKey second_env = (\<lambda>_. Ok ''eckey2'')"
  "ev_lib ref_env = ref_lib" "ev_secrets ref_env = mem_if False" "ev_order ref_env = sorted_order"
  "ev_ecdsa_GenerateKey ref_env = (\<lambda>_. Ok ''eckey'')"
  by (simp_all add: second_env_def ref_env_def)

definition pod_block :: "bytes \<Rightarrow> pem_block" where
  "pod_block key = \<lparr>pem_Type = ''PRIVATE KEY'', pem_Headers = [(''DEK-Info'', fl_keyPassword ct_default_flags)], pem_Bytes = key\<rparr>"

lemma pod_new_config:
  assumes E: "ev_lib E = ref_lib\<lparr>pem_EncodeToMemory := \<lambda>b. Some (txt b)\<rparr>" "ev_ecdsa_GenerateKey E = (\<lambda>_. Ok key)"
    and "key \<noteq> []"
  obtains m where "new_config E ct_default_flags 42 fulcio_chain = Ok m" "finite (dom m)"
    "m PublicKey = Some (txt (public_block (''pub-'' @ key)))" "m PrivateKey = Some (txt (pod_block key))"
proof -
  let ?L = "ref_lib\<lparr>pem_EncodeToMemory := \<lambda>b. Some (txt b)\<rparr>"
  have keys: "createConfigWithKeys E ct_default_flags (fl_keyType ct_default_flags) = Ok (key_config key (''pub-'' @ key))"
    using assms by (simp add: createConfigWithKeys_def ref_lib_def ct_default_flags_def supportedCurves_def)
  let ?c = "(key_config key (''pub-'' @ key))\<lparr>PrivKeyPassword := fl_keyPassword ct_default_flags, LogID := 42,
      LogPrefix := fl_ctlogPrefix ct_default_flags, TrillianServerAddr := fl_trillianServerAddr ct_default_flags\<rparr>"
  obtain c1 where c1: "add_root_logged E fulcio_chain ?c = Ok c1"
    by (auto simp: add_root_logged_def AddFulcioRoot_def extractFulcioRoot_def E ref_lib_def opt_go_def fulcio_chain_def)
  have k: "PrivKey c1 = key" "PrivKeyPassword c1 = fl_keyPassword ct_default_flags"
    using add_root_logged_Ok [OF c1] by (simp_all add: key_config_def)
  obtain m where m: "MarshalConfig ?L (ev_rand E) c1 = Ok m"
    using k assms(3) by (auto simp: MarshalConfig_def ref_lib_def marshalSecrets_def mustMarshalAny_def)
  from MarshalConfig_OkE [OF m] obtain mc d where d: "marshalSecrets ?L (ev_rand E) c1 = Ok d" "m = d(ConfigKey \<mapsto> mc)"
    by metis
  have "m PublicKey = Some (txt (public_block (''pub-'' @ key))) \<and> m PrivateKey = Some (txt (pod_block key))"
    using d(1) k assms(3)
    by (auto simp: d(2) marshalSecrets_def ref_lib_def nil_bytes_def add_fulcio_keys_Some_iff pod_block_def
        fulcio_key_other [THEN not_sym])
  moreover have "new_config E ct_default_flags 42 fulcio_chain = Ok m"
    using keys c1 m by (simp add: new_config_def E or_fatal_def)
  moreover have "finite (dom m)" using MarshalConfig_dom [OF m] by simp
  ultimately show thesis using that by blast
qed

text \<open>What a reader of a secret makes of the two entries.\<close>

lemma pod_keys_read:
  "UnmarshalPEMToPublicKey ref_lib (enc_block (public_block q)) = Ok q"
  "key \<noteq> [] \<Longrightarrow> DecryptExistingPrivateKey ref_lib (enc_block (pod_block key)) (fl_keyPassword ct_default_flags) = Ok (key, ''pub-'' @ key)"
  by (simp_all add: ref_lib_def opt_go_def public_block_def DecryptExistingPrivateKey_def pod_block_def)

lemma pod_reconciles:
  assumes E: "ev_secrets E = mem_if False" "ev_order E = sorted_order" and "finite (dom data)"
    and "mem_view w name \<noteq> Some Map.empty"
  obtains w' where "reconcile_job E name data w = (Ok (), w')"
    "mem_view w' = (mem_view w)(name \<mapsto> (case mem_view w name of None \<Rightarrow> data | Some m \<Rightarrow> reconciled m data))"
proof -
  obtain w' where r: "reconcile_job E name data w = (Ok (), w')"
    using calm.reconcile_live [OF sorted_order_range [OF assms(3)] assms(4), of "ev_NAMESPACE E"]
    by (auto simp: reconcile_job_def E)
  then have "ReconcileSecret (mem_if False) name (ev_NAMESPACE E) data (sorted_order data) w = (Ok (), w')"
    by (simp add: reconcile_job_def E)
  from that [OF r] faulty.reconcile_ok_view [OF this sorted_order_range [OF assms(3)]] show thesis by blast
qed

text \<open>
  A run that finds no secret, but others may have acted when it writes its configuration and
  again when it writes its public key.
\<close>

lemma overlapped_main:
  assumes E: "E = ref_env\<lparr>ev_ecdsa_GenerateKey := gen\<rparr>" and n: "new_config E ct_default_flags 42 fulcio_chain = Ok n"
    and b: "reconcile_job E ''ctlog-secrets'' n (f no_secrets) = (Ok (), wb)"
    and c: "reconcile_job E ''ctlog-public-key'' [PublicKey \<mapsto> go_get n PublicKey] (g wb) = (Ok (), w1)"
  obtains fs s tr1 tr2 where
    "createctconfig_main (share E) ct_default_flags \<lparr>sh_world = no_secrets, sh_others = fs, sh_trace = []\<rparr> = (Exit 0, s)"
    "sh_trace s = (no_secrets, no_secrets) # tr1 @ tr2" "linked (f no_secrets) tr1 wb" "linked (g wb) tr2 w1"
proof -
  let ?F = ct_default_flags
  have fl: "fl_privateKeySecret ?F = []" "fl_secretName ?F = ''ctlog-secrets''" "fl_pubKeySecretName ?F = ''ctlog-public-key''"
    by (simp_all add: ct_default_flags_def)
  obtain k1 tr1 where t1: "linked (f no_secrets) tr1 wb"
    "\<And>rest t. reconcile_job (share E) ''ctlog-secrets'' n
        \<lparr>sh_world = no_secrets, sh_others = f # replicate k1 (\<lambda>w. w) @ rest, sh_trace = t\<rparr> =
      (Ok (), \<lparr>sh_world = wb, sh_others = rest, sh_trace = t @ tr1\<rparr>)"
    by (rule shared_job [where f = f and w = no_secrets, OF b]) (rule that)
  obtain k2 tr2 where t2: "linked (g wb) tr2 w1"
    "\<And>rest t. reconcile_job (share E) ''ctlog-public-key'' [PublicKey \<mapsto> go_get n PublicKey]
        \<lparr>sh_world = wb, sh_others = g # replicate k2 (\<lambda>w. w) @ rest, sh_trace = t\<rparr> =
      (Ok (), \<lparr>sh_world = w1, sh_others = rest, sh_trace = t @ tr2\<rparr>)"
    by (rule shared_job [where f = g and w = wb, OF c]) (rule that)
  let ?fs = "f # replicate k1 (\<lambda>w. w) @ (g # replicate k2 (\<lambda>w. w) @ [])"
  let ?v = "\<lparr>sh_world = no_secrets, sh_others = ?fs, sh_trace = [(no_secrets, no_secrets)]\<rparr>"
  let ?s = "\<lparr>sh_world = w1, sh_others = [], sh_trace = ([(no_secrets, no_secrets)] @ tr1) @ tr2\<rparr>"
  have "create_steps (share E) ?F 42 fulcio_chain = create_writes (share E) ?F n"
    by (rule create_steps_writes) (simp_all add: fl n new_config_share)
  then have writes: "create_steps (share E) ?F 42 fulcio_chain ?v = (Ok (), ?s)"
    using t1(2) [of "g # replicate k2 (\<lambda>w. w) @ []" "[(no_secrets, no_secrets)]"] t2(2) [of "[]" "[(no_secrets, no_secrets)] @ tr1"]
    by (simp add: create_writes_def fl io_bind.simps io_map_out_def or_fatal_def or_panic_def)
  have inputs: "read_inputs (share E) ?F v = (Ok (42, fulcio_chain, None), v)" for v
    by (simp add: E read_inputs_def io_bind.simps io_ret_def io_map_out_def or_panic_def share_def outside_def ref_env_def
        ParseInt_42 fulcio_chain_def)
  have get: "si_Get (shared_if (mem_if False)) ''ctlog-secrets''
        \<lparr>sh_world = no_secrets, sh_others = (\<lambda>w. w) # ?fs, sh_trace = []\<rparr> =
      ((Some \<lparr>sec_Namespace = [], sec_Name = [], sec_ResourceVersion = [], sec_Data = None\<rparr>, Some (NewErr ''not found'')), ?v)"
    by (simp add: shared_if_def request_def others_act_def mem_defs no_secrets_def)
  have nf: "si_IsNotFound (shared_if (mem_if False)) (NewErr ''not found'')" by (simp add: shared_if_def mem_if_def)
  have env: "ev_NAMESPACE E = ev_NAMESPACE ref_env" "ev_secrets E = ev_secrets ref_env" by (simp_all add: E)
  have "createctconfig_main (share E) ?F \<lparr>sh_world = no_secrets, sh_others = (\<lambda>w. w) # ?fs, sh_trace = []\<rparr> = (Exit 0, ?s)"
    using writes inputs get nf ref_flags
    by (simp add: createctconfig_main_def io_bind.simps create_configuration_def io_ret_def env)
  then show thesis by (rule that [OF _ _ t1(1) t2(1)]) simp
qed

lemma pod_envs: "ref_env = ref_env\<lparr>ev_ecdsa_GenerateKey := (\<lambda>_. Ok ''eckey'')\<rparr>"
  "second_env = ref_env\<lparr>ev_ecdsa_GenerateKey := (\<lambda>_. Ok ''eckey2'')\<rparr>"
  by (simp_all add: second_env_def ref_env_def)

section \<open>Properties\<close>

text \<open>
  C5. Two runs of createctconfig that overlap can leave a log whose published key is not its own.
  In a cluster without the secrets two runs of \<open>main\<close>, of pods that generate different keys, make
  their requests interleaved, and both end as after a success; the secret of the log holds the key
  pair of the first run, its private key and its public key, and the public key secret holds the
  public key of the second. Both look for the secret when there is none and both make keys. The
  second writes its configuration; the first finds it, takes it for an outdated one and writes its
  own keys over it, then its public key; the second writes its public key last.
\<close>

theorem ctlog_overlap_splits_keys:
  "\<exists>w' d p priv.
     ev_ecdsa_GenerateKey ref_env = (\<lambda>_. Ok ''eckey'') \<and> ev_ecdsa_GenerateKey second_env = (\<lambda>_. Ok ''eckey2'')
   \<and> runs_overlap ref_env second_env ct_default_flags no_secrets w'
   \<and> mem_view w' ''ctlog-secrets'' = Some d \<and> mem_view w' ''ctlog-public-key'' = Some p
   \<and> d PrivateKey = Some priv
   \<and> DecryptExistingPrivateKey ref_lib priv (fl_keyPassword ct_default_flags) = Ok (''eckey'', ''pub-eckey'')
   \<and> UnmarshalPEMToPublicKey ref_lib (go_get d PublicKey) = Ok ''pub-eckey''
   \<and> UnmarshalPEMToPublicKey ref_lib (go_get p PublicKey) = Ok ''pub-eckey2''"
proof -
  let ?F = ct_default_flags
  obtain m where m: "new_config second_env ?F 42 fulcio_chain = Ok m" "finite (dom m)"
    "m PublicKey = Some (enc_block (public_block ''pub-eckey2''))" "m PrivateKey = Some (enc_block (pod_block ''eckey2''))"
    by (rule pod_new_config [of second_env enc_block "''eckey2''"]) (simp_all add: pods ref_lib_pem that)
  obtain n where n: "new_config ref_env ?F 42 fulcio_chain = Ok n" "finite (dom n)"
    "n PublicKey = Some (enc_block (public_block ''pub-eckey''))" "n PrivateKey = Some (enc_block (pod_block ''eckey''))"
    by (rule pod_new_config [of ref_env enc_block "''eckey''"]) (simp_all add: pods ref_lib_pem that)
  have v0: "mem_view no_secrets = Map.empty" by (simp add: mem_view_def no_secrets_def fun_eq_iff)
  have pk: "PublicKey \<in> dom m" "PublicKey \<in> dom n" "PrivateKey \<in> dom n" using m(3) n(3,4) by auto
  obtain wa where a: "reconcile_job second_env ''ctlog-secrets'' m no_secrets = (Ok (), wa)"
    "mem_view wa ''ctlog-secrets'' = Some m" "mem_view wa ''ctlog-public-key'' = None"
    by (rule pod_reconciles [of second_env m no_secrets "''ctlog-secrets''"]) (simp_all add: m(2) v0 pods that)
  have ne: "m \<noteq> Map.empty" using pk by auto
  obtain wb where b: "reconcile_job ref_env ''ctlog-secrets'' n wa = (Ok (), wb)"
    "mem_view wb ''ctlog-secrets'' = Some (reconciled m n)" "mem_view wb ''ctlog-public-key'' = None"
    by (rule pod_reconciles [of ref_env n wa "''ctlog-secrets''"]) (simp_all add: n(2) a ne pods that)
  obtain w1 where c: "reconcile_job ref_env ''ctlog-public-key'' [PublicKey \<mapsto> go_get n PublicKey] wb = (Ok (), w1)"
    "mem_view w1 ''ctlog-secrets'' = Some (reconciled m n)"
    "mem_view w1 ''ctlog-public-key'' = Some [PublicKey \<mapsto> go_get n PublicKey]"
    by (rule pod_reconciles [of ref_env "[PublicKey \<mapsto> go_get n PublicKey]" wb "''ctlog-public-key''"])
       (simp_all add: b pods that)
  obtain w2 where e: "reconcile_job second_env ''ctlog-public-key'' [PublicKey \<mapsto> go_get m PublicKey] w1 = (Ok (), w2)"
    "mem_view w2 ''ctlog-secrets'' = Some (reconciled m n)"
    "mem_view w2 ''ctlog-public-key'' = Some (reconciled [PublicKey \<mapsto> go_get n PublicKey] [PublicKey \<mapsto> go_get m PublicKey])"
    by (rule pod_reconciles [of second_env "[PublicKey \<mapsto> go_get m PublicKey]" w1 "''ctlog-public-key''"])
       (simp_all add: c pods that)
  obtain fs s1 ta tb where first:
    "createctconfig_main (share ref_env) ?F \<lparr>sh_world = no_secrets, sh_others = fs, sh_trace = []\<rparr> = (Exit 0, s1)"
    "sh_trace s1 = (no_secrets, no_secrets) # ta @ tb" "linked wa ta wb" "linked wb tb w1"
    by (rule overlapped_main [OF pod_envs(1) n(1), of "\<lambda>_. wa" wb "\<lambda>w. w" w1]) (simp_all add: b(1) c(1) that)
  obtain gs s2 tc td where second:
    "createctconfig_main (share second_env) ?F \<lparr>sh_world = no_secrets, sh_others = gs, sh_trace = []\<rparr> = (Exit 0, s2)"
    "sh_trace s2 = (no_secrets, no_secrets) # tc @ td" "linked no_secrets tc wa" "linked w1 td w2"
    by (rule overlapped_main [OF pod_envs(2) m(1), of "\<lambda>w. w" wa "\<lambda>_. w1" w2]) (simp_all add: a(1) e(1) that)
  let ?tr = "[(no_secrets, no_secrets)] @ ([(no_secrets, no_secrets)] @ tc) @ (ta @ tb) @ td"
  have "(ta @ tb) @ td \<in> shuffles (ta @ tb) td" using shuffles_left [of td "[]" td "ta @ tb"] by simp
  from shuffles_left [OF shuffles_right [OF this, of "[(no_secrets, no_secrets)] @ tc"], of "[(no_secrets, no_secrets)]"]
  have "?tr \<in> shuffles (sh_trace s1) (sh_trace s2)" by (simp add: first(2) second(2))
  moreover have "linked no_secrets ?tr w2"
    using linked_append [OF second(3) linked_append [OF linked_append [OF first(3,4)] second(4)]] by simp
  ultimately have "runs_overlap ref_env second_env ?F no_secrets w2"
    unfolding runs_overlap_def using first(1) second(1) by blast
  moreover have "reconciled m n PrivateKey = Some (enc_block (pod_block ''eckey''))"
    "go_get (reconciled m n) PublicKey = enc_block (public_block ''pub-eckey'')"
    "go_get (reconciled [PublicKey \<mapsto> go_get n PublicKey] [PublicKey \<mapsto> go_get m PublicKey]) PublicKey =
       enc_block (public_block ''pub-eckey2'')"
    using m(3,4) n(3,4) by (auto simp: reconciled_def go_get_def)
  ultimately show ?thesis
    using e(2,3) pods(4,8) pod_keys_read(1) pod_keys_read(2) [of "''eckey''"] by auto
qed

end
