(* ===== verification/Kube_Overlap.thy ===== *)
theory Kube_Overlap
  imports Kube_Secret
begin

text \<open>
  Calls of \<open>ReconcileSecret\<close> that overlap in time. A cluster may start a job twice, and several
  jobs write at once, so between the read and the write of one call others may read and write. A
  step of the relation \<open>overlap_step\<close> is one request of one of the calls, or a read by anyone. What keeps the calls
  apart is the resource version: the object the code writes is the one it has read, and the
  server refuses a write with a version that is not the current one. The locale \<open>versioned_api\<close>
  states this, \<open>past w n v\<close> being the contents the secret \<open>n\<close> had at its version \<open>v\<close>. The theorem
  is that overlapping calls have the effect of calls made one after the other.
\<close>

section \<open>Steps\<close>

record reconciler =
  rc_name :: string
  rc_ns :: string
  rc_data :: gomap
  rc_order :: "string list"

datatype progress =
    Start
  | Answered "secret option \<times> goerr option"
  | Finished "unit go"

inductive overlap_step ::
  "'w secret_if \<Rightarrow> ('i \<Rightarrow> reconciler) \<Rightarrow> 'w \<times> ('i \<Rightarrow> progress) \<Rightarrow> 'w \<times> ('i \<Rightarrow> progress) \<Rightarrow> bool"
  for C rc where
  first_request: "st i = Start \<Longrightarrow> si_Get C (rc_name (rc i)) w = (a, w') \<Longrightarrow>
     overlap_step C rc (w, st) (w', st(i := Answered a))"
| second_request: "st i = Answered a \<Longrightarrow>
     reconcile_answer C (rc_name (rc i)) (rc_ns (rc i)) (rc_data (rc i)) (rc_order (rc i)) a w = (r, w') \<Longrightarrow>
     overlap_step C rc (w, st) (w', st(i := Finished r))"
| other_read: "si_Get C n w = (a, w') \<Longrightarrow> overlap_step C rc (w, st) (w', st)"

inductive_cases overlap_stepE: "overlap_step C rc (w, st) c"

definition overlapped ::
  "'w secret_if \<Rightarrow> ('i \<Rightarrow> reconciler) \<Rightarrow> 'w \<Rightarrow> 'w \<Rightarrow> ('i \<Rightarrow> progress) \<Rightarrow> bool" where
  "overlapped C rc w w' st \<longleftrightarrow> (overlap_step C rc)\<^sup>*\<^sup>* (w, \<lambda>_. Start) (w', st)"

text \<open>A call alone is its two steps.\<close>

lemma ReconcileSecret_steps:
  assumes "ReconcileSecret C (rc_name (rc i)) (rc_ns (rc i)) (rc_data (rc i)) (rc_order (rc i)) w = (r, w')"
    and "st i = Start"
  shows "(overlap_step C rc)\<^sup>*\<^sup>* (w, st) (w', st(i := Finished r))"
proof -
  obtain a w1 where get: "si_Get C (rc_name (rc i)) w = (a, w1)" by (metis prod.collapse)
  have "overlap_step C rc (w, st) (w1, st(i := Answered a))" using assms(2) get by (rule first_request)
  moreover have "overlap_step C rc (w1, st(i := Answered a)) (w', (st(i := Answered a))(i := Finished r))"
    using assms(1) get by (intro second_request [of _ i a]) (simp_all add: ReconcileSecret_def)
  ultimately show ?thesis by (simp add: rtranclp.rtrancl_into_rtrancl)
qed

section \<open>Calls one after the other\<close>

text \<open>The effect of a call that succeeds and is not disturbed, on what the server holds.\<close>

definition atomically :: "reconciler \<Rightarrow> (string \<Rightarrow> gomap option) \<Rightarrow> string \<Rightarrow> gomap option" where
  "atomically c v = v(rc_name c \<mapsto> merged (v (rc_name c)) (rc_data c))"

definition serially :: "('i \<Rightarrow> reconciler) \<Rightarrow> 'i list \<Rightarrow> (string \<Rightarrow> gomap option) \<Rightarrow> string \<Rightarrow> gomap option" where
  "serially rc is = fold (\<lambda>i. atomically (rc i)) is"

lemma serially_simps [simp]:
  "serially rc [] v = v" "serially rc (is @ [i]) v = atomically (rc i) (serially rc is v)"
  by (simp_all add: serially_def)

text \<open>Two calls agree if they do not want different values for one key of one secret.\<close>

definition agree :: "reconciler \<Rightarrow> reconciler \<Rightarrow> bool" where
  "agree c c' \<longleftrightarrow> rc_name c = rc_name c' \<longrightarrow>
     (\<forall>k \<in> dom (rc_data c) \<inter> dom (rc_data c'). go_get (rc_data c) k = go_get (rc_data c') k)"

definition holds :: "reconciler \<Rightarrow> (string \<Rightarrow> gomap option) \<Rightarrow> bool" where
  "holds c v \<longleftrightarrow> (\<exists>d. v (rc_name c) = Some d \<and> (\<forall>k \<in> dom (rc_data c). go_get d k = go_get (rc_data c) k))"

lemma go_get_merged:
  "go_get (merged old data) k = (if k \<in> dom data then go_get data k else go_get (nil_map old) k)"
proof (cases old)
  case None
  then show ?thesis by (cases "data k") (simp_all add: merged_def go_get_def domIff)
qed (simp add: merged_def)

lemma atomically_holds: "holds c (atomically c v)"
  by (auto simp: holds_def atomically_def go_get_merged)

lemma atomically_keeps: "holds c v \<Longrightarrow> agree c c' \<Longrightarrow> holds c (atomically c' v)"
proof (cases "rc_name c = rc_name c'")
  case True
  assume h: "holds c v" and a: "agree c c'"
  from h obtain d where d: "v (rc_name c) = Some d" "\<forall>k \<in> dom (rc_data c). go_get d k = go_get (rc_data c) k"
    by (auto simp: holds_def)
  have "go_get (merged (Some d) (rc_data c')) k = go_get (rc_data c) k" if k: "k \<in> dom (rc_data c)" for k
    using k d(2) a True unfolding go_get_merged agree_def by (metis IntI nil_map_simps(2))
  with d(1) True show ?thesis by (auto simp: holds_def atomically_def)
qed (auto simp: holds_def atomically_def)

lemma serially_holds:
  assumes "i \<in> set is" and "\<forall>j \<in> set is. agree (rc i) (rc j)"
  shows "holds (rc i) (serially rc is v)"
  using assms
proof (induction "is" rule: rev_induct)
  case (snoc j js)
  then show ?case by (cases "i = j") (auto simp: atomically_holds atomically_keeps)
qed simp

section \<open>The contract of the versions\<close>

text \<open>What is known at any later time of an answer to the first request, and when no second one follows.\<close>

definition snapshot ::
  "('w \<Rightarrow> string \<Rightarrow> string \<Rightarrow> gomap option) \<Rightarrow> string \<Rightarrow> secret option \<times> goerr option \<Rightarrow> 'w \<Rightarrow> bool" where
  "snapshot past n a w \<longleftrightarrow> a \<noteq> (None, None) \<and> (\<forall>s. a = (Some s, None) \<longrightarrow>
     sec_Name s = n \<and> sec_ResourceVersion s \<noteq> [] \<and> past w n (sec_ResourceVersion s) = Some (nil_map (sec_Data s)))"

definition quiet :: "gomap \<Rightarrow> secret option \<times> goerr option \<Rightarrow> bool" where
  "quiet data a \<longleftrightarrow> (\<exists>s. a = (Some s, None) \<and> \<not> differs (nil_map (sec_Data s)) data)"

locale versioned_api = secret_api_total C view
  for C :: "'w secret_if" and view :: "'w \<Rightarrow> string \<Rightarrow> gomap option" +
  fixes past :: "'w \<Rightarrow> string \<Rightarrow> string \<Rightarrow> gomap option"
  assumes get_version: "si_Get C n w = ((Some s, None), w') \<Longrightarrow>
      sec_ResourceVersion s \<noteq> [] \<and> past w' n (sec_ResourceVersion s) = Some (nil_map (sec_Data s))"
    and past_get: "si_Get C n w = (r, w') \<Longrightarrow> past w m v = Some d \<Longrightarrow> past w' m v = Some d"
    and past_create: "si_Create C s w = (e, w') \<Longrightarrow> past w m v = Some d \<Longrightarrow> past w' m v = Some d"
    and past_update: "si_Update C s w = (e, w') \<Longrightarrow> past w m v = Some d \<Longrightarrow> past w' m v = Some d"
    and create_absent: "si_Create C s w = (e, w') \<Longrightarrow> e = None \<or> view w' \<noteq> view w \<Longrightarrow> view w (sec_Name s) = None"
    and update_current: "si_Update C s w = (e, w') \<Longrightarrow> e = None \<or> view w' \<noteq> view w \<Longrightarrow>
      sec_ResourceVersion s \<noteq> [] \<Longrightarrow> past w (sec_Name s) (sec_ResourceVersion s) = view w (sec_Name s)"
begin

lemma snapshot_get:
  assumes "si_Get C n w = (a, w')"
  shows "snapshot past n a w'"
proof (cases a)
  case (Pair ex err)
  with assms get_ok [of n w ex w'] get_version [of n w _ w'] show ?thesis
    by (cases err) (auto simp: snapshot_def)
qed

lemma get_quiet:
  assumes "si_Get C n w = (a, w')" and "quiet data a"
  shows "merged (view w n) data = the (view w n)" "view w n \<noteq> None"
  using assms get_ok [of n w _ w'] by (auto simp: quiet_def merged_def reconciled_id)

lemma past_answer:
  assumes "reconcile_answer C name ns data ks a w = (r, w')" and "past w m v = Some d"
  shows "past w' m v = Some d"
  using assms
  by (auto simp: reconcile_answer_def reconcile_existing_def reconcile_create_def
      split: prod.splits option.splits go.splits if_splits intro: past_create past_update)

lemma snapshot_mono:
  assumes "snapshot past n a w" and "\<And>m v d. past w m v = Some d \<Longrightarrow> past w' m v = Some d"
  shows "snapshot past n a w'"
  using assms by (auto simp: snapshot_def)

text \<open>The second request, made at any later time, acts on what the server holds then.\<close>

lemma answer_effect:
  assumes run: "reconcile_answer C name ns data ks a w = (r, w')" and snap: "snapshot past name a w"
    and ks: "range_order data ks"
  shows "if quiet data a then r = Ok () \<and> w' = w
    else view w' = (view w)(name \<mapsto> merged (view w name) data) \<or> view w' = view w \<and> r \<noteq> Ok ()"
proof (cases "\<exists>s. a = (Some s, None)")
  case True
  then obtain s where a: "a = (Some s, None)" by blast
  from snap a have s: "sec_Name s = name" "sec_ResourceVersion s \<noteq> []"
    "past w name (sec_ResourceVersion s) = Some (nil_map (sec_Data s))" by (auto simp: snapshot_def)
  let ?s = "s\<lparr>sec_Data := map_option (\<lambda>m. reconciled m data) (sec_Data s)\<rparr>"
  obtain e w2 where up: "si_Update C ?s w = (e, w2)" by (metis prod.collapse)
  have run': "(r, w') = (if sec_Data s = None \<and> differs Map.empty data then (Panic ''assignment to entry in nil map'', w)
      else if differs (nil_map (sec_Data s)) data
      then (case e of None \<Rightarrow> (Ok (), w2)
            | Some e \<Rightarrow> (Fail (Wrap (''failed to update secret '' @ ns @ ''/'' @ name) e), w2))
      else (Ok (), w))"
    using run [symmetric] up reconcile_fields_eq [OF ks, of "sec_Data s"]
    by (simp add: a reconcile_answer_def reconcile_existing_def split: option.splits)
  have effect: "view w2 = (view w)(name \<mapsto> merged (view w name) data)"
    if written: "e = None \<or> view w2 \<noteq> view w" and m: "sec_Data s = Some m" for m
  proof -
    have "view w name = Some m" using update_current [OF up written] s m by simp
    moreover have "view w2 = (view w)(name \<mapsto> reconciled m data)"
      using written update_any [OF up] update_ok [of ?s w w2] up s(1) m by (cases e) auto
    ultimately show ?thesis by (simp add: merged_def)
  qed
  show ?thesis
  proof (cases "sec_Data s")
    case None
    with run' show ?thesis by (auto simp: a quiet_def split: if_splits)
  next
    case (Some m)
    with run' effect [OF _ Some] show ?thesis by (cases e) (auto simp: a quiet_def split: if_splits)
  qed
next
  case False
  obtain e w2 where cr: "si_Create C \<lparr>sec_Namespace = ns, sec_Name = name, sec_ResourceVersion = [], sec_Data = Some data\<rparr> w = (e, w2)"
    by (metis prod.collapse)
  from False snap obtain ex err where a: "a = (ex, Some err)"
    by (cases a; cases "snd a"; cases "fst a") (auto simp: snapshot_def)
  have "view w2 = (view w)(name \<mapsto> merged (view w name) data)" if "e = None \<or> view w2 \<noteq> view w"
    using create_absent [OF cr that] create_any [OF cr] create_ok [of _ w w2] cr that
    by (cases e) (auto simp: merged_def)
  with run cr show ?thesis
    by (cases e) (auto simp: a quiet_def reconcile_answer_def reconcile_create_def split: if_splits)
qed

end

section \<open>Overlapping calls act as calls in some order\<close>

definition serial ::
  "('i \<Rightarrow> reconciler) \<Rightarrow> ('w \<Rightarrow> string \<Rightarrow> gomap option) \<Rightarrow> ('w \<Rightarrow> string \<Rightarrow> string \<Rightarrow> gomap option) \<Rightarrow> 'w
    \<Rightarrow> 'i list \<Rightarrow> 'w \<Rightarrow> ('i \<Rightarrow> progress) \<Rightarrow> bool" where
  "serial rc view past w0 is w st \<longleftrightarrow>
     distinct is \<and> view w = serially rc is (view w0) \<and> (\<forall>i \<in> set is. st i \<noteq> Start)
   \<and> (\<forall>i a. st i = Answered a \<longrightarrow>
        snapshot past (rc_name (rc i)) a w \<and> (i \<in> set is \<longleftrightarrow> quiet (rc_data (rc i)) a))
   \<and> (\<forall>i. st i = Finished (Ok ()) \<longrightarrow> i \<in> set is)"

lemma serial_answered:
  assumes "serial rc view past w0 is w st" and "st i = Answered a"
  shows "snapshot past (rc_name (rc i)) a w" "i \<in> set is \<longleftrightarrow> quiet (rc_data (rc i)) a"
  using assms unfolding serial_def by blast+

lemma serial_upd:
  assumes "serial rc view past w0 is w st" and "distinct is'" and "view w' = serially rc is' (view w0)"
    and "set is' \<subseteq> insert i (set is)" and "\<And>j. j \<noteq> i \<Longrightarrow> j \<in> set is \<longleftrightarrow> j \<in> set is'" and "p \<noteq> Start"
    and "\<And>j b. j \<noteq> i \<Longrightarrow> st j = Answered b \<Longrightarrow> snapshot past (rc_name (rc j)) b w'"
    and "\<And>a. p = Answered a \<Longrightarrow> snapshot past (rc_name (rc i)) a w' \<and> (i \<in> set is' \<longleftrightarrow> quiet (rc_data (rc i)) a)"
    and "p = Finished (Ok ()) \<Longrightarrow> i \<in> set is'"
  shows "serial rc view past w0 is' w' (st(i := p))"
  unfolding serial_def
proof (intro conjI allI impI ballI)
  fix j assume "j \<in> set is'"
  with assms(1,4,6) show "(st(i := p)) j \<noteq> Start" by (cases "j = i") (auto simp: serial_def)
next
  fix j b assume b: "(st(i := p)) j = Answered b"
  have "snapshot past (rc_name (rc j)) b w' \<and> (j \<in> set is' \<longleftrightarrow> quiet (rc_data (rc j)) b)"
  proof (cases "j = i")
    case True
    with b assms(8) [of b] show ?thesis by simp
  next
    case False
    with b have "st j = Answered b" by simp
    with False assms(5) [of j] assms(7) serial_answered(2) [OF assms(1)] show ?thesis by blast
  qed
  then show "snapshot past (rc_name (rc j)) b w'" "j \<in> set is' \<longleftrightarrow> quiet (rc_data (rc j)) b" by blast+
next
  fix j assume "(st(i := p)) j = Finished (Ok ())"
  with assms(1,5,9) show "j \<in> set is'" by (cases "j = i") (auto simp: serial_def)
qed (fact assms)+

context versioned_api
begin

lemma serial_first:
  assumes inv: "serial rc view past w0 is w st" and i: "st i = Start"
    and get: "si_Get C (rc_name (rc i)) w = (a, w')"
  shows "serial rc view past w0 (if quiet (rc_data (rc i)) a then is @ [i] else is) w' (st(i := Answered a))"
proof (rule serial_upd [OF inv])
  have new: "i \<notin> set is" and d: "distinct is" and v: "view w' = serially rc is (view w0)"
    using inv i get_view [OF get] by (auto simp: serial_def)
  have "atomically (rc i) (view w) = view w" if "quiet (rc_data (rc i)) a"
    using get_quiet [OF get that] by (auto simp: atomically_def fun_eq_iff)
  with v get_view [OF get]
  show "view w' = serially rc (if quiet (rc_data (rc i)) a then is @ [i] else is) (view w0)" by auto
  show "distinct (if quiet (rc_data (rc i)) a then is @ [i] else is)" using new d by auto
  show "snapshot past (rc_name (rc i)) b w'
      \<and> (i \<in> set (if quiet (rc_data (rc i)) a then is @ [i] else is) \<longleftrightarrow> quiet (rc_data (rc i)) b)"
    if "Answered a = Answered b" for b
    using new snapshot_get [OF get] that by simp
  show "snapshot past (rc_name (rc j)) b w'" if "st j = Answered b" for j b
    by (rule snapshot_mono [OF serial_answered(1) [OF inv that] past_get [OF get]])
qed auto

lemma serial_second:
  assumes inv: "serial rc view past w0 is w st" and i: "st i = Answered a"
    and ks: "range_order (rc_data (rc i)) (rc_order (rc i))"
    and run: "reconcile_answer C (rc_name (rc i)) (rc_ns (rc i)) (rc_data (rc i)) (rc_order (rc i)) a w = (r, w')"
  shows "\<exists>is'. serial rc view past w0 is' w' (st(i := Finished r))"
proof -
  note snap = serial_answered [OF inv i]
  have others: "snapshot past (rc_name (rc j)) b w'" if "st j = Answered b" for j b
    by (rule snapshot_mono [OF serial_answered(1) [OF inv that] past_answer [OF run]])
  have d: "distinct is" and v: "view w = serially rc is (view w0)" using inv by (auto simp: serial_def)
  consider (same) "view w' = view w" "r = Ok () \<longrightarrow> i \<in> set is"
    | (put) "view w' = atomically (rc i) (view w)" "i \<notin> set is"
    using answer_effect [OF run snap(1) ks] snap(2) by (auto simp: atomically_def split: if_splits)
  then show ?thesis
  proof cases
    case same
    with d v others have "serial rc view past w0 is w' (st(i := Finished r))" by (intro serial_upd [OF inv]) auto
    then show ?thesis ..
  next
    case put
    with d v others have "serial rc view past w0 (is @ [i]) w' (st(i := Finished r))" by (intro serial_upd [OF inv]) auto
    then show ?thesis ..
  qed
qed

lemma serial_read:
  assumes inv: "serial rc view past w0 is w st" and get: "si_Get C n w = (a, w')"
  shows "serial rc view past w0 is w' st"
proof -
  have "snapshot past (rc_name (rc j)) b w'" if "st j = Answered b" for j b
    by (rule snapshot_mono [OF serial_answered(1) [OF inv that] past_get [OF get]])
  with inv get_view [OF get] show ?thesis unfolding serial_def by metis
qed

lemma overlapped_serial:
  assumes "overlapped C rc w0 w st" and "\<And>i. range_order (rc_data (rc i)) (rc_order (rc i))"
  shows "\<exists>is. serial rc view past w0 is w st"
  using assms(1) unfolding overlapped_def
proof (induction "(w, st)" arbitrary: w st rule: rtranclp_induct)
  case base
  then show ?case by (auto simp: serial_def intro!: exI [of _ "[]"])
next
  case (step c)
  obtain w1 st1 where c: "c = (w1, st1)" by (cases c)
  from step(3) [OF c] obtain "is" where inv: "serial rc view past w0 is w1 st1" by blast
  from step(2) [unfolded c] show ?case
  proof (rule overlap_stepE, goal_cases)
    case (1 i a w')
    with serial_first [OF inv, of i a w'] show ?case by blast
  next
    case (2 i a r w')
    with serial_second [OF inv _ assms(2), of i a r w'] show ?case by blast
  next
    case (3 n a w')
    with serial_read [OF inv, of n a w'] show ?case by blast
  qed
qed

end

section \<open>A server with versions\<close>

text \<open>
  An instance of the contract: the log of the writes, newest first. The version of a secret is the
  number of the write that made it. A request is answered, refused, or carried out without the
  answer reaching the client.
\<close>

datatype reply = Reply | Refuse goerr | Lose goerr

record etcd =
  et_log :: "(string \<times> gomap option) list"
  et_replies :: "reply list"

fun latest :: "(string \<times> gomap option) list \<Rightarrow> string \<Rightarrow> (nat \<times> gomap option) option" where
  "latest [] n = None"
| "latest ((m, d) # es) n = (if m = n then Some (length es, d) else latest es n)"

fun contents_at :: "(string \<times> gomap option) list \<Rightarrow> string \<Rightarrow> string \<Rightarrow> gomap option" where
  "contents_at [] n v = None"
| "contents_at ((m, d) # es) n v =
     (if m = n \<and> v = itoa (length es) then Some (nil_map d) else contents_at es n v)"

definition next_reply :: "etcd \<Rightarrow> reply \<times> etcd" where
  "next_reply w = (case et_replies w of [] \<Rightarrow> (Reply, w) | a # as \<Rightarrow> (a, w\<lparr>et_replies := as\<rparr>))"

definition et_get :: "string \<Rightarrow> etcd \<Rightarrow> (secret option \<times> goerr option) \<times> etcd" where
  "et_get n w =
     (case next_reply w of
        (Reply, w') \<Rightarrow>
          (case latest (et_log w') n of
             None \<Rightarrow> ((Some \<lparr>sec_Namespace = [], sec_Name = [], sec_ResourceVersion = [], sec_Data = None\<rparr>,
                        Some (NewErr ''not found'')), w')
           | Some (v, d) \<Rightarrow> ((Some \<lparr>sec_Namespace = [], sec_Name = n, sec_ResourceVersion = itoa v, sec_Data = d\<rparr>, None), w'))
      | (Refuse e, w') \<Rightarrow> ((None, Some (Wrap ''server'' e)), w')
      | (Lose e, w') \<Rightarrow> ((None, Some (Wrap ''server'' e)), w'))"

definition et_put :: "(secret \<Rightarrow> (nat \<times> gomap option) option \<Rightarrow> bool) \<Rightarrow> secret \<Rightarrow> etcd \<Rightarrow> goerr option \<times> etcd" where
  "et_put allowed s w =
     (case next_reply w of
        (Refuse e, w') \<Rightarrow> (Some (Wrap ''server'' e), w')
      | (a, w') \<Rightarrow>
          (if allowed s (latest (et_log w') (sec_Name s))
           then ((case a of Lose e \<Rightarrow> Some (Wrap ''server'' e) | _ \<Rightarrow> None),
                 w'\<lparr>et_log := (sec_Name s, sec_Data s) # et_log w'\<rparr>)
           else (Some (Wrap ''server'' (NewErr ''conflict'')), w')))"

definition may_create :: "secret \<Rightarrow> (nat \<times> gomap option) option \<Rightarrow> bool" where
  "may_create s old \<longleftrightarrow> old = None"

definition may_update :: "secret \<Rightarrow> (nat \<times> gomap option) option \<Rightarrow> bool" where
  "may_update s old \<longleftrightarrow>
     (case old of None \<Rightarrow> False | Some (v, d) \<Rightarrow> sec_ResourceVersion s = [] \<or> sec_ResourceVersion s = itoa v)"

definition etcd_if :: "etcd secret_if" where
  "etcd_if =
     \<lparr>si_Get = et_get, si_Create = et_put may_create, si_Update = et_put may_update,
      si_IsNotFound = (\<lambda>e. e = NewErr ''not found'')\<rparr>"

definition et_view :: "etcd \<Rightarrow> string \<Rightarrow> gomap option" where
  "et_view w n = map_option (\<lambda>(v, d). nil_map d) (latest (et_log w) n)"

definition et_past :: "etcd \<Rightarrow> string \<Rightarrow> string \<Rightarrow> gomap option" where
  "et_past w = contents_at (et_log w)"

lemma contents_at_version: "contents_at es n v = Some d \<Longrightarrow> \<exists>j < length es. v = itoa j"
  by (induction es n v rule: contents_at.induct) (auto split: if_splits intro: less_SucI)

lemma contents_at_Cons: "contents_at es n v = Some d \<Longrightarrow> contents_at (e # es) n v = Some d"
  using contents_at_version [of es n v d] by (cases e) auto

lemma contents_at_latest: "latest es n = Some (v, d) \<Longrightarrow> contents_at es n (itoa v) = Some (nil_map d)"
  by (induction es n rule: latest.induct) (auto split: if_splits)

lemma next_reply_log: "next_reply w = (a, w') \<Longrightarrow> et_log w' = et_log w"
  by (auto simp: next_reply_def split: list.splits)

lemma et_put_cases:
  assumes "et_put allowed s w = (e, w')"
  obtains (same) "et_log w' = et_log w" "e \<noteq> None"
  | (put) "allowed s (latest (et_log w) (sec_Name s))" "et_log w' = (sec_Name s, sec_Data s) # et_log w"
  using assms by (auto simp: et_put_def split: prod.splits reply.splits if_splits dest: next_reply_log)

lemma et_get_log: "et_get n w = (r, w') \<Longrightarrow> et_log w' = et_log w"
  by (auto simp: et_get_def split: prod.splits reply.splits option.splits dest: next_reply_log)

lemma et_view_put [simp]:
  "et_log w' = (n, d) # et_log w \<Longrightarrow> et_view w' = (et_view w)(n \<mapsto> nil_map d)"
  by (auto simp: et_view_def fun_eq_iff)

lemma et_past_put: "et_log w' = e # et_log w \<Longrightarrow> et_past w m v = Some d \<Longrightarrow> et_past w' m v = Some d"
  by (simp add: et_past_def contents_at_Cons del: contents_at.simps)

lemma et_same: "et_log w' = et_log w \<Longrightarrow> et_view w' = et_view w \<and> et_past w' = et_past w"
  by (simp add: et_view_def et_past_def fun_eq_iff)

interpretation etcd: versioned_api etcd_if et_view et_past
proof
  fix n w ex w'
  assume "si_Get etcd_if n w = ((ex, None), w')"
  then show "\<exists>s. ex = Some s \<and> sec_Name s = n \<and> et_view w n = Some (nil_map (sec_Data s))"
    by (auto simp: etcd_if_def et_get_def et_view_def split: prod.splits reply.splits option.splits dest!: next_reply_log)
next
  fix n w ex e w'
  assume "si_Get etcd_if n w = ((ex, Some e), w')" "si_IsNotFound etcd_if e"
  then show "et_view w n = None"
    by (auto simp: etcd_if_def et_get_def et_view_def split: prod.splits reply.splits option.splits dest!: next_reply_log)
next
  fix n w s e w'
  assume "si_Get etcd_if n w = ((Some s, Some e), w')"
  then show "sec_Data s = None"
    by (auto simp: etcd_if_def et_get_def split: prod.splits reply.splits option.splits)
next
  fix n w r w' m v d
  assume g: "si_Get etcd_if n w = (r, w')"
  then have same: "et_log w' = et_log w" by (simp add: etcd_if_def et_get_log)
  then show "et_view w' = et_view w" using et_same by blast
  assume "et_past w m v = Some d"
  with same show "et_past w' m v = Some d" using et_same by metis
next
  fix n w s w'
  assume "si_Get etcd_if n w = ((Some s, None), w')"
  then show "sec_ResourceVersion s \<noteq> [] \<and> et_past w' n (sec_ResourceVersion s) = Some (nil_map (sec_Data s))"
    by (auto simp: etcd_if_def et_get_def et_past_def contents_at_latest split: prod.splits reply.splits option.splits)
next
  fix s w e w' m v d
  assume c: "si_Create etcd_if s w = (e, w')"
  then have p: "et_put may_create s w = (e, w')" by (simp add: etcd_if_def)
  show "et_view w (sec_Name s) = None" if "e = None \<or> et_view w' \<noteq> et_view w"
    using p that by (cases rule: et_put_cases) (auto simp: may_create_def et_view_def [of w] dest: et_same)
  show "et_past w' m v = Some d" if "et_past w m v = Some d"
    using p that by (cases rule: et_put_cases) (auto dest: et_same intro: et_past_put)
next
  fix s w e w' m v d
  assume c: "si_Update etcd_if s w = (e, w')"
  then have p: "et_put may_update s w = (e, w')" by (simp add: etcd_if_def)
  show "et_past w (sec_Name s) (sec_ResourceVersion s) = et_view w (sec_Name s)"
    if "e = None \<or> et_view w' \<noteq> et_view w" "sec_ResourceVersion s \<noteq> []"
    using p that
    by (cases rule: et_put_cases)
       (auto simp: may_update_def et_view_def [of w] et_past_def contents_at_latest split: option.splits dest: et_same)
  show "et_past w' m v = Some d" if "et_past w m v = Some d"
    using p that by (cases rule: et_put_cases) (auto dest: et_same intro: et_past_put)
next
  fix s w e w'
  assume "si_Create etcd_if s w = (Some e, w')"
  then have "et_put may_create s w = (Some e, w')" by (simp add: etcd_if_def)
  then show "et_view w' = et_view w \<or> et_view w' = (et_view w)(sec_Name s \<mapsto> nil_map (sec_Data s))"
    by (cases rule: et_put_cases) (auto dest: et_same)
next
  fix s w e w'
  assume "si_Update etcd_if s w = (Some e, w')"
  then have "et_put may_update s w = (Some e, w')" by (simp add: etcd_if_def)
  then show "et_view w' = et_view w \<or> et_view w' = (et_view w)(sec_Name s \<mapsto> nil_map (sec_Data s))"
    by (cases rule: et_put_cases) (auto dest: et_same)
next
  fix s w w'
  assume "si_Create etcd_if s w = (None, w')"
  then have "et_put may_create s w = (None, w')" by (simp add: etcd_if_def)
  then show "et_view w' = (et_view w)(sec_Name s \<mapsto> nil_map (sec_Data s))"
    by (cases rule: et_put_cases) auto
next
  fix s w w'
  assume "si_Update etcd_if s w = (None, w')"
  then have "et_put may_update s w = (None, w')" by (simp add: etcd_if_def)
  then show "et_view w' = (et_view w)(sec_Name s \<mapsto> nil_map (sec_Data s))"
    by (cases rule: et_put_cases) auto
qed

section \<open>Two calls at once\<close>

text \<open>Both calls read the secret before either writes it.\<close>

definition example_calls :: "bool \<Rightarrow> reconciler" where
  "example_calls b =
     (if b then \<lparr>rc_name = ''s'', rc_ns = ''ns'', rc_data = [''a'' \<mapsto> ''1''], rc_order = [''a'']\<rparr>
      else \<lparr>rc_name = ''s'', rc_ns = ''ns'', rc_data = [''b'' \<mapsto> ''2''], rc_order = [''b'']\<rparr>)"

definition example_etcd :: etcd where
  "example_etcd = \<lparr>et_log = [(''s'', Some [''x'' \<mapsto> ''0''])], et_replies = []\<rparr>"

lemma example_overlap:
  obtains w' st e where "overlapped etcd_if example_calls example_etcd w' st"
    "st True = Finished (Ok ())" "st False = Finished (Fail e)"
proof -
  let ?step = "overlap_step etcd_if example_calls" and ?w = example_etcd
  let ?s = "\<lparr>sec_Namespace = [], sec_Name = ''s'', sec_ResourceVersion = itoa 0, sec_Data = Some [''x'' \<mapsto> ''0'']\<rparr>"
  let ?a = "(Some ?s, None) :: secret option \<times> goerr option"
  let ?w' = "?w\<lparr>et_log := (''s'', Some [''x'' \<mapsto> ''0'', ''a'' \<mapsto> ''1'']) # et_log ?w\<rparr>"
  let ?e = "Wrap ''failed to update secret ns/s'' (Wrap ''server'' (NewErr ''conflict''))"
  note defs = etcd_if_def example_calls_def example_etcd_def et_get_def et_put_def next_reply_def may_update_def
    reconcile_answer_def reconcile_existing_def
  have get: "si_Get etcd_if (rc_name (example_calls b)) ?w = (?a, ?w)" for b by (simp add: defs)
  let ?st1 = "(\<lambda>_. Start)(True := Answered ?a)" and ?st2 = "((\<lambda>_. Start)(True := Answered ?a))(False := Answered ?a)"
  have 1: "?step (?w, \<lambda>_. Start) (?w, ?st1)" by (rule first_request [where i = True]) (simp_all only: get)
  have 2: "?step (?w, ?st1) (?w, ?st2)" by (rule first_request [where i = False]) (simp_all add: get)
  have 3: "?step (?w, ?st2) (?w', ?st2(True := Finished (Ok ())))"
    by (rule second_request [where i = True and a = ?a]) (simp_all add: defs)
  have 4: "?step (?w', ?st2(True := Finished (Ok ()))) (?w', (?st2(True := Finished (Ok ())))(False := Finished (Fail ?e)))"
    by (rule second_request [where i = False and a = ?a]) (simp_all add: defs)
  have "overlapped etcd_if example_calls ?w ?w' ((?st2(True := Finished (Ok ())))(False := Finished (Fail ?e)))"
    unfolding overlapped_def using 1 2 3 4 by (meson converse_rtranclp_into_rtranclp rtranclp.rtrancl_refl)
  then show thesis by (rule that) simp_all
qed

lemma example_orders: "range_order (rc_data (example_calls b)) (rc_order (example_calls b))"
  by (simp add: example_calls_def range_order_def)

section \<open>Properties\<close>

text \<open>
  C3. Overlapping calls of \<open>ReconcileSecret\<close> act as calls made one after the other. Whatever
  calls, on the same secrets or on others, are under way, in whatever order their requests reach
  the server, and whichever of them are refused or lose their answer: the secrets are those that
  undisturbed calls leave when they are made in some order, each at most once, and every call that
  reported success is one of them. A call that was overtaken is refused and has had no effect.
\<close>

theorem overlapping_reconciles_serialize:
  assumes "versioned_api C view past" and "\<forall>i. range_order (rc_data (rc i)) (rc_order (rc i))"
    and "overlapped C rc w w' st"
  shows "\<exists>is. distinct is \<and> {i. st i = Finished (Ok ())} \<subseteq> set is \<and> (\<forall>i \<in> set is. st i \<noteq> Start)
    \<and> view w' = serially rc is (view w)"
proof -
  obtain "is" where "serial rc view past w is w' st"
    using versioned_api.overlapped_serial [OF assms(1,3)] assms(2) by blast
  then show ?thesis unfolding serial_def by blast
qed

theorem overlapping_reconciles_serialize_witness:
  "\<exists>w' st is. overlapped etcd_if example_calls example_etcd w' st \<and> st True = Finished (Ok ())
    \<and> distinct is \<and> True \<in> set is \<and> et_view w' = serially example_calls is (et_view example_etcd)"
proof -
  obtain w' st e where run: "overlapped etcd_if example_calls example_etcd w' st" "st True = Finished (Ok ())"
    by (rule example_overlap)
  have "\<forall>b. range_order (rc_data (example_calls b)) (rc_order (example_calls b))" by (simp add: example_orders)
  from overlapping_reconciles_serialize [OF etcd.versioned_api_axioms this run(1)] run show ?thesis by auto
qed

text \<open>
  C8. No update is lost: when no two of the overlapping calls want different values for one key of
  one secret, the secret of every call that reported success holds all the values of that call in
  the end, however the calls were interleaved and whether they wrote the same secret or not.
\<close>

theorem overlapping_reconciles_keep_all:
  assumes "versioned_api C view past" and "\<forall>i. range_order (rc_data (rc i)) (rc_order (rc i))"
    and "overlapped C rc w w' st" and "\<forall>i j. agree (rc i) (rc j)" and "st i = Finished (Ok ())"
  shows "\<exists>d. view w' (rc_name (rc i)) = Some d \<and> (\<forall>k \<in> dom (rc_data (rc i)). go_get d k = go_get (rc_data (rc i)) k)"
proof -
  obtain "is" where s: "serial rc view past w is w' st"
    using versioned_api.overlapped_serial [OF assms(1,3)] assms(2) by blast
  then have "i \<in> set is" "view w' = serially rc is (view w)" using assms(5) by (auto simp: serial_def)
  with serially_holds [of i "is" rc "view w"] assms(4) show ?thesis by (simp add: holds_def)
qed

theorem overlapping_reconciles_keep_all_witness:
  "\<exists>w' st d. overlapped etcd_if example_calls example_etcd w' st \<and> et_view w' ''s'' = Some d \<and> go_get d ''a'' = ''1''"
proof -
  obtain w' st e where run: "overlapped etcd_if example_calls example_etcd w' st" "st True = Finished (Ok ())"
    by (rule example_overlap)
  have "\<forall>b. range_order (rc_data (example_calls b)) (rc_order (example_calls b))" by (simp add: example_orders)
  moreover have "\<forall>b b'. agree (example_calls b) (example_calls b')" by (auto simp: agree_def example_calls_def)
  ultimately show ?thesis
    using overlapping_reconciles_keep_all [OF etcd.versioned_api_axioms _ run(1) _ run(2)] run(1)
    by (auto simp: example_calls_def)
qed

end
