(* ===== verification/Key_Jobs.thy ===== *)
theory Key_Jobs
  imports Kube_Job CTLog_Config
begin

text \<open>
  The three jobs that make keys: \<^verbatim>\<open>tools/fulcio/cmd/fulcio/createcerts/main.go\<close>,
  \<^verbatim>\<open>tools/rekor/cmd/rekor/rekor-createsecret/main.go\<close> and
  \<^verbatim>\<open>tools/tsa/cmd/tsa/createcertchain/main.go\<close>. Key generation, x509, PEM and the encryption of
  keys are the record \<open>key_lib\<close>. The theorems say that the secrets a successful run leaves fit
  together: the stored private key opens with the stored password and belongs to the public
  key that is handed out.
\<close>

section \<open>Keys and certificates\<close>

record cert_template =
  ct_SerialNumber :: int
  ct_Organization :: "string list"
  ct_Country :: "string list"
  ct_Province :: "string list"
  ct_Locality :: "string list"
  ct_StreetAddress :: "string list"
  ct_PostalCode :: "string list"
  ct_NotBefore :: int
  ct_NotAfter :: int
  ct_IsCA :: bool
  ct_KeyUsage :: "string list"
  ct_BasicConstraintsValid :: bool
  ct_MaxPathLen :: nat

record ('priv, 'pub, 'chain) key_lib =
  kl_GenerateKey :: "elliptic_curve \<Rightarrow> 'priv go"
  kl_Public :: "'priv \<Rightarrow> 'pub"
  kl_rand_Int :: "int \<Rightarrow> int go"
  kl_now :: "nat \<Rightarrow> int"   \<comment> \<open>the readings of the clock, in order\<close>
  kl_AddDate :: "int \<Rightarrow> nat \<Rightarrow> nat \<Rightarrow> nat \<Rightarrow> int"
  kl_CreateCertificate :: "cert_template \<Rightarrow> cert_template \<Rightarrow> 'pub \<Rightarrow> 'priv \<Rightarrow> bytes go"
  kl_MarshalPKCS8PrivateKey :: "'priv \<Rightarrow> bytes go"
  kl_MarshalPKIXPublicKey :: "'pub \<Rightarrow> bytes go"
  kl_uuid :: string
  kl_EncryptPKCS8PrivateKey :: "bytes \<Rightarrow> bytes \<Rightarrow> pem_block go"
  kl_EncryptPEMBlock :: "string \<Rightarrow> bytes \<Rightarrow> bytes \<Rightarrow> pem_block go"
  kl_EncodeToMemory :: "pem_block \<Rightarrow> bytes option"
  kl_NewTimestampingCertWithChain :: "'priv \<Rightarrow> 'chain go"
  kl_LoadECDSASignerVerifier :: "'priv \<Rightarrow> 'priv go"
  kl_MarshalCertificatesToPEM :: "'chain \<Rightarrow> bytes go"

definition plain_block :: "string \<Rightarrow> bytes \<Rightarrow> pem_block" where
  "plain_block ty bs = \<lparr>pem_Type = ty, pem_Headers = [], pem_Bytes = bs\<rparr>"

section \<open>Fulcio createcerts\<close>

record fulcio_flags =
  ff_secretName :: string
  ff_pubkeySecretName :: string
  ff_certOrg :: string
  ff_certCountry :: string
  ff_certProvince :: string
  ff_certLocality :: string
  ff_certAddr :: string
  ff_certPostal :: string

definition fulcio_defaults :: fulcio_flags where
  "fulcio_defaults =
     \<lparr>ff_secretName = ''fulcio-secrets'', ff_pubkeySecretName = ''fulcio-pub-key'',
      ff_certOrg = ''Linux Foundation'', ff_certCountry = ''USA'', ff_certProvince = ''California'',
      ff_certLocality = ''San Francisco'', ff_certAddr = ''548 Market St'', ff_certPostal = ''57274''\<rparr>"

definition rootCA :: "('priv, 'pub, 'chain) key_lib \<Rightarrow> fulcio_flags \<Rightarrow> int \<Rightarrow> cert_template" where
  "rootCA L F serialNumber =
     \<lparr>ct_SerialNumber = serialNumber, ct_Organization = [ff_certOrg F], ct_Country = [ff_certCountry F],
      ct_Province = [ff_certProvince F], ct_Locality = [ff_certLocality F], ct_StreetAddress = [ff_certAddr F],
      ct_PostalCode = [ff_certPostal F], ct_NotBefore = kl_now L 0, ct_NotAfter = kl_AddDate L (kl_now L 1) 1 0 0,
      ct_IsCA = True, ct_KeyUsage = [''CertSign'', ''CRLSign''], ct_BasicConstraintsValid = True,
      ct_MaxPathLen = 1\<rparr>"

definition createAll ::
  "('priv, 'pub, 'chain) key_lib \<Rightarrow> fulcio_flags \<Rightarrow> (bytes \<times> bytes \<times> bytes \<times> string) go" where
  "createAll L F =
     go_bind (wrapf ''failed to generate ecdsa key'' (kl_GenerateKey L P256)) (\<lambda>privateKey.
     go_bind (wrapf ''failed to generate serial Number'' (kl_rand_Int L (2 ^ 63 - 1))) (\<lambda>serialNumber.
     go_bind (wrapf ''failed to create certificate''
       (kl_CreateCertificate L (rootCA L F serialNumber) (rootCA L F serialNumber)
          (kl_Public L privateKey) privateKey)) (\<lambda>derBytes.
     let certPEM = nil_bytes (kl_EncodeToMemory L (plain_block ''CERTIFICATE'' derBytes)) in
     go_bind (wrapf ''marshal pkcs8 private key'' (kl_MarshalPKCS8PrivateKey L privateKey)) (\<lambda>marshalledPrivKey.
     let pwd = kl_uuid L in
     go_bind (wrapf ''EncryptPEMBlock failed'' (kl_EncryptPKCS8PrivateKey L marshalledPrivKey pwd)) (\<lambda>block.
     case kl_EncodeToMemory L block of
       None \<Rightarrow> Fail (NewErr ''EncodeToMemory private key failed: %!w(<nil>)'')
     | Some privPEM \<Rightarrow>
         go_bind (wrapf ''failed to unmarshal public key''
           (kl_MarshalPKIXPublicKey L (kl_Public L privateKey))) (\<lambda>marshalledPubKey.
         case kl_EncodeToMemory L (plain_block ''PUBLIC KEY'' marshalledPubKey) of
           None \<Rightarrow> Fail (NewErr ''EncodeToMemory public key failed: %!w(<nil>)'')
         | Some pubPEM \<Rightarrow> Ok (certPEM, pubPEM, privPEM, pwd)))))))"

definition createcerts_main ::
  "'w kube_env \<Rightarrow> ('priv, 'pub, 'chain) key_lib \<Rightarrow> fulcio_flags \<Rightarrow> ('w, unit) io" where
  "createcerts_main K L F =
     (if ke_NAMESPACE K = [] then io_ret (Panic ''env variable NAMESPACE must be set'')
      else io_bind (kube_client or_panic K) (\<lambda>_.
        io_bind (io_ret (on_fail (createAll L F) (\<lambda>e. Panic (''Failed to create keys '' @ Error e)))) (\<lambda>(certPEM, pubPEM, privPEM, pwd).
        io_bind (io_map_out (or_panic (''Failed to reconcile secret '' @ ke_NAMESPACE K @ ''/'' @ ff_secretName F))
          (kube_reconcile K (ff_secretName F)
            [''cert'' \<mapsto> certPEM, ''private'' \<mapsto> privPEM, ''public'' \<mapsto> pubPEM, ''password'' \<mapsto> pwd])) (\<lambda>_.
        io_map_out (or_panic (''Failed to reconcile secret '' @ ke_NAMESPACE K @ ''/'' @ ff_pubkeySecretName F))
          (kube_reconcile K (ff_pubkeySecretName F) [''cert'' \<mapsto> certPEM, ''public'' \<mapsto> pubPEM])))))"

section \<open>Rekor createsecret\<close>

record rekor_flags =
  rf_signingSecretName :: string
  rf_signingKeyPassword :: string
  rf_secretName :: string

definition rekor_defaults :: rekor_flags where
  "rekor_defaults =
     \<lparr>rf_signingSecretName = ''rekor-signing-secret'', rf_signingKeyPassword = ''scaffoldtest'',
      rf_secretName = ''rekor-pub-key''\<rparr>"

definition signingKeySecretKey :: string where "signingKeySecretKey = ''signing-secret''"
definition signingKeySecretPasswordKey :: string where
  "signingKeySecretPasswordKey = ''signing-secret-password''"

definition rekor_main ::
  "'w kube_env \<Rightarrow> ('priv, 'pub, 'chain) key_lib \<Rightarrow> rekor_flags \<Rightarrow> ('w, unit) io" where
  "rekor_main K L F =
     (if ke_NAMESPACE K = [] then io_ret (Panic ''env variable NAMESPACE must be set'')
      else io_bind (kube_client fatal K) (\<lambda>_.
        io_bind (io_ret (or_fatal (kl_GenerateKey L P256))) (\<lambda>privateKey.
        io_bind (io_ret (or_fatal (kl_MarshalPKCS8PrivateKey L privateKey))) (\<lambda>marshalledPrivKey.
        io_bind (io_ret (or_fatal (kl_EncryptPKCS8PrivateKey L marshalledPrivKey (rf_signingKeyPassword F)))) (\<lambda>encryptedBlock.
        io_bind (io_ret (case kl_EncodeToMemory L encryptedBlock of None \<Rightarrow> Exit 1 | Some p \<Rightarrow> Ok p)) (\<lambda>privPEM.
        io_bind (io_ret (or_panic ''Failed to marshal the public key''
          (kl_MarshalPKIXPublicKey L (kl_Public L privateKey)))) (\<lambda>marshalledPubKey.
        let pubPEM = nil_bytes (kl_EncodeToMemory L (plain_block ''PUBLIC KEY'' marshalledPubKey)) in
        io_bind (io_map_out or_fatal (kube_reconcile K (rf_signingSecretName F)
          [signingKeySecretKey \<mapsto> privPEM, signingKeySecretPasswordKey \<mapsto> rf_signingKeyPassword F])) (\<lambda>_.
        io_map_out or_fatal (kube_reconcile K (rf_secretName F) [''public'' \<mapsto> pubPEM])))))))))"

section \<open>TSA createcertchain\<close>

definition certChainKey :: string where "certChainKey = ''cert-chain''"

lemmas key_names = signingKeySecretKey_def signingKeySecretPasswordKey_def certChainKey_def

text \<open>A new key with its password and its chain; an error of any step ends the process.\<close>

definition tsa_new_data :: "('priv, 'pub, 'chain) key_lib \<Rightarrow> gomap go" where
  "tsa_new_data L =
     go_bind (or_fatal (kl_GenerateKey L P256)) (\<lambda>privateKey.
     go_bind (or_fatal (kl_MarshalPKCS8PrivateKey L privateKey)) (\<lambda>marshalledPrivKey.
     let pwd = kl_uuid L in
     go_bind (or_fatal (kl_EncryptPEMBlock L ''PRIVATE KEY'' marshalledPrivKey pwd)) (\<lambda>encryptedBlock.
     case kl_EncodeToMemory L encryptedBlock of
       None \<Rightarrow> Exit 1
     | Some privPEM \<Rightarrow>
         go_bind (or_fatal (kl_LoadECDSASignerVerifier L privateKey)) (\<lambda>s.
         go_bind (or_fatal (kl_NewTimestampingCertWithChain L s)) (\<lambda>chain.
         go_bind (or_fatal (kl_MarshalCertificatesToPEM L chain)) (\<lambda>chainBytes.
         Ok [signingKeySecretKey \<mapsto> privPEM, signingKeySecretPasswordKey \<mapsto> pwd,
             certChainKey \<mapsto> chainBytes]))))))"

definition tsa_complete :: "gomap \<Rightarrow> bool" where
  "tsa_complete m \<longleftrightarrow> m certChainKey \<noteq> None \<and> m signingKeySecretKey \<noteq> None
     \<and> m signingKeySecretPasswordKey \<noteq> None"

definition tsa_default_secret :: string where "tsa_default_secret = ''tsa-cert-chain''"

definition createcertchain_main ::
  "'w kube_env \<Rightarrow> ('priv, 'pub, 'chain) key_lib \<Rightarrow> string \<Rightarrow> ('w, unit) io" where
  "createcertchain_main K L secretName =
     (if ke_NAMESPACE K = [] then io_ret (Panic ''env variable NAMESPACE must be set'')
      else io_bind (kube_client fatal K) (\<lambda>_ w.
        case si_Get (ke_secrets K) secretName w of
          ((existing, err), w1) \<Rightarrow>
            if (case err of None \<Rightarrow> False | Some e \<Rightarrow> \<not> si_IsNotFound (ke_secrets K) e)
            then (Exit 1, w1)
            else (case existing of
                None \<Rightarrow> (Panic ''nil pointer dereference'', w1)
              | Some s \<Rightarrow>
                  if tsa_complete (nil_map (sec_Data s)) then (Ok (), w1)
                  else io_bind (io_ret (tsa_new_data L)) (\<lambda>secretData.
                    io_map_out or_fatal (kube_reconcile K secretName secretData)) w1)))"

section \<open>What is relied on of the encryption\<close>

text \<open>
  \<open>opens t pw k\<close>: the text \<open>t\<close> of an encrypted private key opens with the password \<open>pw\<close> to the
  key \<open>k\<close>. PEM texts, identifiers and certificate chains are not empty.
\<close>

declare io_bind.simps [simp del]

locale key_crypto =
  fixes L :: "('priv, 'pub, 'chain) key_lib" and opens :: "bytes \<Rightarrow> string \<Rightarrow> 'priv \<Rightarrow> bool"
  assumes open_pkcs8: "kl_MarshalPKCS8PrivateKey L k = Ok b \<Longrightarrow> kl_EncryptPKCS8PrivateKey L b pw = Ok blk \<Longrightarrow>
      kl_EncodeToMemory L blk = Some t \<Longrightarrow> opens t pw k"
    and open_pem: "kl_MarshalPKCS8PrivateKey L k = Ok b \<Longrightarrow> kl_EncryptPEMBlock L ''PRIVATE KEY'' b pw = Ok blk \<Longrightarrow>
      kl_EncodeToMemory L blk = Some t \<Longrightarrow> opens t pw k"
    and encode_text: "kl_EncodeToMemory L blk = Some t \<Longrightarrow> t \<noteq> []"
    and uuid_text: "kl_uuid L \<noteq> []"
    and chain_text: "kl_MarshalCertificatesToPEM L ch = Ok t \<Longrightarrow> t \<noteq> []"
begin

lemma createAll_OkE:
  assumes "createAll L F = Ok (cert, pub, privPEM, pwd)"
  obtains k pk serial der where "opens privPEM pwd k" "kl_GenerateKey L P256 = Ok k"
    "kl_MarshalPKIXPublicKey L (kl_Public L k) = Ok pk"
    "kl_EncodeToMemory L (plain_block ''PUBLIC KEY'' pk) = Some pub"
    "kl_CreateCertificate L (rootCA L F serial) (rootCA L F serial) (kl_Public L k) k = Ok der"
    "cert = nil_bytes (kl_EncodeToMemory L (plain_block ''CERTIFICATE'' der))"
proof -
  obtain k serial der b blk pk where g: "kl_GenerateKey L P256 = Ok k"
    and c: "kl_CreateCertificate L (rootCA L F serial) (rootCA L F serial) (kl_Public L k) k = Ok der"
      "cert = nil_bytes (kl_EncodeToMemory L (plain_block ''CERTIFICATE'' der))"
    and p: "kl_MarshalPKCS8PrivateKey L k = Ok b" "kl_EncryptPKCS8PrivateKey L b pwd = Ok blk"
      "kl_EncodeToMemory L blk = Some privPEM"
    and pk: "kl_MarshalPKIXPublicKey L (kl_Public L k) = Ok pk"
      "kl_EncodeToMemory L (plain_block ''PUBLIC KEY'' pk) = Some pub"
    using assms by (auto simp: createAll_def go_bind_Ok_conv Let_def split: option.splits)
  from that [OF open_pkcs8 [OF p] g pk c] show thesis .
qed

lemma tsa_new_data_Ok:
  assumes "tsa_new_data L = Ok m"
  shows "dom m = {signingKeySecretKey, signingKeySecretPasswordKey, certChainKey} \<and> (\<forall>k \<in> dom m. go_get m k \<noteq> [])
    \<and> (\<exists>k. kl_GenerateKey L P256 = Ok k \<and> opens (go_get m signingKeySecretKey) (go_get m signingKeySecretPasswordKey) k)"
proof -
  obtain k b blk t s ch cb where g: "kl_GenerateKey L P256 = Ok k" "kl_MarshalPKCS8PrivateKey L k = Ok b"
    "kl_EncryptPEMBlock L ''PRIVATE KEY'' b (kl_uuid L) = Ok blk" "kl_EncodeToMemory L blk = Some t"
    "kl_MarshalCertificatesToPEM L ch = Ok cb"
    and m: "m = [signingKeySecretKey \<mapsto> t, signingKeySecretPasswordKey \<mapsto> kl_uuid L, certChainKey \<mapsto> cb]"
    using assms by (auto simp: tsa_new_data_def go_bind_Ok_conv Let_def split: option.splits)
  show ?thesis
    using g open_pem [OF g(2-4)] encode_text [OF g(4)] uuid_text chain_text [OF g(5)]
    by (auto simp: m key_names)
qed

end

lemma tsa_run_complete:
  assumes "kube_job K view" and "key_crypto L opens" and "createcertchain_main K L name w = (Ok (), w')"
  shows "\<exists>d. view w' name = Some d \<and> tsa_complete d"
proof -
  note api = kube_job.api [OF assms(1)]
  obtain ex e w1 where get0: "si_Get (ke_secrets K) name w = ((ex, e), w1)" by (metis prod.collapse)
  have step: "(case ex of
        None \<Rightarrow> (Panic ''nil pointer dereference'', w1)
      | Some s \<Rightarrow>
          if tsa_complete (nil_map (sec_Data s)) then (Ok (), w1)
          else io_bind (io_ret (tsa_new_data L)) (\<lambda>secretData.
            io_map_out or_fatal (kube_reconcile K name secretData)) w1) = (Ok (), w')"
    using assms(3) get0
    by (auto simp: createcertchain_main_def kube_client_def fatal_def io_bind_Ok_conv split: if_splits)
  then obtain s where s: "ex = Some s" by (cases ex) auto
  with step have run: "tsa_complete (nil_map (sec_Data s)) \<and> w' = w1 \<or>
      (\<exists>m. tsa_new_data L = Ok m \<and> kube_reconcile K name m w1 = (Ok (), w'))"
    by (auto simp: io_bind_Ok_conv split: if_splits)
  note get = get0 [unfolded s]
  from run show ?thesis
  proof
    assume c: "tsa_complete (nil_map (sec_Data s)) \<and> w' = w1"
    then have "e = None"
      using secret_api.get_error_zero [OF api, of name w s] get by (cases e) (auto simp: tsa_complete_def)
    with secret_api.get_ok [OF api, of name w "Some s" w1] secret_api.get_view [OF api get] get c
    show ?thesis by auto
  next
    assume "\<exists>m. tsa_new_data L = Ok m \<and> kube_reconcile K name m w1 = (Ok (), w')"
    then obtain m where m: "tsa_new_data L = Ok m" "kube_reconcile K name m w1 = (Ok (), w')" by blast
    note new = key_crypto.tsa_new_data_Ok [OF assms(2) m(1)]
    then have fin: "finite (dom m)" by simp
    obtain d where d: "view w' name = Some d" "\<forall>k \<in> dom m. go_get d k = go_get m k"
      by (rule kube_job.kube_reconcile_secret [OF assms(1) m(2) fin])
    have "d k \<noteq> None" if "k \<in> dom m" for k
    proof -
      have "go_get m k \<noteq> []" using conjunct1 [OF conjunct2 [OF new]] that by (rule bspec)
      moreover have "go_get d k = go_get m k" using d(2) that by (rule bspec)
      ultimately have "go_get d k \<noteq> []" by simp
      then show ?thesis by (metis go_get_None)
    qed
    then have "tsa_complete d" unfolding tsa_complete_def conjunct1 [OF new] by simp
    with d(1) show ?thesis by blast
  qed
qed

lemma tsa_complete_run:
  assumes "kube_job K view" and "view w name = Some d" "tsa_complete d"
    and "createcertchain_main K L name w = (r, w')"
  shows "view w' = view w"
proof -
  note api = kube_job.api [OF assms(1)]
  obtain ex e w1 where get: "si_Get (ke_secrets K) name w = ((ex, e), w1)" by (metis prod.collapse)
  have v1: "view w1 = view w" using secret_api.get_view [OF api get] .
  have "w' = w \<or> w' = w1"
  proof (cases e)
    case None
    with secret_api.get_ok [OF api, of name w ex w1] get assms(2) obtain s where
      "ex = Some s" "nil_map (sec_Data s) = d" by auto
    with assms(3,4) get None show ?thesis
      by (auto simp: createcertchain_main_def kube_client_def fatal_def io_bind.simps io_ret_def
          split: if_splits go.splits)
  next
    case (Some x)
    with secret_api.get_not_found [OF api, of name w ex x w1] get assms(2)
    have "\<not> si_IsNotFound (ke_secrets K) x" by auto
    with assms(4) get Some show ?thesis
      by (auto simp: createcertchain_main_def kube_client_def fatal_def io_bind.simps io_ret_def
          split: if_splits go.splits)
  qed
  with v1 show ?thesis by auto
qed

section \<open>Keys in a text form\<close>

definition ref_keys :: "(string, string, string) key_lib" where
  "ref_keys =
     \<lparr>kl_GenerateKey = (\<lambda>c. Ok ''k''), kl_Public = (\<lambda>k. ''pub-'' @ k), kl_rand_Int = (\<lambda>n. Ok 7), kl_now = (\<lambda>_. 0),
      kl_AddDate = (\<lambda>t y m d. t + 365), kl_CreateCertificate = (\<lambda>t p pub k. Ok (''cert-'' @ pub)),
      kl_MarshalPKCS8PrivateKey = Ok, kl_MarshalPKIXPublicKey = Ok, kl_uuid = ''u'',
      kl_EncryptPKCS8PrivateKey = (\<lambda>b pw. Ok \<lparr>pem_Type = ''E'', pem_Headers = [(''pw'', pw)], pem_Bytes = b\<rparr>),
      kl_EncryptPEMBlock = (\<lambda>ty b pw. Ok \<lparr>pem_Type = ''E'', pem_Headers = [(''pw'', pw)], pem_Bytes = b\<rparr>),
      kl_EncodeToMemory = (\<lambda>b. Some (''-'' @ enc_block b)),
      kl_NewTimestampingCertWithChain = (\<lambda>k. Ok (''chain-'' @ k)), kl_LoadECDSASignerVerifier = Ok,
      kl_MarshalCertificatesToPEM = (\<lambda>ch. Ok (''-'' @ ch))\<rparr>"

definition ref_opens :: "bytes \<Rightarrow> string \<Rightarrow> string \<Rightarrow> bool" where
  "ref_opens t pw k \<longleftrightarrow>
     (\<exists>b. dec_block (tl t) = Some b \<and> pem_Headers b = [(''pw'', pw)] \<and> pem_Bytes b = k)"

interpretation ref_keys: key_crypto ref_keys ref_opens
  by unfold_locales (auto simp: ref_keys_def ref_opens_def)

lemma ref_empty_live: "\<exists>w'. kube_reconcile ref_kube name data w = (Ok (), w')"
  if "finite (dom data)" "mem_view w name = None"
  using refkube.kube_reconcile_live [OF that(1), of w name] that(2) by simp

definition empty_cluster :: cluster where
  "empty_cluster = \<lparr>cl_store = Map.empty, cl_faults = []\<rparr>"

section \<open>Properties\<close>

text \<open>
  C18. The secrets createcerts leaves fit together: the private key in the Fulcio secret opens
  with the password beside it to a key whose public key is in both secrets, the certificate is in
  both secrets and was made, as an authority signed by itself, for that key.
\<close>

theorem fulcio_secrets_fit:
  assumes "kube_job K view" and "key_crypto L opens" and "ff_secretName F \<noteq> ff_pubkeySecretName F"
    and "createcerts_main K L F w = (Ok (), w')"
  shows "\<exists>d p k pk serial der. view w' (ff_secretName F) = Some d \<and> view w' (ff_pubkeySecretName F) = Some p
    \<and> opens (go_get d ''private'') (go_get d ''password'') k
    \<and> kl_MarshalPKIXPublicKey L (kl_Public L k) = Ok pk
    \<and> kl_EncodeToMemory L (plain_block ''PUBLIC KEY'' pk) = Some (go_get d ''public'')
    \<and> kl_CreateCertificate L (rootCA L F serial) (rootCA L F serial) (kl_Public L k) k = Ok der
    \<and> go_get d ''cert'' = nil_bytes (kl_EncodeToMemory L (plain_block ''CERTIFICATE'' der))
    \<and> go_get p ''public'' = go_get d ''public'' \<and> go_get p ''cert'' = go_get d ''cert''"
proof -
  obtain cert pub privPEM pwd w1 where c: "createAll L F = Ok (cert, pub, privPEM, pwd)"
    and r1: "kube_reconcile K (ff_secretName F)
       [''cert'' \<mapsto> cert, ''private'' \<mapsto> privPEM, ''public'' \<mapsto> pub, ''password'' \<mapsto> pwd] w = (Ok (), w1)"
    and r2: "kube_reconcile K (ff_pubkeySecretName F) [''cert'' \<mapsto> cert, ''public'' \<mapsto> pub] w1 = (Ok (), w')"
    using assms(4) by (auto simp: createcerts_main_def kube_client_def io_bind_Ok_conv split: if_splits)
  note secret = kube_job.kube_reconcile_secret [OF assms(1)]
  obtain d where d: "view w1 (ff_secretName F) = Some d" "go_get d ''cert'' = cert" "go_get d ''private'' = privPEM"
    "go_get d ''public'' = pub" "go_get d ''password'' = pwd"
    using secret [OF r1] by auto
  obtain p where p: "view w' (ff_pubkeySecretName F) = Some p" "go_get p ''cert'' = cert" "go_get p ''public'' = pub"
    and f: "\<forall>n. n \<noteq> ff_pubkeySecretName F \<longrightarrow> view w' n = view w1 n"
    using secret [OF r2] by auto
  have "view w' (ff_secretName F) = Some d" using f d(1) assms(3) by simp
  with key_crypto.createAll_OkE [OF assms(2) c] d p show ?thesis by metis
qed

theorem fulcio_secrets_fit_witness:
  "\<exists>w' d p. createcerts_main ref_kube ref_keys fulcio_defaults empty_cluster = (Ok (), w')
    \<and> mem_view w' ''fulcio-secrets'' = Some d \<and> mem_view w' ''fulcio-pub-key'' = Some p
    \<and> ref_opens (go_get d ''private'') (go_get d ''password'') ''k'' \<and> go_get p ''public'' = go_get d ''public''"
proof -
  let ?F = fulcio_defaults
  obtain cert pub privPEM pwd where c: "createAll ref_keys ?F = Ok (cert, pub, privPEM, pwd)"
    by (simp add: createAll_def ref_keys_def Let_def)
  let ?m = "[''cert'' \<mapsto> cert, ''private'' \<mapsto> privPEM, ''public'' \<mapsto> pub, ''password'' \<mapsto> pwd]"
  let ?p = "[''cert'' \<mapsto> cert, ''public'' \<mapsto> pub]"
  have names: "ff_secretName ?F = ''fulcio-secrets''" "ff_pubkeySecretName ?F = ''fulcio-pub-key''"
    by (simp_all add: fulcio_defaults_def)
  obtain w1 where w1: "kube_reconcile ref_kube ''fulcio-secrets'' ?m empty_cluster = (Ok (), w1)"
    using ref_empty_live [of ?m empty_cluster "''fulcio-secrets''"] by (auto simp: empty_cluster_def mem_view_def)
  have "mem_view w1 ''fulcio-pub-key'' = None"
    using refkube.kube_reconcile_view [OF w1] by (simp add: empty_cluster_def mem_view_def)
  then obtain w2 where w2: "kube_reconcile ref_kube ''fulcio-pub-key'' ?p w1 = (Ok (), w2)"
    using ref_empty_live [of ?p w1 "''fulcio-pub-key''"] by auto
  have run: "createcerts_main ref_kube ref_keys ?F empty_cluster = (Ok (), w2)"
    using c w1 w2
    by (simp add: createcerts_main_def kube_client_def io_bind.simps io_ret_def io_map_out_def or_panic_def names ref_kube_def)
  have "ff_secretName ?F \<noteq> ff_pubkeySecretName ?F" by (simp add: names)
  from fulcio_secrets_fit [OF refkube.kube_job_axioms ref_keys.key_crypto_axioms this run]
  obtain d p k pk where d: "mem_view w2 ''fulcio-secrets'' = Some d" "mem_view w2 ''fulcio-pub-key'' = Some p"
    "ref_opens (go_get d ''private'') (go_get d ''password'') k" "go_get p ''public'' = go_get d ''public''"
    unfolding names by blast
  have "go_get d ''private'' = privPEM"
    using refkube.kube_reconcile_view [OF w1] refkube.kube_reconcile_view [OF w2] d(1)
    by (auto simp: empty_cluster_def mem_view_def)
  moreover have "privPEM = ''-'' @ enc_block
      \<lparr>pem_Type = ''E'', pem_Headers = [(''pw'', ''u'')], pem_Bytes = ''k''\<rparr>"
    using c by (auto simp: createAll_def ref_keys_def Let_def)
  ultimately have "k = ''k''"
    using d(3) by (auto simp: ref_opens_def)
  with d run show ?thesis by blast
qed

text \<open>
  C36. The secrets of the Rekor job fit together in the same way: the signing key opens with the
  password stored beside it, and the public secret holds the public key of just that key.
\<close>

theorem rekor_secrets_fit:
  assumes "kube_job K view" and "key_crypto L opens" and "rf_signingSecretName F \<noteq> rf_secretName F"
    and "rekor_main K L F w = (Ok (), w')"
  shows "\<exists>d p k pk. view w' (rf_signingSecretName F) = Some d \<and> view w' (rf_secretName F) = Some p
    \<and> go_get d signingKeySecretPasswordKey = rf_signingKeyPassword F
    \<and> opens (go_get d signingKeySecretKey) (rf_signingKeyPassword F) k
    \<and> kl_MarshalPKIXPublicKey L (kl_Public L k) = Ok pk
    \<and> go_get p ''public'' = nil_bytes (kl_EncodeToMemory L (plain_block ''PUBLIC KEY'' pk))"
proof -
  obtain k b blk t pk w1 where g: "kl_MarshalPKCS8PrivateKey L k = Ok b"
    "kl_EncryptPKCS8PrivateKey L b (rf_signingKeyPassword F) = Ok blk" "kl_EncodeToMemory L blk = Some t"
    and pk: "kl_MarshalPKIXPublicKey L (kl_Public L k) = Ok pk"
    and r1: "kube_reconcile K (rf_signingSecretName F)
       [signingKeySecretKey \<mapsto> t, signingKeySecretPasswordKey \<mapsto> rf_signingKeyPassword F] w = (Ok (), w1)"
    and r2: "kube_reconcile K (rf_secretName F)
       [''public'' \<mapsto> nil_bytes (kl_EncodeToMemory L (plain_block ''PUBLIC KEY'' pk))] w1 = (Ok (), w')"
    using assms(4)
    by (auto simp: rekor_main_def kube_client_def fatal_def io_bind_Ok_conv Let_def split: if_splits option.splits)
  note secret = kube_job.kube_reconcile_secret [OF assms(1)]
  obtain d where d: "view w1 (rf_signingSecretName F) = Some d" "go_get d signingKeySecretKey = t"
    "go_get d signingKeySecretPasswordKey = rf_signingKeyPassword F"
    using secret [OF r1] by (auto simp: key_names)
  obtain p where p: "view w' (rf_secretName F) = Some p"
    "go_get p ''public'' = nil_bytes (kl_EncodeToMemory L (plain_block ''PUBLIC KEY'' pk))"
    and f: "\<forall>n. n \<noteq> rf_secretName F \<longrightarrow> view w' n = view w1 n"
    using secret [OF r2] by auto
  have "view w' (rf_signingSecretName F) = Some d" using f d(1) assms(3) by simp
  with key_crypto.open_pkcs8 [OF assms(2) g] pk d p show ?thesis by auto
qed

theorem rekor_secrets_fit_witness:
  "\<exists>w' d p k. rekor_main ref_kube ref_keys rekor_defaults empty_cluster = (Ok (), w')
    \<and> mem_view w' ''rekor-signing-secret'' = Some d \<and> mem_view w' ''rekor-pub-key'' = Some p
    \<and> ref_opens (go_get d signingKeySecretKey) ''scaffoldtest'' k"
proof -
  let ?F = rekor_defaults
  have names: "rf_signingSecretName ?F = ''rekor-signing-secret''" "rf_secretName ?F = ''rekor-pub-key''"
    "rf_signingKeyPassword ?F = ''scaffoldtest''" by (simp_all add: rekor_defaults_def)
  obtain priv pub where keys: "kl_EncodeToMemory ref_keys
      \<lparr>pem_Type = ''E'', pem_Headers = [(''pw'', ''scaffoldtest'')], pem_Bytes = ''k''\<rparr> = Some priv"
    "kl_EncodeToMemory ref_keys (plain_block ''PUBLIC KEY'' ''pub-k'') = Some pub" by (simp add: ref_keys_def)
  let ?m = "[signingKeySecretKey \<mapsto> priv, signingKeySecretPasswordKey \<mapsto> ''scaffoldtest'']"
  obtain w1 where w1: "kube_reconcile ref_kube ''rekor-signing-secret'' ?m empty_cluster = (Ok (), w1)"
    using ref_empty_live [of ?m empty_cluster "''rekor-signing-secret''"] by (auto simp: empty_cluster_def mem_view_def)
  have "mem_view w1 ''rekor-pub-key'' = None"
    using refkube.kube_reconcile_view [OF w1] by (simp add: empty_cluster_def mem_view_def)
  then obtain w2 where w2: "kube_reconcile ref_kube ''rekor-pub-key'' [''public'' \<mapsto> pub] w1 = (Ok (), w2)"
    using ref_empty_live [of "[''public'' \<mapsto> pub]" w1 "''rekor-pub-key''"] by auto
  have "rekor_main ref_kube ref_keys ?F empty_cluster = (Ok (), w2)"
    using keys w1 w2
    by (simp add: rekor_main_def kube_client_def fatal_def io_bind.simps io_ret_def io_map_out_def or_panic_def
        or_fatal_def names ref_kube_def ref_keys_def nil_bytes_def)
  moreover have "rf_signingSecretName ?F \<noteq> rf_secretName ?F" by (simp add: names)
  ultimately show ?thesis
    using rekor_secrets_fit [OF refkube.kube_job_axioms ref_keys.key_crypto_axioms, of ?F empty_cluster w2]
    unfolding names by blast
qed

text \<open>
  C23. The time stamping key is made once: after a run of createcertchain that returned, any
  later run, with whatever keys it would generate, leaves every secret as it is, and the secret
  is complete.
\<close>

theorem tsa_key_made_once:
  assumes "kube_job K view" and "key_crypto L opens"
    and "createcertchain_main K L name w = (Ok (), w')" and "createcertchain_main K L' name w' = (r, w'')"
  shows "view w'' = view w' \<and> (\<exists>d. view w' name = Some d \<and> tsa_complete d)"
proof -
  note api = kube_job.api [OF assms(1)]
  have compl: "\<exists>d. view w' name = Some d \<and> tsa_complete d"
    using tsa_run_complete [OF assms(1-3)] .
  then obtain d where d: "view w' name = Some d" "tsa_complete d" by blast
  have "view w'' = view w'"
    using tsa_complete_run [OF assms(1) d assms(4)] .
  with compl show ?thesis by simp
qed

theorem tsa_key_made_once_witness:
  "\<exists>w' r w''. createcertchain_main ref_kube ref_keys ''tsa-cert-chain'' empty_cluster = (Ok (), w')
    \<and> createcertchain_main ref_kube (ref_keys\<lparr>kl_uuid := ''v''\<rparr>) ''tsa-cert-chain'' w' = (r, w'')
    \<and> mem_view w'' = mem_view w'"
proof -
  obtain m where m: "tsa_new_data ref_keys = Ok m"
    by (simp add: tsa_new_data_def ref_keys_def or_fatal_def Let_def)
  have "finite (dom m)" using ref_keys.tsa_new_data_Ok [OF m] by simp
  then obtain w1 where w1: "kube_reconcile ref_kube ''tsa-cert-chain'' m empty_cluster = (Ok (), w1)"
    using ref_empty_live [of m empty_cluster "''tsa-cert-chain''"] by (auto simp: empty_cluster_def mem_view_def)
  have run: "createcertchain_main ref_kube ref_keys ''tsa-cert-chain'' empty_cluster = (Ok (), w1)"
    using m w1
    by (simp add: createcertchain_main_def kube_client_def fatal_def io_bind.simps io_ret_def io_map_out_def
        or_fatal_def ref_kube_def mem_defs empty_cluster_def tsa_complete_def)
  obtain r w2 where again: "createcertchain_main ref_kube (ref_keys\<lparr>kl_uuid := ''v''\<rparr>) ''tsa-cert-chain'' w1 = (r, w2)"
    by (metis prod.collapse)
  from tsa_key_made_once [OF refkube.kube_job_axioms ref_keys.key_crypto_axioms run again] run again
  show ?thesis by blast
qed

end
