(* ===== verification/TSA_Overlap.thy ===== *)
theory TSA_Overlap
  imports Kube_Overlap Key_Jobs
begin

text \<open>
  Runs of createcertchain that overlap in time. Every run makes a key, a password and a certificate
  chain of its own, and the three belong together only within one run. A step of \<open>tsa_step\<close> is a
  request of one of the runs: the read with the decision whether there is anything to do, the read
  inside \<open>ReconcileSecret\<close>, and its write. The theorem is that the secret never ends with entries of
  two runs. It rests on the order of overlapping calls of \<open>ReconcileSecret\<close>, of which the runs are
  an instance.
\<close>

declare io_bind.simps [simp del]

section \<open>A run in steps\<close>

text \<open>The run up to the call of \<open>ReconcileSecret\<close>: the data to be written, or nothing when the secret is complete.\<close>

definition tsa_decide ::
  "'w kube_env \<Rightarrow> ('priv, 'pub, 'chain) key_lib \<Rightarrow> string \<Rightarrow> ('w, gomap option) io" where
  "tsa_decide K L secretName =
     (if ke_NAMESPACE K = [] then io_ret (Panic ''env variable NAMESPACE must be set'')
      else io_bind (kube_client fatal K) (\<lambda>_ w.
        case si_Get (ke_secrets K) secretName w of
          ((existing, err), w1) \<Rightarrow>
            if (case err of None \<Rightarrow> False | Some e \<Rightarrow> \<not> si_IsNotFound (ke_secrets K) e)
            then (Exit 1, w1)
            else (case existing of
                None \<Rightarrow> (Panic ''nil pointer dereference'', w1)
              | Some s \<Rightarrow>
                  if tsa_complete (nil_map (sec_Data s)) then (Ok None, w1)
                  else (go_bind (tsa_new_data L) (\<lambda>secretData. Ok (Some secretData)), w1))))"

lemma createcertchain_main_steps:
  "createcertchain_main K L name = io_bind (tsa_decide K L name) (\<lambda>x. case x of
      None \<Rightarrow> io_ret (Ok ()) | Some secretData \<Rightarrow> io_map_out or_fatal (kube_reconcile K name secretData))"
  by (rule ext)
     (auto simp: createcertchain_main_def tsa_decide_def kube_client_def io_bind.simps io_ret_def
        split: prod.splits option.splits go.splits)

datatype pod =
    Booting
  | Making gomap progress
  | Ended "unit go"

fun decided :: "gomap option go \<Rightarrow> pod" where
  "decided (Ok None) = Ended (Ok ())"
| "decided (Ok (Some m)) = Making m Start"
| "decided (Fail e) = Ended (Fail e)"
| "decided (Panic p) = Ended (Panic p)"
| "decided (Exit n) = Ended (Exit n)"

inductive tsa_step ::
  "'w kube_env \<Rightarrow> ('i \<Rightarrow> ('priv, 'pub, 'chain) key_lib) \<Rightarrow> string \<Rightarrow> 'w \<times> ('i \<Rightarrow> pod) \<Rightarrow> 'w \<times> ('i \<Rightarrow> pod) \<Rightarrow> bool"
  for K Ls name where
  pod_decides: "st i = Booting \<Longrightarrow> tsa_decide K (Ls i) name w = (r, w') \<Longrightarrow>
     tsa_step K Ls name (w, st) (w', st(i := decided r))"
| pod_reads: "st i = Making m Start \<Longrightarrow> si_Get (ke_secrets K) name w = (a, w') \<Longrightarrow>
     tsa_step K Ls name (w, st) (w', st(i := Making m (Answered a)))"
| pod_writes: "st i = Making m (Answered a) \<Longrightarrow>
     reconcile_answer (ke_secrets K) name (ke_NAMESPACE K) m (ke_order K m) a w = (r, w') \<Longrightarrow>
     tsa_step K Ls name (w, st) (w', st(i := Ended (or_fatal r)))"

inductive_cases tsa_stepE: "tsa_step K Ls name (w, st) c"

definition tsa_overlapped ::
  "'w kube_env \<Rightarrow> ('i \<Rightarrow> ('priv, 'pub, 'chain) key_lib) \<Rightarrow> string \<Rightarrow> 'w \<Rightarrow> 'w \<Rightarrow> ('i \<Rightarrow> pod) \<Rightarrow> bool" where
  "tsa_overlapped K Ls name w w' st \<longleftrightarrow> (tsa_step K Ls name)\<^sup>*\<^sup>* (w, \<lambda>_. Booting) (w', st)"

section \<open>The runs as overlapping calls\<close>

definition made :: "('priv, 'pub, 'chain) key_lib \<Rightarrow> gomap" where
  "made L = (case tsa_new_data L of Ok m \<Rightarrow> m | _ \<Rightarrow> Map.empty)"

definition tsa_call :: "'w kube_env \<Rightarrow> ('i \<Rightarrow> ('priv, 'pub, 'chain) key_lib) \<Rightarrow> string \<Rightarrow> 'i \<Rightarrow> reconciler" where
  "tsa_call K Ls name i =
     \<lparr>rc_name = name, rc_ns = ke_NAMESPACE K, rc_data = made (Ls i), rc_order = ke_order K (made (Ls i))\<rparr>"

lemma tsa_call_simps [simp]:
  "rc_name (tsa_call K Ls name i) = name" "rc_ns (tsa_call K Ls name i) = ke_NAMESPACE K"
  "rc_data (tsa_call K Ls name i) = made (Ls i)" "rc_order (tsa_call K Ls name i) = ke_order K (made (Ls i))"
  by (simp_all add: tsa_call_def)

text \<open>How the state of a run and the progress of its call fit.\<close>

definition pod_fits :: "('priv, 'pub, 'chain) key_lib \<Rightarrow> pod \<Rightarrow> progress \<Rightarrow> bool" where
  "pod_fits L p q \<longleftrightarrow>
     (case p of
        Booting \<Rightarrow> q = Start
      | Making m q' \<Rightarrow> tsa_new_data L = Ok m \<and> q = q'
      | Ended r \<Rightarrow> q = Start \<or> (\<exists>r'. q = Finished r' \<and> r = or_fatal r'))
   \<and> (q \<noteq> Start \<longrightarrow> (\<exists>m. tsa_new_data L = Ok m))"

definition complete :: "gomap option \<Rightarrow> bool" where
  "complete v \<longleftrightarrow> (\<exists>d. v = Some d \<and> tsa_complete d)"

lemma decided_fits:
  assumes "tsa_decide K L name w = (r, w')"
  shows "pod_fits L (decided r) Start"
proof (cases "\<exists>m. r = Ok (Some m)")
  case True
  with assms show ?thesis
    by (auto simp: pod_fits_def tsa_decide_def kube_client_def io_bind.simps io_ret_def go_bind_Ok_conv
        split: if_splits go.splits prod.splits option.splits)
next
  case False
  then show ?thesis by (cases r rule: decided.cases) (auto simp: pod_fits_def)
qed

text \<open>What the entries of a run are.\<close>

definition entries_of :: "('priv, 'pub, 'chain) key_lib \<Rightarrow> gomap \<Rightarrow> bool" where
  "entries_of L d \<longleftrightarrow> (\<exists>m. tsa_new_data L = Ok m \<and> go_get d signingKeySecretKey = go_get m signingKeySecretKey
     \<and> go_get d signingKeySecretPasswordKey = go_get m signingKeySecretPasswordKey
     \<and> go_get d certChainKey = go_get m certChainKey)"

context key_crypto
begin

lemma entries_complete:
  assumes "entries_of L d"
  shows "tsa_complete d" "\<exists>k. kl_GenerateKey L P256 = Ok k \<and> opens (go_get d signingKeySecretKey) (go_get d signingKeySecretPasswordKey) k"
proof -
  from assms obtain m where m: "tsa_new_data L = Ok m" and eq: "go_get d signingKeySecretKey = go_get m signingKeySecretKey"
    "go_get d signingKeySecretPasswordKey = go_get m signingKeySecretPasswordKey" "go_get d certChainKey = go_get m certChainKey"
    by (auto simp: entries_of_def)
  note new = tsa_new_data_Ok [OF m]
  from new eq show "\<exists>k. kl_GenerateKey L P256 = Ok k \<and> opens (go_get d signingKeySecretKey) (go_get d signingKeySecretPasswordKey) k"
    by simp
  have "go_get m signingKeySecretKey \<noteq> []" "go_get m signingKeySecretPasswordKey \<noteq> []" "go_get m certChainKey \<noteq> []"
    using conjunct1 [OF conjunct2 [OF new]] unfolding conjunct1 [OF new] by blast+
  with eq show "tsa_complete d" unfolding tsa_complete_def by (metis go_get_None)
qed

lemma merged_entries:
  assumes "tsa_new_data L = Ok m"
  shows "entries_of L (merged old m)"
  using tsa_new_data_Ok [OF assms] assms by (auto simp: entries_of_def go_get_merged)

end

section \<open>The invariant\<close>

definition tsa_inv ::
  "'w kube_env \<Rightarrow> ('w \<Rightarrow> string \<Rightarrow> gomap option) \<Rightarrow> ('w \<Rightarrow> string \<Rightarrow> string \<Rightarrow> gomap option)
    \<Rightarrow> ('i \<Rightarrow> ('priv, 'pub, 'chain) key_lib) \<Rightarrow> string \<Rightarrow> 'w \<Rightarrow> 'w \<Rightarrow> ('i \<Rightarrow> pod) \<Rightarrow> bool" where
  "tsa_inv K view past Ls name w0 w st \<longleftrightarrow>
     (\<exists>q is. serial (tsa_call K Ls name) view past w0 is w q \<and> (\<forall>i. pod_fits (Ls i) (st i) (q i))
       \<and> (\<forall>i. st i = Ended (Ok ()) \<longrightarrow> complete (view w name)))"

locale tsa_runs = kube_job K view + versioned_api "ke_secrets K" view past
  for K :: "'w kube_env" and view :: "'w \<Rightarrow> string \<Rightarrow> gomap option"
    and past :: "'w \<Rightarrow> string \<Rightarrow> string \<Rightarrow> gomap option" +
  fixes Ls :: "'i \<Rightarrow> ('priv, 'pub, 'chain) key_lib" and opens :: "bytes \<Rightarrow> string \<Rightarrow> 'priv \<Rightarrow> bool"
  assumes crypto: "key_crypto (Ls i) opens"
begin

lemma made_order: "range_order (made (Ls i)) (ke_order K (made (Ls i)))"
proof (rule order)
  show "finite (dom (made (Ls i)))"
    using key_crypto.tsa_new_data_Ok [OF crypto] by (auto simp: made_def split: go.splits)
qed

lemma decide_view:
  assumes "tsa_decide K L name w = (r, w')"
  shows "w' = w \<or> (\<exists>a. si_Get (ke_secrets K) name w = (a, w'))" "r = Ok None \<Longrightarrow> complete (view w' name)"
proof -
  obtain ex err w1 where get: "si_Get (ke_secrets K) name w = ((ex, err), w1)" by (metis prod.collapse)
  with assms show "w' = w \<or> (\<exists>a. si_Get (ke_secrets K) name w = (a, w'))"
    by (auto simp: tsa_decide_def kube_client_def io_bind.simps io_ret_def split: if_splits go.splits option.splits)
  assume "r = Ok None"
  with assms get obtain s where s: "ex = Some s" "tsa_complete (nil_map (sec_Data s))" "w' = w1"
    by (auto simp: tsa_decide_def kube_client_def io_bind.simps io_ret_def go_bind_Ok_conv
        split: if_splits go.splits option.splits)
  then have "err = None" using get get_error_zero [of name w s] by (cases err) (auto simp: tsa_complete_def)
  with get s get_ok [of name w ex w1] get_view [OF get] show "complete (view w' name)" by (auto simp: complete_def)
qed

lemma serially_entries:
  assumes "is \<noteq> []" and "\<forall>i \<in> set is. \<exists>m. tsa_new_data (Ls i) = Ok m"
  shows "\<exists>d. serially (tsa_call K Ls name) is v name = Some d \<and> entries_of (Ls (last is)) d"
proof -
  from assms(1) obtain js j where "is": "is = js @ [j]" by (metis append_butlast_last_id)
  with assms(2) obtain m where m: "tsa_new_data (Ls j) = Ok m" by auto
  with key_crypto.merged_entries [OF crypto m] show ?thesis by (simp add: "is" atomically_def made_def)
qed

lemma serial_entries:
  assumes "serial (tsa_call K Ls name) view past w0 is w q" and "\<forall>i. pod_fits (Ls i) (st i) (q i)" and "is \<noteq> []"
  shows "\<exists>d. view w name = Some d \<and> entries_of (Ls (last is)) d"
proof -
  have "\<exists>m. tsa_new_data (Ls i) = Ok m" if "i \<in> set is" for i
    using that assms(1) spec [OF assms(2), of i] by (auto simp: serial_def pod_fits_def)
  with serially_entries [OF assms(3)] assms(1) show ?thesis by (auto simp: serial_def)
qed

lemma inv_decides:
  assumes inv: "tsa_inv K view past Ls name w0 w st" and i: "st i = Booting" and run: "tsa_decide K (Ls i) name w = (r, w')"
  shows "tsa_inv K view past Ls name w0 w' (st(i := decided r))"
proof -
  from inv obtain q "is" where s: "serial (tsa_call K Ls name) view past w0 is w q"
    and fit: "\<And>i. pod_fits (Ls i) (st i) (q i)" and ok: "\<And>i. st i = Ended (Ok ()) \<Longrightarrow> complete (view w name)"
    unfolding tsa_inv_def by blast
  have s': "serial (tsa_call K Ls name) view past w0 is w' q" and v: "view w' = view w"
    using decide_view(1) [OF run] s serial_read [OF s] get_view by blast+
  have q: "q i = Start" using fit [of i] i by (simp add: pod_fits_def)
  have "pod_fits (Ls j) ((st(i := decided r)) j) (q j)" for j using fit [of j] decided_fits [OF run] q by simp
  moreover have "complete (view w' name)" if "(st(i := decided r)) j = Ended (Ok ())" for j
  proof (cases "j = i")
    case True
    with that have "r = Ok None" by (cases r rule: decided.cases) auto
    then show ?thesis by (rule decide_view(2) [OF run])
  next
    case False
    with that ok [of j] v show ?thesis by simp
  qed
  ultimately show ?thesis unfolding tsa_inv_def using s' by blast
qed

lemma inv_reads:
  assumes inv: "tsa_inv K view past Ls name w0 w st" and i: "st i = Making m Start"
    and get: "si_Get (ke_secrets K) name w = (a, w')"
  shows "tsa_inv K view past Ls name w0 w' (st(i := Making m (Answered a)))"
proof -
  from inv obtain q "is" where s: "serial (tsa_call K Ls name) view past w0 is w q"
    and fit: "\<And>i. pod_fits (Ls i) (st i) (q i)" and ok: "\<And>i. st i = Ended (Ok ()) \<Longrightarrow> complete (view w name)"
    unfolding tsa_inv_def by blast
  have q: "q i = Start" and m: "tsa_new_data (Ls i) = Ok m" using fit [of i] i by (auto simp: pod_fits_def)
  from serial_first [OF s q, of a w'] get obtain is' where
    "serial (tsa_call K Ls name) view past w0 is' w' (q(i := Answered a))" by auto
  moreover have "pod_fits (Ls j) ((st(i := Making m (Answered a))) j) ((q(i := Answered a)) j)" for j
    using fit [of j] m by (auto simp: pod_fits_def)
  moreover have "complete (view w' name)" if "(st(i := Making m (Answered a))) j = Ended (Ok ())" for j
    using that ok [of j] get_view [OF get] by (cases "j = i") auto
  ultimately show ?thesis unfolding tsa_inv_def by blast
qed

lemma inv_writes:
  assumes inv: "tsa_inv K view past Ls name w0 w st" and i: "st i = Making m (Answered a)"
    and run: "reconcile_answer (ke_secrets K) name (ke_NAMESPACE K) m (ke_order K m) a w = (r, w')"
  shows "tsa_inv K view past Ls name w0 w' (st(i := Ended (or_fatal r)))"
proof -
  from inv obtain q "is" where s: "serial (tsa_call K Ls name) view past w0 is w q"
    and fit: "\<And>i. pod_fits (Ls i) (st i) (q i)" and ok: "\<And>i. st i = Ended (Ok ()) \<Longrightarrow> complete (view w name)"
    unfolding tsa_inv_def by blast
  have q: "q i = Answered a" and m: "tsa_new_data (Ls i) = Ok m" using fit [of i] i by (auto simp: pod_fits_def)
  have made: "made (Ls i) = m" using m by (simp add: made_def)
  from serial_second [OF s q, of r w'] made_order [of i] run obtain is' where
    s': "serial (tsa_call K Ls name) view past w0 is' w' (q(i := Finished r))" by (auto simp: made)
  have fit': "\<forall>j. pod_fits (Ls j) ((st(i := Ended (or_fatal r))) j) ((q(i := Finished r)) j)"
    using fit m by (auto simp: pod_fits_def)
  have snap: "snapshot past name a w" using serial_answered(1) [OF s q] by simp
  have put: "view w' = (view w)(name \<mapsto> merged (view w name) m) \<or> view w' = view w"
    using answer_effect [OF run snap made_order [of i, unfolded made]] by (auto split: if_splits)
  have "complete (view w' name)" if e: "(st(i := Ended (or_fatal r))) j = Ended (Ok ())" for j
  proof (cases "j = i")
    case True
    with e have "(q(i := Finished r)) i = Finished (Ok ())" by simp
    with s' have "i \<in> set is'" unfolding serial_def by blast
    then have "is' \<noteq> []" by auto
    from serial_entries [OF s' fit' this] key_crypto.entries_complete(1) [OF crypto] show ?thesis
      unfolding complete_def by blast
  next
    case False
    have "tsa_complete (merged (view w name) m)"
      by (rule key_crypto.entries_complete(1) [OF crypto key_crypto.merged_entries [OF crypto m]])
    with put ok [of j] e False show ?thesis by (auto simp: complete_def)
  qed
  with s' fit' show ?thesis unfolding tsa_inv_def by blast
qed

lemma overlapped_inv:
  assumes "tsa_overlapped K Ls name w0 w st"
  shows "tsa_inv K view past Ls name w0 w st"
  using assms unfolding tsa_overlapped_def
proof (induction "(w, st)" arbitrary: w st rule: rtranclp_induct)
  case base
  have "serial (tsa_call K Ls name) view past w0 [] w0 (\<lambda>_. Start)" by (simp add: serial_def)
  then show ?case unfolding tsa_inv_def by (intro exI [of _ "\<lambda>_. Start"] exI [of _ "[]"]) (simp add: pod_fits_def)
next
  case (step c)
  obtain w1 st1 where c: "c = (w1, st1)" by (cases c)
  from step(2) [unfolded c] show ?case
    by (rule tsa_stepE) (use step(3) [OF c] in \<open>auto intro: inv_decides inv_reads inv_writes\<close>)
qed

end

section \<open>Two runs at once\<close>

definition etcd_kube :: "etcd kube_env" where
  "etcd_kube = \<lparr>ke_NAMESPACE = ''ns'', ke_InClusterConfig = Ok (), ke_NewForConfig = Ok (), ke_secrets = etcd_if,
     ke_order = sorted_order\<rparr>"

definition two_keys :: "bool \<Rightarrow> (string, string, string) key_lib" where
  "two_keys b = (if b then ref_keys else ref_keys\<lparr>kl_GenerateKey := \<lambda>c. Ok ''k2'', kl_uuid := ''v''\<rparr>)"

definition empty_etcd :: etcd where
  "empty_etcd = \<lparr>et_log = [], et_replies = []\<rparr>"

interpretation two: tsa_runs etcd_kube et_view et_past two_keys ref_opens
proof (intro tsa_runs.intro kube_job.intro tsa_runs_axioms.intro)
  show "secret_api (ke_secrets etcd_kube) et_view" "versioned_api (ke_secrets etcd_kube) et_view et_past"
    by (simp_all add: etcd_kube_def etcd.secret_api_axioms etcd.versioned_api_axioms)
  show "finite (dom m) \<Longrightarrow> range_order m (ke_order etcd_kube m)" for m
    by (simp add: etcd_kube_def sorted_order_range)
  show "key_crypto (two_keys b) ref_opens" for b
    by (cases b) (unfold_locales; auto simp: two_keys_def ref_keys_def ref_opens_def)+
qed

text \<open>Both runs find no secret; then one creates it, and the other one writes its own entries over it.\<close>

lemma two_overlap:
  obtains w' st where "tsa_overlapped etcd_kube two_keys ''tsa'' empty_etcd w' st" "\<forall>b. st b = Ended (Ok ())"
proof -
  let ?step = "tsa_step etcd_kube two_keys ''tsa''" and ?w = empty_etcd
  let ?zero = "\<lparr>sec_Namespace = [], sec_Name = [], sec_ResourceVersion = [], sec_Data = None\<rparr>"
  let ?none = "(Some ?zero, Some (NewErr ''not found''))"
  have "\<exists>m. tsa_new_data (two_keys b) = Ok m" for b
    by (simp add: tsa_new_data_def two_keys_def ref_keys_def or_fatal_def Let_def)
  then obtain m where m: "\<And>b. tsa_new_data (two_keys b) = Ok (m b)" by metis
  let ?w1 = "?w\<lparr>et_log := [(''tsa'', Some (m True))]\<rparr>"
  let ?s = "\<lparr>sec_Namespace = [], sec_Name = ''tsa'', sec_ResourceVersion = itoa 0, sec_Data = Some (m True)\<rparr>"
  let ?found = "(Some ?s, None)"
  note defs = etcd_kube_def etcd_if_def empty_etcd_def et_get_def et_put_def next_reply_def may_create_def may_update_def
  have decide: "tsa_decide etcd_kube (two_keys b) ''tsa'' ?w = (Ok (Some (m b)), ?w)" for b
    using m [of b]
    by (simp add: tsa_decide_def kube_client_def fatal_def or_fatal_def io_bind.simps io_ret_def tsa_complete_def defs)
  have get: "si_Get (ke_secrets etcd_kube) ''tsa'' ?w = (?none, ?w)" "si_Get (ke_secrets etcd_kube) ''tsa'' ?w1 = (?found, ?w1)"
    by (simp_all add: defs)
  have create: "reconcile_answer (ke_secrets etcd_kube) ''tsa'' (ke_NAMESPACE etcd_kube) (m True) (ke_order etcd_kube (m True)) ?none ?w
      = (Ok (), ?w1)"
    by (simp add: reconcile_answer_def reconcile_create_def defs)
  have ord: "range_order (m False) (ke_order etcd_kube (m False))" using two.made_order [of False] m by (simp add: made_def)
  obtain w2 where update: "reconcile_answer (ke_secrets etcd_kube) ''tsa'' (ke_NAMESPACE etcd_kube) (m False) (ke_order etcd_kube (m False)) ?found ?w1
      = (Ok (), w2)"
    using reconcile_fields_eq [OF ord, of "Some (m True)"]
    by (cases "differs (m True) (m False)") (simp_all add: reconcile_answer_def reconcile_existing_def defs)
  let ?st1 = "(\<lambda>_. Booting)(True := Making (m True) Start)"
  let ?st2 = "?st1(False := Making (m False) Start)"
  let ?st3 = "?st2(True := Making (m True) (Answered ?none))" and ?e = "Ended (or_fatal (Ok ()))"
  let ?st4 = "?st3(True := ?e)"
  let ?st5 = "?st4(False := Making (m False) (Answered ?found))"
  have "?step (?w, \<lambda>_. Booting) (?w, ?st1)"
    using pod_decides [where st = "\<lambda>_. Booting" and i = True, OF refl decide] by simp
  moreover have "?step (?w, ?st1) (?w, ?st2)"
    using pod_decides [where st = ?st1 and i = False, OF _ decide] by simp
  moreover have "?step (?w, ?st2) (?w, ?st3)" by (rule pod_reads [where i = True, OF _ get(1)]) simp
  moreover have "?step (?w, ?st3) (?w1, ?st4)" by (rule pod_writes [where i = True, OF _ create]) simp
  moreover have "?step (?w1, ?st4) (?w1, ?st5)" by (rule pod_reads [where i = False, OF _ get(2)]) simp
  moreover have "?step (?w1, ?st5) (w2, ?st5(False := ?e))" by (rule pod_writes [where i = False, OF _ update]) simp
  ultimately have "tsa_overlapped etcd_kube two_keys ''tsa'' ?w w2 (?st5(False := ?e))"
    unfolding tsa_overlapped_def by (meson converse_rtranclp_into_rtranclp rtranclp.rtrancl_refl)
  then show thesis by (rule that) (simp add: all_bool_eq or_fatal_def)
qed

section \<open>Properties\<close>

text \<open>
  C6. Overlapping runs of createcertchain never mix their keys. Whatever runs are under way, each
  with a key, a password and a chain of its own, in whatever order their requests reach the
  server, and whichever of them are refused or lose their answer: the secret of the time stamping
  authority is as it was, or all three entries are those of one and the same run and the stored key
  opens with the stored password; and once a run has reported success, the secret is complete.
\<close>

theorem tsa_overlap_one_key:
  assumes "tsa_runs K view past Ls opens" and "tsa_overlapped K Ls name w w' st"
  shows "(view w' = view w \<or> (\<exists>i d k. view w' name = Some d \<and> entries_of (Ls i) d
       \<and> kl_GenerateKey (Ls i) P256 = Ok k \<and> opens (go_get d signingKeySecretKey) (go_get d signingKeySecretPasswordKey) k))
    \<and> (\<forall>i. st i = Ended (Ok ()) \<longrightarrow> complete (view w' name))"
proof -
  from tsa_runs.overlapped_inv [OF assms] obtain q "is" where
    s: "serial (tsa_call K Ls name) view past w is w' q" and fit: "\<forall>i. pod_fits (Ls i) (st i) (q i)"
    and ok: "\<forall>i. st i = Ended (Ok ()) \<longrightarrow> complete (view w' name)"
    unfolding tsa_inv_def by blast
  show ?thesis
  proof (cases "is = []")
    case True
    with s ok show ?thesis by (simp add: serial_def)
  next
    case False
    from tsa_runs.serial_entries [OF assms(1) s fit False] obtain d where
      d: "view w' name = Some d" "entries_of (Ls (last is)) d" by blast
    with key_crypto.entries_complete(2) [OF tsa_runs.crypto [OF assms(1)] d(2)] ok show ?thesis by blast
  qed
qed

theorem tsa_overlap_one_key_witness:
  "\<exists>w' st b d k. tsa_overlapped etcd_kube two_keys ''tsa'' empty_etcd w' st \<and> st True = Ended (Ok ()) \<and> st False = Ended (Ok ())
    \<and> et_view w' ''tsa'' = Some d \<and> entries_of (two_keys b) d
    \<and> ref_opens (go_get d signingKeySecretKey) (go_get d signingKeySecretPasswordKey) k"
proof -
  obtain w' st where run: "tsa_overlapped etcd_kube two_keys ''tsa'' empty_etcd w' st" "\<forall>b. st b = Ended (Ok ())"
    by (rule two_overlap)
  have "et_view empty_etcd ''tsa'' = None" by (simp add: et_view_def empty_etcd_def)
  with tsa_overlap_one_key [OF two.tsa_runs_axioms run(1)] run show ?thesis unfolding complete_def by fastforce
qed

end
