(* ===== verification/Go_OS.thy ===== *)
theory Go_OS
  imports Go_Prelude
begin

text \<open>
  The part of \<^verbatim>\<open>path/filepath\<close>, \<^verbatim>\<open>os\<close> and \<^verbatim>\<open>io/fs\<close> the TUF tools call. Paths are strings and
  \<open>Clean\<close>, \<open>Join\<close> and \<open>Dir\<close> work on them as the Go functions do on a Unix system. A disk is a
  tree of directories and regular files; links, permissions and times are not modelled. Every
  call on the disk first takes one entry off a fault schedule, so any call can fail.
\<close>

section \<open>path/filepath\<close>

text \<open>\<open>strings.Split(s, "/")\<close> and \<open>strings.Join(ws, "/")\<close>.\<close>

fun split_slash :: "string \<Rightarrow> string list" where
  "split_slash [] = [[]]"
| "split_slash (c # s) =
     (if c = CHR ''/'' then [] # split_slash s
      else (case split_slash s of [] \<Rightarrow> [[c]] | w # ws \<Rightarrow> (c # w) # ws))"

fun join_slash :: "string list \<Rightarrow> string" where
  "join_slash [] = []"
| "join_slash [w] = w"
| "join_slash (w # v # ws) = w @ ''/'' @ join_slash (v # ws)"

text \<open>
  The loop of \<open>filepath.Clean\<close>: the kept elements as a stack, an empty or dot element is
  dropped, a dot-dot element takes the last kept one back, and where there is none it is dropped
  in a rooted path and kept in a relative one.
\<close>

fun clean_stack :: "bool \<Rightarrow> string list \<Rightarrow> string list \<Rightarrow> string list" where
  "clean_stack rooted st [] = rev st"
| "clean_stack rooted st (w # ws) =
     (if w = [] \<or> w = ''.'' then clean_stack rooted st ws
      else if w = ''..''
      then (case st of
              [] \<Rightarrow> clean_stack rooted (if rooted then [] else [''..'']) ws
            | t # ts \<Rightarrow> clean_stack rooted (if t = ''..'' then ''..'' # st else ts) ws)
      else clean_stack rooted (w # st) ws)"

definition is_rooted :: "string \<Rightarrow> bool" where
  "is_rooted s = HasPrefix s ''/''"

definition Clean :: "string \<Rightarrow> string" where
  "Clean s =
     (let cs = clean_stack (is_rooted s) [] (split_slash s)
      in if is_rooted s then CHR ''/'' # join_slash cs
         else if cs = [] then ''.'' else join_slash cs)"

definition Join :: "string list \<Rightarrow> string" where
  "Join es = (case dropWhile (\<lambda>e. e = []) es of [] \<Rightarrow> [] | es' \<Rightarrow> Clean (join_slash es'))"

text \<open>\<open>filepath.Dir\<close> and \<open>filepath.Base\<close>-like access to the last element of a clean path.\<close>

definition upto_slash :: "string \<Rightarrow> string" where
  "upto_slash s = rev (dropWhile (\<lambda>c. c \<noteq> CHR ''/'') (rev s))"

definition Dir_of :: "string \<Rightarrow> string" where
  "Dir_of s = Clean (upto_slash s)"

section \<open>A tree of files\<close>

datatype fnode = File bytes | Dir "(string \<times> fnode) list"

type_synonym path = "string list"

text \<open>Where the kernel finds a path: relative to the working directory unless it is rooted.\<close>

definition resolve :: "path \<Rightarrow> string \<Rightarrow> path" where
  "resolve cwd s = clean_stack True (if is_rooted s then [] else rev cwd) (split_slash s)"

fun fs_get :: "fnode \<Rightarrow> path \<Rightarrow> fnode option" where
  "fs_get n [] = Some n"
| "fs_get (File b) (x # xs) = None"
| "fs_get (Dir es) (x # xs) = (case map_of es x of None \<Rightarrow> None | Some n \<Rightarrow> fs_get n xs)"

text \<open>The entries of a directory stay sorted by name, as \<open>os.ReadDir\<close> returns them.\<close>

fun put_entry :: "string \<Rightarrow> fnode \<Rightarrow> (string \<times> fnode) list \<Rightarrow> (string \<times> fnode) list" where
  "put_entry x n [] = [(x, n)]"
| "put_entry x n ((y, m) # es) =
     (if x < y then (x, n) # (y, m) # es
      else if x = y then (x, n) # es
      else (y, m) # put_entry x n es)"

text \<open>Put a node at a path whose parent directory exists.\<close>

fun fs_put :: "fnode \<Rightarrow> path \<Rightarrow> fnode \<Rightarrow> fnode option" where
  "fs_put t [] n = Some n"
| "fs_put (File b) (x # xs) n = None"
| "fs_put (Dir es) [x] n = Some (Dir (put_entry x n es))"
| "fs_put (Dir es) (x # y # ys) n =
     (case map_of es x of
        None \<Rightarrow> None
      | Some c \<Rightarrow> map_option (\<lambda>c'. Dir (put_entry x c' es)) (fs_put c (y # ys) n))"

text \<open>Make every directory on the way to a path; a regular file on the way is an error.\<close>

fun fs_mkdirs :: "fnode \<Rightarrow> path \<Rightarrow> fnode option" where
  "fs_mkdirs (Dir es) [] = Some (Dir es)"
| "fs_mkdirs (File b) xs = None"
| "fs_mkdirs (Dir es) (x # xs) =
     map_option (\<lambda>c'. Dir (put_entry x c' es))
       (fs_mkdirs (case map_of es x of None \<Rightarrow> Dir [] | Some c \<Rightarrow> c) xs)"

text \<open>What is at a path, without looking below a directory.\<close>

datatype fkind = KDir | KFile bytes

fun kind_of :: "fnode \<Rightarrow> fkind" where
  "kind_of (File b) = KFile b"
| "kind_of (Dir es) = KDir"

definition fs_kind :: "fnode \<Rightarrow> path \<Rightarrow> fkind option" where
  "fs_kind t p = map_option kind_of (fs_get t p)"

text \<open>Directories with sorted, distinct names, all the way down.\<close>

fun fs_wf :: "fnode \<Rightarrow> bool" where
  "fs_wf (File b) = True"
| "fs_wf (Dir es) = (sorted_wrt (\<lambda>a b. fst a < fst b) es \<and> (\<forall>e \<in> set es. fs_wf (snd e)))"

section \<open>os\<close>

record disk =
  dk_root :: fnode
  dk_cwd :: path
  dk_faults :: "goerr option list"

definition disk_fault :: "disk \<Rightarrow> goerr option \<times> disk" where
  "disk_fault d =
     (case dk_faults d of [] \<Rightarrow> (None, d) | f # fs \<Rightarrow> (f, d\<lparr>dk_faults := fs\<rparr>))"

definition ENOENT :: goerr where "ENOENT = NewErr ''no such file or directory''"
definition EEXIST :: goerr where "EEXIST = NewErr ''file exists''"
definition ENOTDIR :: goerr where "ENOTDIR = NewErr ''not a directory''"
definition EISDIR :: goerr where "EISDIR = NewErr ''is a directory''"

text \<open>A call that reads the tree at a path, and one that replaces the tree.\<close>

definition os_read :: "(fnode option \<Rightarrow> 'a go) \<Rightarrow> string \<Rightarrow> (disk, 'a) io" where
  "os_read f s d =
     (case disk_fault d of
        (Some e, d') \<Rightarrow> (Fail e, d')
      | (None, d') \<Rightarrow> (f (fs_get (dk_root d) (resolve (dk_cwd d) s)), d'))"

definition os_write :: "(fnode \<Rightarrow> path \<Rightarrow> goerr + fnode) \<Rightarrow> string \<Rightarrow> (disk, unit) io" where
  "os_write f s d =
     (case disk_fault d of
        (Some e, d') \<Rightarrow> (Fail e, d')
      | (None, d') \<Rightarrow>
          (case f (dk_root d) (resolve (dk_cwd d) s) of
             Inl e \<Rightarrow> (Fail e, d')
           | Inr t \<Rightarrow> (Ok (), d'\<lparr>dk_root := t\<rparr>)))"

definition os_Stat :: "string \<Rightarrow> (disk, fkind) io" where
  "os_Stat = os_read (\<lambda>n. case n of None \<Rightarrow> Fail ENOENT | Some m \<Rightarrow> Ok (kind_of m))"

definition os_ReadFile :: "string \<Rightarrow> (disk, bytes) io" where
  "os_ReadFile = os_read (\<lambda>n. case n of
     None \<Rightarrow> Fail ENOENT | Some (File b) \<Rightarrow> Ok b | Some (Dir _) \<Rightarrow> Fail EISDIR)"

definition os_ReadDir :: "string \<Rightarrow> (disk, (string \<times> bool) list) io" where
  "os_ReadDir = os_read (\<lambda>n. case n of
     None \<Rightarrow> Fail ENOENT
   | Some (File _) \<Rightarrow> Fail ENOTDIR
   | Some (Dir es) \<Rightarrow> Ok (map (\<lambda>(x, m). (x, kind_of m = KDir)) es))"

definition os_Mkdir :: "string \<Rightarrow> (disk, unit) io" where
  "os_Mkdir = os_write (\<lambda>t p.
     if fs_get t p \<noteq> None then Inl EEXIST
     else (case fs_put t p (Dir []) of None \<Rightarrow> Inl ENOENT | Some t' \<Rightarrow> Inr t'))"

definition os_MkdirAll :: "string \<Rightarrow> (disk, unit) io" where
  "os_MkdirAll = os_write (\<lambda>t p. case fs_mkdirs t p of None \<Rightarrow> Inl ENOTDIR | Some t' \<Rightarrow> Inr t')"

text \<open>Replace the contents of a regular file, or create it: \<open>os.OpenFile\<close> with truncation.\<close>

definition set_file :: "bytes \<Rightarrow> fnode \<Rightarrow> path \<Rightarrow> goerr + fnode" where
  "set_file b t p =
     (case fs_get t p of
        Some (Dir _) \<Rightarrow> Inl EISDIR
      | _ \<Rightarrow> (case fs_put t p (File b) of None \<Rightarrow> Inl ENOENT | Some t' \<Rightarrow> Inr t'))"

definition os_OpenTrunc :: "string \<Rightarrow> (disk, unit) io" where
  "os_OpenTrunc = os_write (set_file [])"

text \<open>A write at the end of an open file.\<close>

definition file_append :: "bytes \<Rightarrow> fnode \<Rightarrow> path \<Rightarrow> goerr + fnode" where
  "file_append b t p =
     (case fs_get t p of
        Some (File a) \<Rightarrow> set_file (a @ b) t p
      | Some (Dir _) \<Rightarrow> Inl EISDIR
      | None \<Rightarrow> Inl ENOENT)"

definition os_Append :: "string \<Rightarrow> bytes \<Rightarrow> (disk, unit) io" where
  "os_Append s b = os_write (file_append b) s"

definition os_Close :: "string \<Rightarrow> (disk, unit) io" where
  "os_Close s = os_write (\<lambda>t p. Inr t) s"

definition os_WriteFile :: "string \<Rightarrow> bytes \<Rightarrow> (disk, unit) io" where
  "os_WriteFile s b = io_bind (os_OpenTrunc s) (\<lambda>_. os_Append s b)"

section \<open>Lemmas on paths\<close>

text \<open>An element a clean rooted path can have.\<close>

definition normal :: "string \<Rightarrow> bool" where
  "normal w \<longleftrightarrow> w \<noteq> [] \<and> w \<noteq> ''.'' \<and> w \<noteq> ''..'' \<and> CHR ''/'' \<notin> set w"

lemma split_slash_nonempty [simp]: "split_slash s \<noteq> []"
  by (cases s) (auto split: list.splits)

lemma split_slash_append: "split_slash (a @ CHR ''/'' # b) = split_slash a @ split_slash b"
proof (induction a)
  case (Cons c a)
  then show ?case by (cases "split_slash a") auto
qed simp

lemma split_slash_plain: "CHR ''/'' \<notin> set w \<Longrightarrow> split_slash w = [w]"
  by (induction w) auto

lemma split_slash_no_slash: "w \<in> set (split_slash s) \<Longrightarrow> CHR ''/'' \<notin> set w"
proof (induction s arbitrary: w)
  case (Cons c s)
  then show ?case by (cases "split_slash s") (auto split: if_splits)
qed simp

lemma split_join_slash:
  "ws \<noteq> [] \<Longrightarrow> \<forall>w \<in> set ws. CHR ''/'' \<notin> set w \<Longrightarrow> split_slash (join_slash ws) = ws"
proof (induction ws rule: join_slash.induct)
  case (3 w v ws)
  then show ?case using split_slash_append [of w] by (simp add: split_slash_plain)
qed (simp_all add: split_slash_plain)

lemma join_split_slash: "join_slash (split_slash s) = s"
proof (induction s)
  case (Cons c s)
  show ?case
  proof (cases "split_slash s")
    case (Cons w ws)
    with Cons.IH show ?thesis by (cases ws) auto
  qed simp
qed simp

lemma clean_stack_append:
  "clean_stack r st (xs @ ys) = clean_stack r (rev (clean_stack r st xs)) ys"
  by (induction r st xs rule: clean_stack.induct) (auto split: list.splits)

lemma clean_stack_normal: "\<forall>w \<in> set ws. normal w \<Longrightarrow> clean_stack r st ws = rev st @ ws"
  by (induction ws arbitrary: st) (auto simp: normal_def)

lemma clean_stack_all_normal:
  assumes "\<forall>w \<in> set st. normal w" and "\<forall>w \<in> set ws. CHR ''/'' \<notin> set w"
  shows "\<forall>w \<in> set (clean_stack True st ws). normal w"
  using assms
proof (induction ws arbitrary: st)
  case (Cons w ws)
  have tail: "\<forall>v \<in> set ws. CHR ''/'' \<notin> set v" and w: "CHR ''/'' \<notin> set w" using Cons.prems by auto
  have keep: "\<forall>v \<in> set (w # st). normal v" if "w \<noteq> []" "w \<noteq> ''.''" "w \<noteq> ''..''"
    using that w Cons.prems(1) by (simp add: normal_def)
  have pop: "clean_stack True st (''..'' # ws) = clean_stack True (tl st) ws"
    using Cons.prems(1) by (cases st) (auto simp: normal_def)
  have pop_normal: "\<forall>v \<in> set (tl st). normal v" using Cons.prems(1) by (cases st) auto
  consider "w = [] \<or> w = ''.''" | "w = ''..''" | "w \<noteq> []" "w \<noteq> ''.''" "w \<noteq> ''..''" by blast
  then show ?case
  proof cases
    case 1
    with Cons.IH [OF Cons.prems(1) tail] show ?thesis by simp
  next
    case 2
    with Cons.IH [OF pop_normal tail] show ?thesis by (simp only: pop)
  next
    case 3
    with Cons.IH [OF keep tail] show ?thesis by simp
  qed
qed simp

lemma is_rooted_Cons: "is_rooted s \<longleftrightarrow> (\<exists>t. s = CHR ''/'' # t)"
  by (cases s) (auto simp: is_rooted_def)

lemma resolve_normal: "\<forall>w \<in> set cwd. normal w \<Longrightarrow> w \<in> set (resolve cwd s) \<Longrightarrow> normal w"
  unfolding resolve_def
  using clean_stack_all_normal [of "if is_rooted s then [] else rev cwd" "split_slash s"]
    split_slash_no_slash [of _ s] by auto

text \<open>A clean rooted path is the slash form of its elements.\<close>

definition abs_path :: "path \<Rightarrow> string" where
  "abs_path p = CHR ''/'' # join_slash p"

lemma Clean_rooted: "is_rooted s \<Longrightarrow> Clean s = abs_path (resolve cwd s)"
  by (simp add: Clean_def abs_path_def resolve_def)

lemma resolve_abs_path: "\<forall>w \<in> set p. normal w \<Longrightarrow> resolve cwd (abs_path p) = p"
proof (cases "p = []")
  case False
  assume n: "\<forall>w \<in> set p. normal w"
  then have "split_slash (join_slash p) = p"
    using False by (intro split_join_slash) (auto simp: normal_def)
  then show ?thesis
    using n by (simp add: resolve_def abs_path_def is_rooted_def clean_stack_normal)
qed (simp add: resolve_def abs_path_def is_rooted_def)

lemma abs_path_rooted [simp]: "is_rooted (abs_path p)"
  by (simp add: abs_path_def is_rooted_def)

lemma length_join_slash: "length (join_slash ws) = sum_list (map length ws) + (length ws - 1)"
  by (induction ws rule: join_slash.induct) auto

lemma join_slash_append:
  "ws \<noteq> [] \<Longrightarrow> vs \<noteq> [] \<Longrightarrow> join_slash (ws @ vs) = join_slash ws @ ''/'' @ join_slash vs"
proof (induction ws rule: join_slash.induct)
  case (2 w)
  then show ?case by (cases vs) auto
qed auto

text \<open>\<open>Join\<close> of a rooted directory and a relative name.\<close>

lemma Join_rooted:
  assumes "is_rooted dst"
  shows "Join [dst, s] = abs_path (clean_stack True (rev (resolve [] dst)) (split_slash s))"
proof -
  have dst: "dst \<noteq> []" using assms by (auto simp: is_rooted_Cons)
  then have r: "is_rooted (dst @ CHR ''/'' # s)" using assms by (auto simp: is_rooted_Cons)
  have "Join [dst, s] = Clean (dst @ CHR ''/'' # s)" using dst by (simp add: Join_def)
  also have "\<dots> = abs_path (clean_stack True [] (split_slash (dst @ CHR ''/'' # s)))"
    using r by (simp add: Clean_def abs_path_def)
  also have "clean_stack True [] (split_slash (dst @ CHR ''/'' # s)) =
      clean_stack True (rev (resolve [] dst)) (split_slash s)"
    using assms by (simp add: split_slash_append clean_stack_append resolve_def)
  finally show ?thesis .
qed

lemma resolve_rooted: "is_rooted s \<Longrightarrow> resolve cwd s = resolve [] s"
  by (simp add: resolve_def)

lemma resolve_rooted_normal: "is_rooted s \<Longrightarrow> \<forall>w \<in> set (resolve cwd s). normal w"
  using resolve_normal [of "[]" _ s] resolve_rooted [of s cwd] by auto

lemma resolve_Join_rooted:
  assumes "is_rooted dst"
  shows "resolve cwd (Join [dst, s]) = clean_stack True (rev (resolve [] dst)) (split_slash s)"
proof -
  have "\<forall>w \<in> set (clean_stack True (rev (resolve [] dst)) (split_slash s)). normal w"
    using resolve_rooted_normal [OF assms, of "[]"] split_slash_no_slash [of _ s]
    by (intro clean_stack_all_normal) auto
  then show ?thesis by (simp add: Join_rooted [OF assms] resolve_abs_path)
qed

section \<open>Lemmas on the tree\<close>

lemma map_of_put_entry [simp]: "map_of (put_entry x n es) = (map_of es)(x \<mapsto> n)"
  by (induction x n es rule: put_entry.induct) (auto simp: fun_upd_twist)

lemma put_entry_twice: "put_entry x n (put_entry x m es) = put_entry x n es"
  by (induction x m es rule: put_entry.induct) auto

lemma set_put_entry: "set (put_entry x n es) \<subseteq> insert (x, n) (set es)"
  by (induction x n es rule: put_entry.induct) auto

lemma put_entry_sorted:
  "sorted_wrt (\<lambda>a b. fst a < fst b) es \<Longrightarrow> sorted_wrt (\<lambda>a b. fst a < fst b) (put_entry x n es)"
proof (induction x n es rule: put_entry.induct)
  case (2 x n y m es)
  have "\<forall>e \<in> set (put_entry x n es). y < fst e" if "y < x"
    using set_put_entry [of x n es] 2(2) that by auto
  with 2 show ?case by (auto simp: not_less order.strict_iff_order)
qed simp

lemma fs_wf_lookup: "fs_wf (Dir es) \<Longrightarrow> map_of es x = Some n \<Longrightarrow> fs_wf n"
  using map_of_SomeD [of es x n] by fastforce

lemma fs_wf_put_entry: "fs_wf (Dir es) \<Longrightarrow> fs_wf n \<Longrightarrow> fs_wf (Dir (put_entry x n es))"
  using set_put_entry [of x n es] by (auto simp: put_entry_sorted)

lemma fs_put_wf: "fs_put t p n = Some t' \<Longrightarrow> fs_wf t \<Longrightarrow> fs_wf n \<Longrightarrow> fs_wf t'"
proof (induction t p n arbitrary: t' rule: fs_put.induct)
  case (4 es x y ys n)
  then obtain c c' where c: "map_of es x = Some c" "fs_put c (y # ys) n = Some c'"
    and t': "t' = Dir (put_entry x c' es)" by (auto split: option.splits)
  have "fs_wf c'" using 4(1) [OF c(1,2)] fs_wf_lookup [OF 4(3) c(1)] 4(4) by blast
  then show ?case using 4(3) unfolding t' by (rule fs_wf_put_entry [rotated])
qed (auto intro: fs_wf_put_entry simp del: fs_wf.simps(2))

lemma fs_mkdirs_wf: "fs_mkdirs t p = Some t' \<Longrightarrow> fs_wf t \<Longrightarrow> fs_wf t'"
proof (induction t p arbitrary: t' rule: fs_mkdirs.induct)
  case (3 es x xs)
  then obtain c' where c': "fs_mkdirs (case map_of es x of None \<Rightarrow> Dir [] | Some c \<Rightarrow> c) xs = Some c'"
    and t': "t' = Dir (put_entry x c' es)" by auto
  have "fs_wf (case map_of es x of None \<Rightarrow> Dir [] | Some c \<Rightarrow> c)"
    using fs_wf_lookup [OF 3(3)] by (auto split: option.splits)
  from 3(1) [OF c' this] 3(3) show ?case unfolding t' by (rule fs_wf_put_entry [rotated])
qed auto

lemma fs_get_append: "fs_get t (p @ q) = (case fs_get t p of None \<Rightarrow> None | Some n \<Rightarrow> fs_get n q)"
  by (induction t p rule: fs_get.induct) (auto split: option.splits)

lemma fs_kind_simps [simp]:
  "fs_kind n [] = Some (kind_of n)"
  "fs_kind (File b) (x # xs) = None"
  "fs_kind (Dir es) (x # xs) = (case map_of es x of None \<Rightarrow> None | Some n \<Rightarrow> fs_kind n xs)"
  by (auto simp: fs_kind_def split: option.splits)

lemma fs_get_put: "fs_put t p n = Some t' \<Longrightarrow> fs_get t' (p @ q) = fs_get n q"
  by (induction t p n arbitrary: t' rule: fs_put.induct) (auto split: option.splits)

lemma fs_kind_put_other:
  "fs_put t p n = Some t' \<Longrightarrow> \<not> prefix p q \<Longrightarrow> fs_kind t' q = fs_kind t q"
proof (induction t p n arbitrary: t' q rule: fs_put.induct)
  case (3 es x n)
  then show ?case by (cases q) auto
next
  case (4 es x y ys n)
  then obtain c c' where "map_of es x = Some c" "fs_put c (y # ys) n = Some c'"
    and "t' = Dir (put_entry x c' es)" by (auto split: option.splits)
  with 4 show ?case by (cases q) auto
qed auto

lemma fs_kind_mkdirs:
  "fs_mkdirs t p = Some t' \<Longrightarrow> fs_kind t' q = (if prefix q p then Some KDir else fs_kind t q)"
proof (induction t p arbitrary: t' q rule: fs_mkdirs.induct)
  case (3 es x xs)
  then obtain c' where "fs_mkdirs (case map_of es x of None \<Rightarrow> Dir [] | Some c \<Rightarrow> c) xs = Some c'"
    and "t' = Dir (put_entry x c' es)" by auto
  with 3(1) [of c' "tl q"] show ?case
    by (cases q) (auto split: option.splits, metis fs_kind_simps(3) list.exhaust map_of.simps(1) option.simps(4) prefix_bot.extremum bot_list_def)
qed (cases q; auto)+

section \<open>Lemmas on the calls\<close>

lemma Join_many:
  assumes "is_rooted dir" and "ws \<noteq> []" and "\<forall>w \<in> set ws. normal w"
  shows "Join (dir # ws) = abs_path (resolve [] dir @ ws)" "resolve cwd (Join (dir # ws)) = resolve [] dir @ ws"
proof -
  have "dir \<noteq> []" using assms(1) by (auto simp: is_rooted_Cons)
  then have "Join (dir # ws) = Join [dir, join_slash ws]"
    using assms(2) by (cases ws) (simp_all add: Join_def)
  moreover have "split_slash (join_slash ws) = ws"
    using assms(2,3) by (intro split_join_slash) (auto simp: normal_def)
  ultimately show "Join (dir # ws) = abs_path (resolve [] dir @ ws)"
    "resolve cwd (Join (dir # ws)) = resolve [] dir @ ws"
    using assms resolve_rooted_normal [OF assms(1), of "[]"]
    by (auto simp: Join_rooted clean_stack_normal intro!: resolve_abs_path)
qed

lemma Dir_of_abs_path:
  assumes "\<forall>w \<in> set (p @ [x]). normal w"
  shows "Dir_of (abs_path (p @ [x])) = abs_path p"
proof -
  have x: "CHR ''/'' \<notin> set x" using assms by (simp add: normal_def)
  have up: "upto_slash (a @ CHR ''/'' # x) = a @ ''/''" for a
  proof -
    have "dropWhile (\<lambda>c. c \<noteq> CHR ''/'') (rev x @ CHR ''/'' # rev a) = CHR ''/'' # rev a"
      using x by (subst dropWhile_append2) auto
    then show ?thesis by (simp add: upto_slash_def)
  qed
  show ?thesis
  proof (cases "p = []")
    case True
    with up [of "[]"] show ?thesis by (simp add: Dir_of_def abs_path_def Clean_def is_rooted_def)
  next
    case False
    have n: "\<forall>w \<in> set p. normal w" using assms by simp
    have sp: "split_slash (join_slash p @ ''/'') = p @ [[]]"
      using split_slash_append [of "join_slash p" "[]"] split_join_slash [OF False] n
      by (auto simp: normal_def)
    have cl: "clean_stack True [] (p @ [[]]) = p"
      using clean_stack_normal [OF n, of True "[]"] by (simp add: clean_stack_append)
    have "abs_path (p @ [x]) = (CHR ''/'' # join_slash p) @ CHR ''/'' # x"
      using False by (simp add: abs_path_def join_slash_append)
    then have "Dir_of (abs_path (p @ [x])) = Clean (CHR ''/'' # join_slash p @ ''/'')"
      unfolding Dir_of_def using up [of "CHR ''/'' # join_slash p"] by simp
    then show ?thesis
      using sp cl by (simp add: Clean_def is_rooted_def abs_path_def)
  qed
qed

lemma set_file_put: "set_file b t p = Inr t' \<Longrightarrow> fs_put t p (File b) = Some t'"
  by (auto simp: set_file_def split: option.splits fnode.splits)

lemma os_read_root:
  "os_read f s d = (r, d') \<Longrightarrow> dk_root d' = dk_root d \<and> dk_cwd d' = dk_cwd d"
  by (auto simp: os_read_def disk_fault_def split: list.splits option.splits)

lemma os_write_root:
  assumes "os_write f s d = (r, d')"
  shows "dk_cwd d' = dk_cwd d \<and>
    (dk_root d' = dk_root d \<or> f (dk_root d) (resolve (dk_cwd d) s) = Inr (dk_root d'))"
  using assms by (auto simp: os_write_def disk_fault_def split: list.splits option.splits sum.splits)

lemma os_write_Ok:
  "os_write f s d = (Ok (), d') \<Longrightarrow>
     dk_cwd d' = dk_cwd d \<and> f (dk_root d) (resolve (dk_cwd d) s) = Inr (dk_root d')"
  by (auto simp: os_write_def disk_fault_def split: list.splits option.splits sum.splits)

lemma file_append_frame:
  "file_append b t p = Inr t' \<Longrightarrow> \<not> prefix p q \<Longrightarrow> fs_kind t' q = fs_kind t q"
  by (auto simp: file_append_def split: option.splits fnode.splits
      dest!: set_file_put dest: fs_kind_put_other)

lemma WriteFile_frame:
  assumes "os_WriteFile s b d = (r, d')" and "\<not> prefix (resolve (dk_cwd d) s) q"
  shows "dk_cwd d' = dk_cwd d \<and> fs_kind (dk_root d') q = fs_kind (dk_root d) q"
proof -
  obtain x d1 where o: "os_OpenTrunc s d = (x, d1)" by (metis prod.collapse)
  note r1 = os_write_root [OF o [unfolded os_OpenTrunc_def]]
  have k1: "fs_kind (dk_root d1) q = fs_kind (dk_root d) q"
    using r1 assms(2) by (auto dest!: set_file_put dest: fs_kind_put_other)
  show ?thesis
  proof (cases "\<exists>u. x = Ok u")
    case True
    then have "os_Append s b d1 = (r, d')" using assms(1) o by (auto simp: os_WriteFile_def)
    from os_write_root [OF this [unfolded os_Append_def]] r1 k1 assms(2) show ?thesis
      by (auto dest: file_append_frame)
  next
    case False
    with assms(1) o have "d' = d1" by (auto simp: os_WriteFile_def split: go.splits)
    with r1 k1 show ?thesis by simp
  qed
qed

lemma WriteFile_Ok:
  assumes "os_WriteFile s b d = (Ok (), d')"
  shows "dk_cwd d' = dk_cwd d \<and> fs_kind (dk_root d') (resolve (dk_cwd d) s) = Some (KFile b)"
proof -
  obtain d1 where o: "os_OpenTrunc s d = (Ok (), d1)" and a: "os_Append s b d1 = (Ok (), d')"
    using assms by (auto simp: os_WriteFile_def split: prod.splits go.splits)
  note r1 = os_write_Ok [OF o [unfolded os_OpenTrunc_def]] and r2 = os_write_Ok [OF a [unfolded os_Append_def]]
  have "fs_get (dk_root d1) (resolve (dk_cwd d) s) = Some (File [])"
    using r1 fs_get_put [OF set_file_put, of "[]" _ _ _ "[]"] by fastforce
  with r1 r2 have "set_file b (dk_root d1) (resolve (dk_cwd d) s) = Inr (dk_root d')"
    by (simp add: file_append_def)
  from fs_get_put [OF set_file_put [OF this], of "[]"] r1 r2 show ?thesis
    by (simp add: fs_kind_def)
qed

lemma MkdirAll_frame:
  assumes "os_MkdirAll s d = (r, d')" and "\<not> prefix q (resolve (dk_cwd d) s)"
  shows "dk_cwd d' = dk_cwd d \<and> fs_kind (dk_root d') q = fs_kind (dk_root d) q"
  using os_write_root [OF assms(1) [unfolded os_MkdirAll_def]] assms(2)
  by (auto split: option.splits simp: fs_kind_mkdirs)

end
