(* ===== verification/Tuf_Archive.thy ===== *)
theory Tuf_Archive
  imports Go_OS Text_Codec
begin

text \<open>
  The archive part of \<^verbatim>\<open>tools/tuf/pkg/repo/repo.go\<close>: \<open>CompressFS\<close>, which walks a TUF repository
  and writes a tar stream, and \<open>validRelPath\<close> and \<open>Uncompress\<close>, which unpack one into a
  directory. The byte formats of tar and gzip are a parameter; a stream is the list of its
  entries, and reading one can stop with an error at any point. The theorems: an unpacked
  archive cannot change anything outside the target directory, whatever it holds and wherever
  it fails, and unpacking what \<open>CompressFS\<close> wrote gives the tree back without the skipped
  directories.
\<close>

section \<open>Tar streams\<close>

datatype typeflag = TypeDir | TypeReg | TypeOther string

text \<open>
  A header and what reading its data gives: the bytes, and the error other than \<^verbatim>\<open>io.EOF\<close> the
  read ends with, if any.
\<close>

record tar_entry =
  te_Name :: string
  te_Typeflag :: typeflag
  te_Data :: bytes
  te_ReadErr :: "goerr option"

record tar_stream =
  ts_entries :: "tar_entry list"
  ts_err :: "goerr option"

text \<open>The two codecs: \<open>gzip\<close> over \<open>tar\<close> as written, and as read back.\<close>

record tar_codec =
  tc_write :: "tar_entry list \<Rightarrow> bytes"
  tc_read :: "bytes \<Rightarrow> tar_stream go"

section \<open>CompressFS\<close>

text \<open>
  What can fail while a file system is archived, by the path it fails at: \<open>fs.Stat\<close>,
  \<open>tar.FileInfoHeader\<close>, \<open>tw.WriteHeader\<close> (an entry tar cannot encode), \<open>fsys.Open\<close>, \<open>io.Copy\<close>, the
  listing of a directory (an error after the first \<open>k\<close> entries) and the two \<open>Close\<close> calls.
\<close>

record walk_env =
  we_RootStat :: "goerr option"
  we_Stat :: "string \<Rightarrow> goerr option"
  we_FileInfoHeader :: "string \<Rightarrow> goerr option"
  we_WriteHeader :: "string \<Rightarrow> goerr option"
  we_Open :: "string \<Rightarrow> goerr option"
  we_Copy :: "string \<Rightarrow> goerr option"
  we_ReadDir :: "string \<Rightarrow> (goerr \<times> nat) option"
  we_TarClose :: "goerr option"
  we_GzipClose :: "goerr option"

text \<open>What the callback returns: nil, \<open>filepath.SkipDir\<close>, or an error.\<close>

datatype cb = CbNil | CbSkip | CbErr goerr

definition dir_entry :: "string \<Rightarrow> tar_entry" where
  "dir_entry f = \<lparr>te_Name = f, te_Typeflag = TypeDir, te_Data = [], te_ReadErr = None\<rparr>"

definition reg_entry :: "string \<Rightarrow> bytes \<Rightarrow> tar_entry" where
  "reg_entry f b = \<lparr>te_Name = f, te_Typeflag = TypeReg, te_Data = b, te_ReadErr = None\<rparr>"

text \<open>
  The callback of \<open>WalkDir\<close> (lines 553 to 583) at the path \<open>f\<close> with entry name \<open>nm\<close> and node \<open>n\<close>;
  \<open>err\<close> is the error the walk reports. When \<open>WriteHeader\<close> fails the callback returns \<open>err\<close>.
\<close>

definition visit ::
  "walk_env \<Rightarrow> (string \<Rightarrow> bool) \<Rightarrow> string \<Rightarrow> string \<Rightarrow> fnode \<Rightarrow> goerr option \<Rightarrow> tar_entry list
    \<Rightarrow> cb \<times> tar_entry list" where
  "visit E skipDirs f nm n err out =
     (if kind_of n = KDir \<and> skipDirs nm then (CbSkip, out)
      else case we_Stat E f of
        Some e \<Rightarrow> (CbErr (Wrap (''fs.Stat '' @ f) e), out)
      | None \<Rightarrow> (case we_FileInfoHeader E f of
          Some e \<Rightarrow> (CbErr (Wrap (''FileInfoHeader '' @ f) e), out)
        | None \<Rightarrow> (case we_WriteHeader E f of
            Some _ \<Rightarrow> ((case err of None \<Rightarrow> CbNil | Some e \<Rightarrow> CbErr e), out)
          | None \<Rightarrow> (case n of
              Dir _ \<Rightarrow> (CbNil, out @ [dir_entry f])
            | File b \<Rightarrow> (case we_Open E f of
                Some e \<Rightarrow> (CbErr (Wrap (''opening '' @ f) e), out @ [reg_entry f []])
              | None \<Rightarrow> (case we_Copy E f of
                  Some e \<Rightarrow> (CbErr (Wrap (''copying '' @ f) e), out @ [reg_entry f []])
                | None \<Rightarrow> (CbNil, out @ [reg_entry f b])))))))"

text \<open>\<open>fs.WalkDir\<close> below a node, the entries of a directory in the order of its listing.\<close>

fun walk ::
  "walk_env \<Rightarrow> (string \<Rightarrow> bool) \<Rightarrow> string \<Rightarrow> string \<Rightarrow> fnode \<Rightarrow> tar_entry list \<Rightarrow> cb \<times> tar_entry list"
and walk_entries ::
  "walk_env \<Rightarrow> (string \<Rightarrow> bool) \<Rightarrow> string \<Rightarrow> nat \<Rightarrow> (string \<times> fnode) list \<Rightarrow> tar_entry list
    \<Rightarrow> cb \<times> tar_entry list" where
  "walk E skipDirs f nm (File b) out = visit E skipDirs f nm (File b) None out"
| "walk E skipDirs f nm (Dir es) out =
     (case visit E skipDirs f nm (Dir es) None out of
        (CbSkip, o1) \<Rightarrow> (CbNil, o1)
      | (CbErr e, o1) \<Rightarrow> (CbErr e, o1)
      | (CbNil, o1) \<Rightarrow>
          (case we_ReadDir E f of
             None \<Rightarrow> walk_entries E skipDirs f (length es) es o1
           | Some (e, k) \<Rightarrow>
               (case visit E skipDirs f nm (Dir es) (Some e) o1 of
                  (CbSkip, o2) \<Rightarrow> (CbNil, o2)
                | (CbErr e', o2) \<Rightarrow> (CbErr e', o2)
                | (CbNil, o2) \<Rightarrow> walk_entries E skipDirs f k es o2)))"
| "walk_entries E skipDirs f k [] out = (CbNil, out)"
| "walk_entries E skipDirs f 0 (e # es) out = (CbNil, out)"
| "walk_entries E skipDirs f (Suc k) ((x, n) # es) out =
     (case walk E skipDirs (Join [f, x]) x n out of
        (CbNil, o1) \<Rightarrow> walk_entries E skipDirs f k es o1
      | (CbSkip, o1) \<Rightarrow> (CbNil, o1)
      | (CbErr e, o1) \<Rightarrow> (CbErr e, o1))"

text \<open>
  \<open>CompressFS\<close>: the outcome and the entries written. When the root cannot be read the walk
  calls the callback with a nil directory entry, which the callback dereferences.
\<close>

definition CompressFS ::
  "walk_env \<Rightarrow> (string \<Rightarrow> bool) \<Rightarrow> fnode \<Rightarrow> unit go \<times> tar_entry list" where
  "CompressFS E skipDirs fsys =
     (case (we_RootStat E, fs_get fsys [''repository'']) of
        (None, Some n) \<Rightarrow>
          (case walk E skipDirs ''repository'' ''repository'' n [] of
             (CbErr e, out) \<Rightarrow> (Fail (Wrap ''WalkDir'' e), out)
           | (_, out) \<Rightarrow>
               (case we_TarClose E of
                  Some e \<Rightarrow> (Fail (Wrap ''tar.NewWriter Close()'' e), out)
                | None \<Rightarrow> (case we_GzipClose E of None \<Rightarrow> (Ok (), out) | Some e \<Rightarrow> (Fail e, out))))
      | _ \<Rightarrow> (Panic ''nil pointer dereference'', []))"

section \<open>Uncompress\<close>

definition validRelPath :: "string \<Rightarrow> bool" where
  "validRelPath p =
     (if p = [] \<or> Contains p [CHR 0x5C] \<or> HasPrefix p ''/'' \<or> Contains p ''../'' then False else True)"

text \<open>The loop of \<open>io.CopyN\<close> calls of 1024 bytes, lines 655 to 663.\<close>

function copy_chunks :: "string \<Rightarrow> bytes \<Rightarrow> goerr option \<Rightarrow> (disk, unit) io" where
  "copy_chunks target bs rerr d =
     (case (if bs = [] then (Ok (), d) else os_Append target (take 1024 bs) d) of
        (Ok _, d1) \<Rightarrow>
          (if 1024 \<le> length bs then copy_chunks target (drop 1024 bs) rerr d1
           else (case rerr of None \<Rightarrow> (Ok (), d1) | Some e \<Rightarrow> (Fail e, d1)))
      | (Fail e, d1) \<Rightarrow> (Fail e, d1)
      | (Panic p, d1) \<Rightarrow> (Panic p, d1)
      | (Exit c, d1) \<Rightarrow> (Exit c, d1))"
  by pat_completeness auto

termination by (relation "measure (\<lambda>(target, bs, rerr, d). length bs)") auto

declare copy_chunks.simps [simp del]

text \<open>One header: lines 624 to 667.\<close>

definition unpack_dir :: "string \<Rightarrow> (disk, unit) io" where
  "unpack_dir target d =
     (case os_Stat target d of
        (Fail _, d1) \<Rightarrow> os_MkdirAll target d1
      | (_, d1) \<Rightarrow> (Ok (), d1))"

definition unpack_file :: "string \<Rightarrow> tar_entry \<Rightarrow> (disk, unit) io" where
  "unpack_file target e =
     io_bind (os_OpenTrunc target) (\<lambda>_.
     io_bind (copy_chunks target (te_Data e) (te_ReadErr e)) (\<lambda>_.
     io_map_out (wrapf (''failed to close file '' @ target)) (os_Close target)))"

definition unpack_entry :: "string \<Rightarrow> tar_entry \<Rightarrow> (disk, unit) io" where
  "unpack_entry dst e =
     (if \<not> validRelPath (te_Name e)
      then io_ret (Fail (NewErr (''tar contained invalid name error '' @ Quote (te_Name e))))
      else (let target = Join [dst, te_Name e]
        in if \<not> HasPrefix target (Clean dst)
           then io_ret (Fail (NewErr (''content filepath is tainted: '' @ te_Name e)))
           else (case te_Typeflag e of
                   TypeDir \<Rightarrow> unpack_dir target
                 | TypeReg \<Rightarrow> unpack_file target e
                 | TypeOther _ \<Rightarrow> io_ret (Ok ()))))"

fun unpack_all :: "string \<Rightarrow> tar_entry list \<Rightarrow> goerr option \<Rightarrow> (disk, unit) io" where
  "unpack_all dst [] err d = ((case err of None \<Rightarrow> Ok () | Some e \<Rightarrow> Fail e), d)"
| "unpack_all dst (e # es) err d = io_bind (unpack_entry dst e) (\<lambda>_. unpack_all dst es err) d"

definition Uncompress :: "tar_codec \<Rightarrow> bytes \<Rightarrow> string \<Rightarrow> (disk, unit) io" where
  "Uncompress T src dst =
     io_bind (io_ret (tc_read T src)) (\<lambda>s. unpack_all dst (ts_entries s) (ts_err s))"

section \<open>Names an archive may hold\<close>

lemma butlast_split_slash: "w \<in> set (butlast (split_slash s)) \<Longrightarrow> \<exists>a b. s = a @ w @ ''/'' @ b"
proof -
  assume w: "w \<in> set (butlast (split_slash s))"
  then obtain xs ys where b: "butlast (split_slash s) = xs @ w # ys" by (meson split_list)
  let ?l = "last (split_slash s)"
  have sp: "split_slash s = xs @ w # ys @ [?l]"
    using b append_butlast_last_id [of "split_slash s"] by simp
  have w': "join_slash (w # ys @ [?l]) = w @ ''/'' @ join_slash (ys @ [?l])"
    by (cases "ys @ [?l]") auto
  have s: "s = join_slash (xs @ w # ys @ [?l])" using sp join_split_slash [of s] by simp
  show ?thesis
  proof (cases "xs = []")
    case True
    then have "s = [] @ w @ ''/'' @ join_slash (ys @ [?l])" using s w' by simp
    then show ?thesis by blast
  next
    case False
    then have "s = (join_slash xs @ ''/'') @ w @ ''/'' @ join_slash (ys @ [?l])"
      using s w' join_slash_append [of xs "w # ys @ [?l]"] by simp
    then show ?thesis by blast
  qed
qed

lemma Contains_updir_iff:
  "Contains s ''../'' \<longleftrightarrow> (\<exists>w \<in> set (butlast (split_slash s)). HasSuffix w ''..'')"
proof
  assume "Contains s ''../''"
  then obtain a b where s: "s = (a @ ''..'') @ CHR ''/'' # b" by (auto simp: Contains_iff)
  have "HasSuffix (last (split_slash (a @ ''..''))) ''..''"
  proof (induction a)
    case (Cons c a)
    then show ?case
      by (cases "split_slash (a @ ''..'')") (auto simp: HasSuffix_iff split: if_splits)
  qed (simp add: HasSuffix_def)
  moreover have "last (split_slash (a @ ''..'')) \<in> set (butlast (split_slash s))"
    unfolding s split_slash_append by (simp add: butlast_append)
  ultimately show "\<exists>w \<in> set (butlast (split_slash s)). HasSuffix w ''..''" by blast
next
  assume "\<exists>w \<in> set (butlast (split_slash s)). HasSuffix w ''..''"
  then obtain w where w: "w \<in> set (butlast (split_slash s))" "HasSuffix w ''..''" by blast
  from butlast_split_slash [OF w(1)] w(2) obtain a u b where "s = (a @ u) @ ''../'' @ b"
    by (auto simp: HasSuffix_iff)
  then show "Contains s ''../''" unfolding Contains_iff by blast
qed

text \<open>The elements of an accepted name: only the last one can step up.\<close>

lemma validRelPath_elements:
  assumes "validRelPath s"
  obtains ws l where "split_slash s = ws @ [l]" "''..'' \<notin> set ws"
proof (rule that)
  show "split_slash s = butlast (split_slash s) @ [last (split_slash s)]" by simp
  show "''..'' \<notin> set (butlast (split_slash s))"
    using assms by (auto simp: validRelPath_def Contains_updir_iff HasSuffix_def split: if_splits)
qed

lemma clean_stack_down:
  "''..'' \<notin> set ws \<Longrightarrow> \<exists>vs. clean_stack r st ws = rev st @ vs"
proof (induction ws arbitrary: st)
  case (Cons w ws)
  from Cons.IH [of st] Cons.IH [of "w # st"] Cons.prems show ?case by auto
qed simp

lemma clean_stack_down_up:
  assumes "''..'' \<notin> set ws" and "\<forall>w \<in> set D. normal w" and "\<forall>w \<in> set ws. CHR ''/'' \<notin> set w"
  shows "prefix D (clean_stack True (rev D) (ws @ [l])) \<or>
         D \<noteq> [] \<and> clean_stack True (rev D) (ws @ [l]) = butlast D"
proof -
  obtain vs where vs: "clean_stack True (rev D) ws = D @ vs"
    using clean_stack_down [OF assms(1), of True "rev D"] by auto
  have n: "\<forall>w \<in> set (D @ vs). normal w"
    unfolding vs [symmetric] using assms(2,3) by (intro clean_stack_all_normal) auto
  have up: "clean_stack True (rev D) (ws @ [''..'']) = butlast (D @ vs)"
  proof (cases "D @ vs" rule: rev_cases)
    case (snoc ts t)
    have "normal t" using n snoc by simp
    then show ?thesis unfolding clean_stack_append vs snoc by (simp add: normal_def)
  next
    case Nil
    then show ?thesis unfolding clean_stack_append vs Nil by simp
  qed
  consider "l = ''..''" | "l \<noteq> ''..''" by blast
  then show ?thesis
  proof cases
    case 1
    with up show ?thesis by (cases vs rule: rev_cases) (auto simp: butlast_append)
  next
    case 2
    then show ?thesis
      using clean_stack_down [of "[l]" True "rev (D @ vs)"] by (auto simp: clean_stack_append vs)
  qed
qed

lemma abs_path_butlast_shorter:
  "D \<noteq> [] \<Longrightarrow> \<forall>w \<in> set D. normal w \<Longrightarrow> length (abs_path (butlast D)) < length (abs_path D)"
proof (cases D rule: rev_cases)
  case (snoc E x)
  assume "\<forall>w \<in> set D. normal w"
  with snoc have "0 < length x" by (simp add: normal_def)
  with snoc show ?thesis by (cases E) (simp_all add: abs_path_def length_join_slash)
qed simp

text \<open>The two checks together keep the target inside the destination.\<close>

lemma accepted_inside:
  assumes dst: "is_rooted dst" and valid: "validRelPath s"
    and pre: "HasPrefix (Join [dst, s]) (Clean dst)"
  shows "prefix (resolve [] dst) (resolve cwd (Join [dst, s]))"
proof -
  let ?D = "resolve [] dst"
  obtain ws l where sp: "split_slash s = ws @ [l]" "''..'' \<notin> set ws"
    using valid by (rule validRelPath_elements)
  have n: "\<forall>w \<in> set ?D. normal w" using resolve_rooted_normal [OF dst] by blast
  have ns: "\<forall>w \<in> set ws. CHR ''/'' \<notin> set w" using split_slash_no_slash [of _ s] sp(1) by auto
  let ?T = "clean_stack True (rev ?D) (ws @ [l])"
  have "\<not> (?D \<noteq> [] \<and> ?T = butlast ?D)"
  proof
    assume a: "?D \<noteq> [] \<and> ?T = butlast ?D"
    have "HasPrefix (abs_path ?T) (abs_path ?D)"
      using pre unfolding Join_rooted [OF dst] Clean_rooted [OF dst, of "[]"] sp(1) .
    then have "length (abs_path ?D) \<le> length (abs_path ?T)"
      by (auto simp: HasPrefix_iff)
    with a abs_path_butlast_shorter [OF _ n] show False by simp
  qed
  with clean_stack_down_up [OF sp(2) n ns, of l] show ?thesis
    by (simp add: resolve_Join_rooted [OF dst] sp(1))
qed

section \<open>What unpacking can change\<close>

text \<open>
  A relation between the tree before and after, kept by every write at a path of \<open>inside\<close>:
  then unpacking keeps it, on every path through the code.
\<close>

locale tree_relation =
  fixes R :: "fnode \<Rightarrow> fnode \<Rightarrow> bool" and inside :: "path \<Rightarrow> bool"
  assumes refl: "R t t"
    and trans: "R t u \<Longrightarrow> R u v \<Longrightarrow> R t v"
    and mkdirs: "inside p \<Longrightarrow> fs_mkdirs t p = Some t' \<Longrightarrow> R t t'"
    and put: "inside p \<Longrightarrow> set_file b t p = Inr t' \<Longrightarrow> R t t'"
begin

definition keeps :: "disk \<Rightarrow> disk \<Rightarrow> bool" where
  "keeps d d' \<longleftrightarrow> R (dk_root d) (dk_root d') \<and> dk_cwd d' = dk_cwd d"

lemma keeps_trans: "keeps d d1 \<Longrightarrow> keeps d1 d2 \<Longrightarrow> keeps d d2"
  using trans by (auto simp: keeps_def)

lemma keeps_refl: "keeps d d"
  by (simp add: keeps_def refl)

lemma keeps_write:
  assumes "os_write f s d = (r, d')" and "\<And>t. f (dk_root d) (resolve (dk_cwd d) s) = Inr t \<Longrightarrow> R (dk_root d) t"
  shows "keeps d d'"
  using os_write_root [OF assms(1)] assms(2) refl by (auto simp: keeps_def)

lemma keeps_read: "os_read f s d = (r, d') \<Longrightarrow> keeps d d'"
  using os_read_root [of f s d r d'] by (simp add: keeps_def refl)

lemma keeps_MkdirAll: "inside (resolve (dk_cwd d) s) \<Longrightarrow> os_MkdirAll s d = (r, d') \<Longrightarrow> keeps d d'"
  unfolding os_MkdirAll_def by (erule keeps_write) (auto split: option.splits intro: mkdirs)

lemma keeps_OpenTrunc: "inside (resolve (dk_cwd d) s) \<Longrightarrow> os_OpenTrunc s d = (r, d') \<Longrightarrow> keeps d d'"
  unfolding os_OpenTrunc_def by (erule keeps_write) (auto intro: put)

lemma keeps_Append: "inside (resolve (dk_cwd d) s) \<Longrightarrow> os_Append s b d = (r, d') \<Longrightarrow> keeps d d'"
  unfolding os_Append_def
  by (erule keeps_write) (auto simp: file_append_def split: option.splits fnode.splits intro: put)

lemma keeps_Close: "os_Close s d = (r, d') \<Longrightarrow> keeps d d'"
  unfolding os_Close_def by (erule keeps_write) (simp add: refl)

lemma keeps_copy_chunks:
  "inside (resolve (dk_cwd d) s) \<Longrightarrow> copy_chunks s bs e d = (r, d') \<Longrightarrow> keeps d d'"
proof (induction s bs e d arbitrary: d' rule: copy_chunks.induct)
  case (1 s bs e d)
  obtain x d1 where x: "(if bs = [] then (Ok (), d) else os_Append s (take 1024 bs) d) = (x, d1)"
    by (metis prod.collapse)
  have k1: "keeps d d1"
    using x keeps_Append [OF 1(2), of "take 1024 bs" x d1] keeps_refl by (cases "bs = []") auto
  have in1: "inside (resolve (dk_cwd d1) s)" using 1(2) k1 by (simp add: keeps_def)
  show ?case
  proof (cases "(\<exists>u. x = Ok u) \<and> 1024 \<le> length bs")
    case True
    then obtain u where u: "x = Ok u" "1024 \<le> length bs" by blast
    then have "copy_chunks s (drop 1024 bs) e d1 = (r, d')"
      using 1(3) x by (subst (asm) copy_chunks.simps) simp
    from 1(1) [OF x [symmetric] u in1 this] k1 show ?thesis by (rule keeps_trans [rotated])
  next
    case False
    then have "d' = d1"
      using 1(3) x by (subst (asm) copy_chunks.simps) (auto split: go.splits option.splits)
    with k1 show ?thesis by simp
  qed
qed

lemma keeps_bind:
  assumes "io_bind m f d = (r, d')" and "\<And>x d1. m d = (x, d1) \<Longrightarrow> keeps d d1"
    and "\<And>x d1. m d = (Ok x, d1) \<Longrightarrow> f x d1 = (r, d') \<Longrightarrow> keeps d1 d'"
  shows "keeps d d'"
  using assms by (auto split: prod.splits go.splits intro: keeps_trans)

lemma keeps_unpack_file:
  assumes "inside (resolve (dk_cwd d) s)" and "unpack_file s e d = (r, d')"
  shows "keeps d d'"
  using assms(2) unfolding unpack_file_def
proof (rule keeps_bind)
  fix x d1 assume "os_OpenTrunc s d = (x, d1)"
  then show k: "keeps d d1" by (rule keeps_OpenTrunc [OF assms(1)])
next
  fix x d1
  assume o: "os_OpenTrunc s d = (Ok x, d1)"
    and m: "io_bind (copy_chunks s (te_Data e) (te_ReadErr e)) (\<lambda>_. io_map_out (wrapf (''failed to close file '' @ s)) (os_Close s)) d1 = (r, d')"
  have in1: "inside (resolve (dk_cwd d1) s)"
    using keeps_OpenTrunc [OF assms(1) o] assms(1) by (simp add: keeps_def)
  from m show "keeps d1 d'"
    by (rule keeps_bind)
       (auto simp: io_map_out_def split: prod.splits intro: keeps_copy_chunks [OF in1] keeps_Close)
qed

lemma keeps_unpack_entry:
  assumes "validRelPath (te_Name e) \<Longrightarrow> HasPrefix (Join [dst, te_Name e]) (Clean dst) \<Longrightarrow>
      inside (resolve (dk_cwd d) (Join [dst, te_Name e]))"
    and "unpack_entry dst e d = (r, d')"
  shows "keeps d d'"
proof (cases "validRelPath (te_Name e) \<and> HasPrefix (Join [dst, te_Name e]) (Clean dst)")
  case False
  then have "d' = d" using assms(2) by (auto simp: unpack_entry_def io_ret_def Let_def split: if_splits)
  then show ?thesis by (simp add: keeps_refl)
next
  case True
  let ?s = "Join [dst, te_Name e]"
  from True assms(1) have i: "inside (resolve (dk_cwd d) ?s)" by blast
  show ?thesis
  proof (cases "te_Typeflag e")
    case TypeDir
    obtain x d1 where st: "os_Stat ?s d = (x, d1)" by (metis prod.collapse)
    then have k1: "keeps d d1" unfolding os_Stat_def by (rule keeps_read)
    then have i1: "inside (resolve (dk_cwd d1) ?s)" using i by (simp add: keeps_def)
    have "keeps d1 d'"
      using assms(2) True TypeDir st keeps_MkdirAll [OF i1] keeps_refl
      by (auto simp: unpack_entry_def unpack_dir_def Let_def split: go.splits)
    with k1 show ?thesis by (rule keeps_trans)
  next
    case TypeReg
    with assms(2) True have "unpack_file ?s e d = (r, d')" by (simp add: unpack_entry_def Let_def)
    with i show ?thesis by (rule keeps_unpack_file)
  next
    case (TypeOther x)
    with assms(2) True have "d' = d" by (simp add: unpack_entry_def Let_def io_ret_def)
    then show ?thesis by (simp add: keeps_refl)
  qed
qed

lemma keeps_unpack_all:
  assumes "\<And>s. validRelPath s \<Longrightarrow> HasPrefix (Join [dst, s]) (Clean dst) \<Longrightarrow>
      inside (resolve (dk_cwd d) (Join [dst, s]))"
    and "unpack_all dst es err d = (r, d')"
  shows "keeps d d'"
  using assms
proof (induction es arbitrary: d)
  case (Cons e es)
  from Cons.prems(2) show ?case unfolding unpack_all.simps
  proof (rule keeps_bind)
    show k: "keeps d d1" if "unpack_entry dst e d = (x, d1)" for x d1
      using Cons.prems(1) that by (rule keeps_unpack_entry)
    show "keeps d1 d'" if "unpack_entry dst e d = (Ok x, d1)" "unpack_all dst es err d1 = (r, d')" for x d1
      using Cons.IH [of d1] Cons.prems(1) that k [OF that(1)] by (simp add: keeps_def)
  qed
qed (auto simp: keeps_refl)

end

text \<open>
  Nothing outside \<open>D\<close> changes, except that missing directories above \<open>D\<close> may be made.
\<close>

definition confined :: "path \<Rightarrow> fnode \<Rightarrow> fnode \<Rightarrow> bool" where
  "confined D t t' \<longleftrightarrow> (\<forall>q. \<not> prefix D q \<longrightarrow> fs_kind t' q = fs_kind t q \<or>
     strict_prefix q D \<and> fs_kind t q = None \<and> fs_kind t' q = Some KDir)"

lemma fs_mkdirs_on_path: "fs_mkdirs t p = Some t' \<Longrightarrow> prefix q p \<Longrightarrow> fs_kind t q \<in> {None, Some KDir}"
proof (induction t p arbitrary: t' q rule: fs_mkdirs.induct)
  case (3 es x xs)
  then obtain c' where c': "fs_mkdirs (case map_of es x of None \<Rightarrow> Dir [] | Some c \<Rightarrow> c) xs = Some c'"
    by auto
  show ?case
  proof (cases q)
    case (Cons y ys)
    with 3(3) have "y = x" "prefix ys xs" by auto
    with Cons 3(1) [OF c' \<open>prefix ys xs\<close>] show ?thesis by (auto split: option.splits)
  qed simp
qed auto

interpretation confinement: tree_relation "confined D" "prefix D" for D
proof
  show "confined D t t" for t by (simp add: confined_def)
  show "confined D t v" if "confined D t u" "confined D u v" for t u v
    using that unfolding confined_def by (metis option.distinct(1))
  show "confined D t t'" if "prefix D p" "fs_mkdirs t p = Some t'" for p t t'
  proof -
    have "\<not> prefix D q \<Longrightarrow> prefix q p \<Longrightarrow> strict_prefix q D" for q
      using that(1) by (metis prefix_same_cases prefix_order.le_less prefix_order.eq_iff strict_prefixI)
    then show ?thesis
      using fs_kind_mkdirs [OF that(2)] fs_mkdirs_on_path [OF that(2)]
      unfolding confined_def by (metis insertE singletonD)
  qed
  show "confined D t t'" if "prefix D p" "set_file b t p = Inr t'" for p b t t'
    using fs_kind_put_other [OF set_file_put [OF that(2)]] that(1)
    unfolding confined_def by (meson prefix_order.order_trans)
qed

interpretation wellformed: tree_relation "\<lambda>t t'. fs_wf t \<longrightarrow> fs_wf t'" "\<lambda>_. True"
  by unfold_locales (auto dest: fs_mkdirs_wf intro: fs_put_wf [OF set_file_put])

section \<open>What a walk without errors writes\<close>

text \<open>The tree without the skipped directories, and the entries of a tree.\<close>

fun prune :: "(string \<Rightarrow> bool) \<Rightarrow> fnode \<Rightarrow> fnode"
and prune_entries :: "(string \<Rightarrow> bool) \<Rightarrow> (string \<times> fnode) list \<Rightarrow> (string \<times> fnode) list" where
  "prune skip (File b) = File b"
| "prune skip (Dir es) = Dir (prune_entries skip es)"
| "prune_entries skip [] = []"
| "prune_entries skip ((x, n) # es) =
     (if kind_of n = KDir \<and> skip x then prune_entries skip es
      else (x, prune skip n) # prune_entries skip es)"

fun archive :: "(string \<Rightarrow> bool) \<Rightarrow> path \<Rightarrow> fnode \<Rightarrow> tar_entry list"
and archive_entries :: "(string \<Rightarrow> bool) \<Rightarrow> path \<Rightarrow> (string \<times> fnode) list \<Rightarrow> tar_entry list" where
  "archive skip p (File b) = [reg_entry (join_slash p) b]"
| "archive skip p (Dir es) = dir_entry (join_slash p) # archive_entries skip p es"
| "archive_entries skip p [] = []"
| "archive_entries skip p ((x, n) # es) =
     (if kind_of n = KDir \<and> skip x then [] else archive skip (p @ [x]) n) @ archive_entries skip p es"

text \<open>Names that survive the trip: \<open>validRelPath\<close> refuses a backslash and a directory whose name
  ends in two dots.\<close>

definition arch_name :: "string \<Rightarrow> bool" where
  "arch_name x \<longleftrightarrow> normal x \<and> CHR 0x5C \<notin> set x \<and> \<not> HasSuffix x ''..''"

fun arch_tree :: "fnode \<Rightarrow> bool" where
  "arch_tree (File b) = True"
| "arch_tree (Dir es) = (sorted_wrt (\<lambda>a b. fst a < fst b) es \<and>
     (\<forall>e \<in> set es. arch_name (fst e) \<and> arch_tree (snd e)))"

text \<open>A walk in which only \<open>WriteHeader\<close> can fail, and one without any failure.\<close>

definition header_errors_only :: "walk_env \<Rightarrow> bool" where
  "header_errors_only E \<longleftrightarrow> we_RootStat E = None \<and> we_Stat E = (\<lambda>_. None)
     \<and> we_FileInfoHeader E = (\<lambda>_. None) \<and> we_Open E = (\<lambda>_. None) \<and> we_Copy E = (\<lambda>_. None)
     \<and> we_ReadDir E = (\<lambda>_. None) \<and> we_TarClose E = None \<and> we_GzipClose E = None"

definition no_walk_errors :: "walk_env \<Rightarrow> bool" where
  "no_walk_errors E \<longleftrightarrow> header_errors_only E \<and> we_WriteHeader E = (\<lambda>_. None)"

definition encodable :: "walk_env \<Rightarrow> tar_entry \<Rightarrow> bool" where
  "encodable E e \<longleftrightarrow> we_WriteHeader E (te_Name e) = None"

lemma Join_relative:
  assumes "p \<noteq> []" and "\<forall>w \<in> set p. normal w" and "normal x"
  shows "Join [join_slash p, x] = join_slash (p @ [x])"
proof -
  obtain w ws where p: "p = w # ws" using assms(1) by (cases p) auto
  obtain c cs where w: "w = c # cs" "c \<noteq> CHR ''/''" using assms(2) p by (cases w) (auto simp: normal_def)
  have hd: "\<exists>t. join_slash (p @ qs) = c # t" for qs
    using p w by (cases "ws @ qs") auto
  have j: "join_slash p @ ''/'' @ x = join_slash (p @ [x])"
    using assms(1) by (simp add: join_slash_append)
  have "split_slash (join_slash (p @ [x])) = p @ [x]"
    using assms by (intro split_join_slash) (auto simp: normal_def)
  then have "clean_stack False [] (split_slash (join_slash (p @ [x]))) = p @ [x]"
    using assms by (simp add: clean_stack_normal)
  moreover have "\<not> is_rooted (join_slash (p @ [x]))" using hd [of "[x]"] w(2) by (auto simp: is_rooted_def)
  ultimately have "Clean (join_slash (p @ [x])) = join_slash (p @ [x])"
    by (simp add: Clean_def)
  moreover have "join_slash p \<noteq> []" using hd [of "[]"] by auto
  ultimately show ?thesis using j by (simp add: Join_def)
qed

lemma visit_headers:
  assumes "header_errors_only E" and "\<not> (kind_of n = KDir \<and> skip nm)"
  shows "visit E skip f nm n None out =
    (CbNil, out @ filter (encodable E) [case n of File b \<Rightarrow> reg_entry f b | Dir _ \<Rightarrow> dir_entry f])"
  using assms
  by (auto simp: visit_def header_errors_only_def encodable_def dir_entry_def reg_entry_def
      split: option.splits fnode.splits)

lemma walk_archive:
  assumes env: "header_errors_only E" and "p \<noteq> []" and "\<forall>w \<in> set p. normal w"
  shows "arch_tree n \<Longrightarrow> \<not> (kind_of n = KDir \<and> skip nm) \<Longrightarrow>
      walk E skip (join_slash p) nm n out = (CbNil, out @ filter (encodable E) (archive skip p n))"
    and "arch_tree (Dir es) \<Longrightarrow>
      walk_entries E skip (join_slash p) (length es) es out =
        (CbNil, out @ filter (encodable E) (archive_entries skip p es))"
  using assms(2,3)
proof (induction skip p n and skip p es arbitrary: nm out and out rule: archive_archive_entries.induct)
  case (1 skip p b)
  then show ?case by (simp add: visit_headers [OF env])
next
  case (2 skip p es)
  have "we_ReadDir E f = None" for f using env by (simp add: header_errors_only_def)
  with 2 show ?case by (simp add: visit_headers [OF env])
next
  case (4 skip p x n es)
  have x: "normal x" "arch_tree n" using 4(3) by (auto simp: arch_name_def)
  have px: "p @ [x] \<noteq> []" "\<forall>w \<in> set (p @ [x]). normal w" using 4(5) x(1) by auto
  have es: "arch_tree (Dir es)" using 4(3) by simp
  show ?case
  proof (cases "kind_of n = KDir \<and> skip x")
    case True
    then obtain fs where "n = Dir fs" by (cases n) auto
    with True show ?thesis
      using 4(2) [OF es 4(4,5)] by (simp add: visit_def)
  next
    case False
    then show ?thesis
      using 4(1) [OF False x(2) False px] 4(2) [OF es 4(4,5)] Join_relative [OF 4(4,5) x(1)]
      by auto
  qed
qed simp

lemma repository_name: "arch_name ''repository''" "normal ''repository''"
  by (simp_all add: arch_name_def normal_def HasSuffix_def)

lemma CompressFS_archive:
  assumes "header_errors_only E" and "fs_get fsys [''repository''] = Some n" and "arch_tree n"
    and "\<not> (kind_of n = KDir \<and> skip ''repository'')"
  shows "CompressFS E skip fsys = (Ok (), filter (encodable E) (archive skip [''repository''] n))"
  using walk_archive(1) [OF assms(1), of "[''repository'']" n skip "''repository''" "[]"]
    repository_name assms
  by (simp add: CompressFS_def header_errors_only_def)

section \<open>Unpacking what the walk wrote\<close>

lemma put_entry_last: "\<forall>e \<in> set es. fst e < x \<Longrightarrow> put_entry x n es = es @ [(x, n)]"
  by (induction x n es rule: put_entry.induct) auto

lemma fs_put_defined: "fs_put t p m = Some u \<Longrightarrow> \<exists>u'. fs_put t p n = Some u'"
  by (induction t p m arbitrary: u rule: fs_put.induct) (auto split: option.splits)

lemma fs_put_child: "fs_get t p = Some (Dir es) \<Longrightarrow> \<exists>u. fs_put t (p @ [x]) n = Some u"
proof (induction t p rule: fs_get.induct)
  case (3 fs y ys)
  then obtain c u where "map_of fs y = Some c" "fs_put c (ys @ [x]) n = Some u"
    by (auto split: option.splits)
  then show ?case by (cases "ys @ [x]") auto
qed auto

lemma fs_put_twice: "fs_put t p m = Some u \<Longrightarrow> fs_put u p n = fs_put t p n"
  by (induction t p m arbitrary: u rule: fs_put.induct)
     (auto simp: put_entry_twice split: option.splits)

lemma fs_put_below:
  "fs_put t p m = Some u \<Longrightarrow>
    fs_put u (p @ q) n = (case fs_put m q n of None \<Rightarrow> None | Some m' \<Rightarrow> fs_put t p m')"
proof (induction t p m arbitrary: u rule: fs_put.induct)
  case (3 es x m)
  then show ?case by (cases q) (auto simp: put_entry_twice split: option.splits)
next
  case (4 es x y ys m)
  then obtain c c' where c: "map_of es x = Some c" "fs_put c (y # ys) m = Some c'"
    and u: "u = Dir (put_entry x c' es)" by (auto split: option.splits)
  from 4(1) [OF c] c u show ?case by (auto simp: put_entry_twice split: option.splits)
qed (auto split: option.splits)

lemma fs_mkdirs_new:
  "fs_put t p m = Some u \<Longrightarrow> fs_get t p = None \<Longrightarrow> fs_mkdirs t p = fs_put t p (Dir [])"
  by (induction t p m arbitrary: u rule: fs_put.induct) (auto split: option.splits)

lemma quiet_write:
  "dk_faults d = [] \<Longrightarrow> os_write f s d =
    (case f (dk_root d) (resolve (dk_cwd d) s) of
       Inl e \<Rightarrow> (Fail e, d) | Inr t \<Rightarrow> (Ok (), d\<lparr>dk_root := t\<rparr>))"
  by (simp add: os_write_def disk_fault_def)

lemma quiet_read:
  "dk_faults d = [] \<Longrightarrow> os_read f s d = (f (fs_get (dk_root d) (resolve (dk_cwd d) s)), d)"
  by (simp add: os_read_def disk_fault_def)

lemma quiet_append:
  assumes "dk_faults d = []" and "fs_put t (resolve (dk_cwd d) s) (File a) = Some (dk_root d)"
  obtains u where "fs_put t (resolve (dk_cwd d) s) (File (a @ b)) = Some u"
    "os_Append s b d = (Ok (), d\<lparr>dk_root := u\<rparr>)"
proof -
  let ?p = "resolve (dk_cwd d) s"
  obtain u where u: "fs_put t ?p (File (a @ b)) = Some u" using fs_put_defined [OF assms(2)] by blast
  have "fs_get (dk_root d) ?p = Some (File a)" using fs_get_put [OF assms(2), of "[]"] by simp
  then have "file_append b (dk_root d) ?p = Inr u"
    using fs_put_twice [OF assms(2)] u by (simp add: file_append_def set_file_def)
  with u assms(1) show ?thesis by (intro that) (simp_all add: os_Append_def quiet_write)
qed

lemma quiet_copy_chunks:
  assumes "dk_faults d = []" and "fs_put t (resolve (dk_cwd d) s) (File a) = Some (dk_root d)"
  shows "\<exists>u. fs_put t (resolve (dk_cwd d) s) (File (a @ bs)) = Some u \<and>
    copy_chunks s bs None d = (Ok (), d\<lparr>dk_root := u\<rparr>)"
  using assms
proof (induction "length bs" arbitrary: bs a d rule: less_induct)
  case less
  show ?case
  proof (cases "bs = []")
    case True
    with less.prems show ?thesis by (simp add: copy_chunks.simps)
  next
    case False
    obtain u where u: "fs_put t (resolve (dk_cwd d) s) (File (a @ take 1024 bs)) = Some u"
      "os_Append s (take 1024 bs) d = (Ok (), d\<lparr>dk_root := u\<rparr>)"
      using quiet_append [OF less.prems] by blast
    show ?thesis
    proof (cases "1024 \<le> length bs")
      case True
      have "length (drop 1024 bs) < length bs" using False by simp
      from less.hyps [OF this, of "d\<lparr>dk_root := u\<rparr>" "a @ take 1024 bs"] less.prems u
      obtain v where "fs_put t (resolve (dk_cwd d) s) (File (a @ bs)) = Some v"
        "copy_chunks s (drop 1024 bs) None (d\<lparr>dk_root := u\<rparr>) = (Ok (), d\<lparr>dk_root := v\<rparr>)"
        by auto
      with True False u show ?thesis by (subst copy_chunks.simps) simp
    next
      case short: False
      with False u show ?thesis by (subst copy_chunks.simps) simp
    qed
  qed
qed

lemma quiet_unpack_file:
  assumes "dk_faults d = []" and "fs_get (dk_root d) (resolve (dk_cwd d) s) = None"
    and "fs_put (dk_root d) (resolve (dk_cwd d) s) m = Some u0"
  obtains u where "fs_put (dk_root d) (resolve (dk_cwd d) s) (File b) = Some u"
    "unpack_file s (reg_entry f b) d = (Ok (), d\<lparr>dk_root := u\<rparr>)"
proof -
  let ?p = "resolve (dk_cwd d) s"
  obtain v where v: "fs_put (dk_root d) ?p (File []) = Some v" using fs_put_defined [OF assms(3)] by blast
  then have o: "os_OpenTrunc s d = (Ok (), d\<lparr>dk_root := v\<rparr>)"
    using assms(1,2) by (simp add: os_OpenTrunc_def quiet_write set_file_def)
  from quiet_copy_chunks [of "d\<lparr>dk_root := v\<rparr>" "dk_root d" s "[]" b] assms(1) v obtain u where
    u: "fs_put (dk_root d) ?p (File b) = Some u"
      "copy_chunks s b None (d\<lparr>dk_root := v\<rparr>) = (Ok (), d\<lparr>dk_root := u\<rparr>)" by auto
  have "os_Close s (d\<lparr>dk_root := u\<rparr>) = (Ok (), d\<lparr>dk_root := u\<rparr>)"
    using assms(1) by (simp add: os_Close_def quiet_write)
  with o u show ?thesis
    by (intro that [OF u(1)]) (simp add: unpack_file_def reg_entry_def io_map_out_def)
qed

lemma quiet_unpack_dir:
  assumes "dk_faults d = []" and "fs_get (dk_root d) (resolve (dk_cwd d) s) = None"
    and "fs_put (dk_root d) (resolve (dk_cwd d) s) m = Some u0"
  obtains u where "fs_put (dk_root d) (resolve (dk_cwd d) s) (Dir []) = Some u"
    "unpack_dir s d = (Ok (), d\<lparr>dk_root := u\<rparr>)"
proof -
  obtain u where u: "fs_put (dk_root d) (resolve (dk_cwd d) s) (Dir []) = Some u"
    using fs_put_defined [OF assms(3)] by blast
  with fs_mkdirs_new [OF assms(3,2)] assms(1,2) show ?thesis
    by (intro that [OF u]) (simp add: unpack_dir_def os_Stat_def os_MkdirAll_def quiet_read quiet_write)
qed

text \<open>An archived name is accepted and lands below the destination.\<close>

lemma join_slash_set: "set (join_slash ws) \<subseteq> insert (CHR ''/'') (\<Union>w \<in> set ws. set w)"
  by (induction ws rule: join_slash.induct) auto

lemma archived_name_valid:
  assumes "p \<noteq> []" and "\<forall>w \<in> set p. arch_name w"
  shows "validRelPath (join_slash p)"
proof -
  have n: "\<forall>w \<in> set p. normal w" using assms(2) by (simp add: arch_name_def)
  obtain w ws where p: "p = w # ws" using assms(1) by (cases p) auto
  obtain c cs where w: "w = c # cs" "c \<noteq> CHR ''/''" using n p by (cases w) (auto simp: normal_def)
  have c: "\<exists>t. join_slash p = c # t" using p w by (cases ws) auto
  have "CHR 0x5C \<notin> set (join_slash p)"
    using join_slash_set [of p] assms(2) by (auto simp: arch_name_def)
  then have "\<not> Contains (join_slash p) [CHR 0x5C]" by (auto simp: Contains_iff)
  moreover have "split_slash (join_slash p) = p"
    using assms(1) n by (intro split_join_slash) (auto simp: normal_def)
  then have "\<not> Contains (join_slash p) ''../''"
    using assms(2) by (auto simp: Contains_updir_iff arch_name_def dest: in_set_butlastD)
  ultimately show ?thesis using c w(2) by (auto simp: validRelPath_def)
qed

lemma archived_name_target:
  assumes dst: "is_rooted dst" and p: "p \<noteq> []" "\<forall>w \<in> set p. normal w"
  shows "Join [dst, join_slash p] = abs_path (resolve [] dst @ p)"
    and "resolve cwd (Join [dst, join_slash p]) = resolve [] dst @ p"
    and "HasPrefix (Join [dst, join_slash p]) (Clean dst)"
proof -
  let ?D = "resolve [] dst"
  have sp: "split_slash (join_slash p) = p" using p by (intro split_join_slash) (auto simp: normal_def)
  then show j: "Join [dst, join_slash p] = abs_path (?D @ p)"
    using p by (simp add: Join_rooted [OF dst] clean_stack_normal)
  show "resolve cwd (Join [dst, join_slash p]) = ?D @ p"
    using p sp by (simp add: resolve_Join_rooted [OF dst] clean_stack_normal)
  show "HasPrefix (Join [dst, join_slash p]) (Clean dst)"
    using p unfolding j Clean_rooted [OF dst, of "[]"] HasPrefix_iff abs_path_def
    by (cases "?D = []") (auto simp: join_slash_append)
qed

lemma unpack_archive:
  assumes dst: "is_rooted dst"
  shows "arch_tree n \<Longrightarrow> p \<noteq> [] \<Longrightarrow> \<forall>w \<in> set p. arch_name w \<Longrightarrow> dk_faults d = [] \<Longrightarrow>
      fs_get (dk_root d) (resolve [] dst @ p) = None \<Longrightarrow>
      fs_put (dk_root d) (resolve [] dst @ p) m = Some u0 \<Longrightarrow>
      \<exists>u. fs_put (dk_root d) (resolve [] dst @ p) (prune skip n) = Some u \<and>
        unpack_all dst (archive skip p n @ rest) err d = unpack_all dst rest err (d\<lparr>dk_root := u\<rparr>)"
    and "arch_tree (Dir es) \<Longrightarrow> p \<noteq> [] \<Longrightarrow> \<forall>w \<in> set p. arch_name w \<Longrightarrow> dk_faults d = [] \<Longrightarrow>
      fs_put t (resolve [] dst @ p) (Dir done) = Some (dk_root d) \<Longrightarrow>
      \<forall>a \<in> set done. \<forall>b \<in> set es. fst a < fst b \<Longrightarrow>
      \<exists>u. fs_put t (resolve [] dst @ p) (Dir (done @ prune_entries skip es)) = Some u \<and>
        unpack_all dst (archive_entries skip p es @ rest) err d = unpack_all dst rest err (d\<lparr>dk_root := u\<rparr>)"
proof (induction skip p n and skip p es arbitrary: d m u0 rest and d t "done" rest
    rule: archive_archive_entries.induct)
  case (1 skip p b)
  have n: "\<forall>w \<in> set p. normal w" using 1(3) by (simp add: arch_name_def)
  note target = archived_name_target [OF dst 1(2) n]
  obtain u where "fs_put (dk_root d) (resolve [] dst @ p) (File b) = Some u"
    "unpack_file (Join [dst, join_slash p]) (reg_entry (join_slash p) b) d = (Ok (), d\<lparr>dk_root := u\<rparr>)"
    using quiet_unpack_file [OF 1(4), of "Join [dst, join_slash p]" m u0 b] 1(5,6) target(2) by metis
  then show ?case
    using archived_name_valid [OF 1(2,3)] target(3)
    by (simp add: unpack_entry_def Let_def reg_entry_def)
next
  case (2 skip p es)
  have n: "\<forall>w \<in> set p. normal w" using 2(4) by (simp add: arch_name_def)
  note target = archived_name_target [OF dst 2(3) n]
  obtain v where v: "fs_put (dk_root d) (resolve [] dst @ p) (Dir []) = Some v"
    "unpack_dir (Join [dst, join_slash p]) d = (Ok (), d\<lparr>dk_root := v\<rparr>)"
    using quiet_unpack_dir [OF 2(5), of "Join [dst, join_slash p]" m u0] 2(6,7) target(2) by metis
  from 2(1) [OF 2(2-4), of "d\<lparr>dk_root := v\<rparr>" "dk_root d" "[]" rest] 2(5) v(1)
  obtain u where "fs_put (dk_root d) (resolve [] dst @ p) (Dir (prune_entries skip es)) = Some u"
    "unpack_all dst (archive_entries skip p es @ rest) err (d\<lparr>dk_root := v\<rparr>) =
       unpack_all dst rest err (d\<lparr>dk_root := u\<rparr>)" by auto
  with v(2) show ?case
    using archived_name_valid [OF 2(3,4)] target(3)
    by (simp add: unpack_entry_def Let_def dir_entry_def)
next
  case (3 skip p)
  then show ?case by (intro exI [of _ "dk_root d"]) simp
next
  case (4 skip p x n es)
  have x: "arch_name x" "arch_tree n" and es: "arch_tree (Dir es)" using 4(3) by auto
  have lt: "\<forall>a \<in> set done. fst a < x" using 4(8) by simp
  show ?case
  proof (cases "kind_of n = KDir \<and> skip x")
    case True
    with 4(2) [OF es 4(4-7)] 4(8) show ?thesis by simp
  next
    case False
    let ?P = "resolve [] dst @ p"
    have miss: "fs_get (dk_root d) (?P @ [x]) = None"
      using fs_get_put [OF 4(7), of "[x]"] lt map_of_eq_None_iff [of "done" x] by fastforce
    have below: "fs_put (dk_root d) (?P @ [x]) k = fs_put t ?P (Dir (done @ [(x, k)]))" for k
      using fs_put_below [OF 4(7), of "[x]" k] put_entry_last [OF lt] by simp
    obtain u0 where "fs_put (dk_root d) (?P @ [x]) (File []) = Some u0"
      unfolding below using fs_put_defined [OF 4(7)] by blast
    from 4(1) [OF False x(2), of d "File []" u0 "archive_entries skip p es @ rest"]
      4(5,6) x(1) miss this obtain u where
      u: "fs_put t ?P (Dir (done @ [(x, prune skip n)])) = Some u"
        "unpack_all dst (archive skip (p @ [x]) n @ archive_entries skip p es @ rest) err d =
          unpack_all dst (archive_entries skip p es @ rest) err (d\<lparr>dk_root := u\<rparr>)"
      by (auto simp: below [simplified])
    have "\<forall>a \<in> set (done @ [(x, prune skip n)]). \<forall>b \<in> set es. fst a < fst b" using 4(3,8) by auto
    from 4(2) [OF es 4(4,5), of "d\<lparr>dk_root := u\<rparr>" t "done @ [(x, prune skip n)]" rest] 4(6) u this
    show ?thesis using False by auto
  qed
qed

section \<open>The archive format\<close>

text \<open>
  The entries \<open>CompressFS\<close> writes: directories and files under relative paths of normal elements, so
  that no name is empty or ends in a slash. Reading them back gives them and then the end of the
  stream. (A name with a NUL byte, which no file system gives, is refused by \<open>WriteHeader\<close> and is
  not written.)
\<close>

definition written :: "tar_entry list \<Rightarrow> bool" where
  "written es \<longleftrightarrow> (\<forall>e \<in> set es. \<exists>p b. p \<noteq> [] \<and> (\<forall>w \<in> set p. normal w)
     \<and> (e = dir_entry (join_slash p) \<or> e = reg_entry (join_slash p) b))"

lemma written_append [simp]: "written (es @ fs) \<longleftrightarrow> written es \<and> written fs"
  by (auto simp: written_def)

lemma written_Nil [simp]: "written []"
  by (simp add: written_def)

lemma written_one:
  assumes "p \<noteq> []" "\<forall>w \<in> set p. normal w"
  shows "written [dir_entry (join_slash p)]" "written [reg_entry (join_slash p) b]"
  using assms by (auto simp: written_def)

lemma archive_written:
  "arch_tree n \<Longrightarrow> p \<noteq> [] \<Longrightarrow> \<forall>w \<in> set p. normal w \<Longrightarrow> written (archive skip p n)"
  "arch_tree (Dir es) \<Longrightarrow> p \<noteq> [] \<Longrightarrow> \<forall>w \<in> set p. normal w \<Longrightarrow> written (archive_entries skip p es)"
proof (induction skip p n and skip p es rule: archive_archive_entries.induct)
  case (2 skip p es)
  from written_append [of "[dir_entry (join_slash p)]"] written_one(1) [OF 2(3,4)] 2(1) [OF 2(2-4)]
  show ?case by simp
next
  case (4 skip p x n es)
  then have "arch_tree n" "arch_tree (Dir es)" "\<forall>w \<in> set (p @ [x]). normal w" by (auto simp: arch_name_def)
  with 4 show ?case by simp
qed (simp_all add: written_one)

locale tar_gzip =
  fixes T :: tar_codec
  assumes read_write: "written es \<Longrightarrow> tc_read T (tc_write T es) = Ok \<lparr>ts_entries = es, ts_err = None\<rparr>"

text \<open>An instance: each entry as its type, name and contents.\<close>

definition enc_entry :: "tar_entry \<Rightarrow> string" where
  "enc_entry e = enc_strs [(if te_Typeflag e = TypeDir then ''d'' else ''f''), te_Name e, te_Data e]"

definition dec_entry :: "string \<Rightarrow> tar_entry option" where
  "dec_entry s =
     (case dec_strs s of
        Some [t, f, b] \<Rightarrow> Some (if t = ''d'' then dir_entry f else reg_entry f b)
      | _ \<Rightarrow> None)"

definition enc_entries :: "tar_entry list \<Rightarrow> bytes" where
  "enc_entries es = enc_strs (map enc_entry es)"

definition ref_codec :: tar_codec where
  "ref_codec =
     \<lparr>tc_write = enc_entries,
      tc_read = (\<lambda>s. opt_go (map_option (\<lambda>es. \<lparr>ts_entries = es, ts_err = None\<rparr>) (dec_list dec_entry s)))\<rparr>"

interpretation ref_tar: tar_gzip ref_codec
proof
  fix es assume "written es"
  then have "those (map dec_entry (map enc_entry es)) = Some es"
    by (induction es)
       (auto simp: written_def dec_entry_def enc_entry_def dir_entry_def reg_entry_def)
  then show "tc_read ref_codec (tc_write ref_codec es) = Ok \<lparr>ts_entries = es, ts_err = None\<rparr>"
    by (simp add: ref_codec_def enc_entries_def dec_list_def opt_go_def)
qed

lemma archive_unpacks:
  assumes "tar_gzip T"
    and env: "no_walk_errors E" and tree: "fs_get fsys [''repository''] = Some n" "arch_tree n"
    and skip: "\<not> (kind_of n = KDir \<and> skipDirs ''repository'')"
    and dst: "is_rooted dst" "fs_kind (dk_root d) (resolve [] dst) = Some KDir"
    and new: "fs_get (dk_root d) (resolve [] dst @ [''repository'']) = None"
    and quiet: "dk_faults d = []"
  shows "\<exists>es t. CompressFS E skipDirs fsys = (Ok (), es) \<and>
     Uncompress T (tc_write T es) dst d = (Ok (), d\<lparr>dk_root := t\<rparr>) \<and>
     fs_put (dk_root d) (resolve [] dst @ [''repository'']) (prune skipDirs n) = Some t"
proof -
  let ?p = "[''repository'']" and ?D = "resolve [] dst"
  have c: "CompressFS E skipDirs fsys = (Ok (), archive skipDirs ?p n)"
    using CompressFS_archive [OF _ tree, of E skipDirs] skip env by (simp add: no_walk_errors_def encodable_def)
  obtain es where es: "fs_get (dk_root d) ?D = Some (Dir es)"
    using dst(2) by (auto simp: fs_kind_def) (metis fkind.distinct(1) kind_of.elims)
  then obtain u where "fs_put (dk_root d) (?D @ ?p) (File []) = Some u"
    using fs_put_child [OF es] by blast
  from unpack_archive(1) [OF dst(1) tree(2) _ _ quiet new this, of skipDirs "[]" None]
  show ?thesis
    using c tar_gzip.read_write [OF assms(1) archive_written(1) [OF tree(2)], of ?p skipDirs] repository_name
    by (auto simp: Uncompress_def io_ret_def)
qed

definition calm_walk :: walk_env where
  "calm_walk =
     \<lparr>we_RootStat = None, we_Stat = (\<lambda>_. None), we_FileInfoHeader = (\<lambda>_. None),
      we_WriteHeader = (\<lambda>_. None), we_Open = (\<lambda>_. None), we_Copy = (\<lambda>_. None),
      we_ReadDir = (\<lambda>_. None), we_TarClose = None, we_GzipClose = None\<rparr>"

lemma calm_walk_ok: "no_walk_errors calm_walk"
  by (simp add: no_walk_errors_def header_errors_only_def calm_walk_def)

definition example_repo :: fnode where
  "example_repo = Dir [(''repository'', Dir [(''keys'', Dir []), (''root.json'', File ''1'')])]"

definition example_disk :: disk where
  "example_disk = \<lparr>dk_root = Dir [(''srv'', Dir [(''tuf'', Dir [])])], dk_cwd = [], dk_faults = []\<rparr>"

section \<open>What any archive can do\<close>

lemma Uncompress_cases:
  assumes "Uncompress T src dst d = (r, d')"
  obtains "d' = d" | s :: tar_stream where "unpack_all dst (ts_entries s) (ts_err s) d = (r, d')"
  using assms by (cases "tc_read T src") (auto simp: Uncompress_def io_ret_def)

lemma unpacked_confined:
  assumes "is_rooted dst" and "Uncompress T src dst d = (r, d')"
  shows "confined (resolve [] dst) (dk_root d) (dk_root d')"
  using assms(2)
proof (cases rule: Uncompress_cases)
  case (2 s)
  from confinement.keeps_unpack_all [OF accepted_inside [OF assms(1)] 2]
  show ?thesis by (simp add: confinement.keeps_def)
qed (simp add: confined_def)

lemma unpacked_wf:
  assumes "Uncompress T src dst d = (r, d')" and "fs_wf (dk_root d)"
  shows "fs_wf (dk_root d')"
  using assms(1)
proof (cases rule: Uncompress_cases)
  case (2 s)
  from wellformed.keeps_unpack_all [OF TrueI 2] assms(2) show ?thesis by (simp add: wellformed.keeps_def)
qed (simp add: assms(2))

section \<open>Properties\<close>

text \<open>
  C10. Unpacking an archive into a rooted directory changes nothing outside it, whatever names,
  types and contents the archive holds, wherever the stream or the disk fails: a path outside
  the destination is as before, or it is a directory on the way to the destination that was
  missing.
\<close>

theorem uncompress_confined:
  assumes "is_rooted dst" and "Uncompress T src dst d = (r, d')"
  shows "confined (resolve [] dst) (dk_root d) (dk_root d')"
  using unpacked_confined [OF assms] .

theorem uncompress_confined_witness:
  "\<exists>r d'. Uncompress ref_codec (enc_entries [reg_entry ''..'' ''x'']) ''/srv/tuf'' example_disk = (r, d')
     \<and> confined [''srv'', ''tuf''] (dk_root example_disk) (dk_root d')"
proof -
  obtain r d' where u: "Uncompress ref_codec (enc_entries [reg_entry ''..'' ''x'']) ''/srv/tuf'' example_disk = (r, d')"
    by (metis prod.collapse)
  have "is_rooted ''/srv/tuf''" "resolve [] ''/srv/tuf'' = [''srv'', ''tuf'']" by code_simp+
  with uncompress_confined [OF _ u] u show ?thesis by simp
qed

text \<open>
  C11. Unpacking what \<open>CompressFS\<close> wrote gives the tree back: for a repository with names
  \<open>validRelPath\<close> accepts, a disk without faults and an existing destination without a repository
  in it, both calls return success and the destination holds the repository without the skipped
  directories, byte for byte, and nothing else of the disk is changed.
\<close>

theorem archive_round_trip:
  assumes "tar_gzip T"
    and env: "no_walk_errors E" and tree: "fs_get fsys [''repository''] = Some n" "arch_tree n"
    and skip: "\<not> (kind_of n = KDir \<and> skipDirs ''repository'')"
    and dst: "is_rooted dst" "fs_kind (dk_root d) (resolve [] dst) = Some KDir"
    and new: "fs_get (dk_root d) (resolve [] dst @ [''repository'']) = None"
    and quiet: "dk_faults d = []"
  shows "\<exists>es t. CompressFS E skipDirs fsys = (Ok (), es) \<and>
     Uncompress T (tc_write T es) dst d = (Ok (), d\<lparr>dk_root := t\<rparr>) \<and>
     fs_put (dk_root d) (resolve [] dst @ [''repository'']) (prune skipDirs n) = Some t"
  using assms by (rule archive_unpacks)

theorem archive_round_trip_witness:
  "\<exists>es t. CompressFS calm_walk (\<lambda>x. x = ''keys'') example_repo = (Ok (), es) \<and>
     Uncompress ref_codec (tc_write ref_codec es) ''/srv/tuf'' example_disk =
       (Ok (), example_disk\<lparr>dk_root := t\<rparr>) \<and>
     fs_get t [''srv'', ''tuf'', ''repository'', ''root.json''] = Some (File ''1'') \<and>
     fs_get t [''srv'', ''tuf'', ''repository'', ''keys''] = None"
proof -
  let ?n = "Dir [(''keys'', Dir []), (''root.json'', File ''1'')]"
  have pre: "is_rooted ''/srv/tuf''" "resolve [] ''/srv/tuf'' = [''srv'', ''tuf'']"
    "fs_kind (dk_root example_disk) [''srv'', ''tuf''] = Some KDir"
    "fs_get (dk_root example_disk) [''srv'', ''tuf'', ''repository''] = None"
    "fs_get example_repo [''repository''] = Some ?n" "arch_tree ?n" "dk_faults example_disk = []"
    "prune (\<lambda>x. x = ''keys'') ?n = Dir [(''root.json'', File ''1'')]"
    by code_simp+
  from archive_round_trip [OF ref_tar.tar_gzip_axioms calm_walk_ok pre(5,6) _ pre(1), of "\<lambda>x. x = ''keys''" example_disk]
    pre obtain es t where
    c: "CompressFS calm_walk (\<lambda>x. x = ''keys'') example_repo = (Ok (), es)"
      "Uncompress ref_codec (tc_write ref_codec es) ''/srv/tuf'' example_disk = (Ok (), example_disk\<lparr>dk_root := t\<rparr>)"
    and t: "fs_put (dk_root example_disk) [''srv'', ''tuf'', ''repository''] (Dir [(''root.json'', File ''1'')]) = Some t"
    by auto
  from fs_get_put [OF t, of "[''root.json'']"] fs_get_put [OF t, of "[''keys'']"] c show ?thesis by auto
qed

text \<open>
  C32. An entry whose header tar refuses is dropped from the archive without a trace: when
  only \<open>WriteHeader\<close> can fail, \<open>CompressFS\<close> returns success for every repository, and what it
  wrote is the archive of the tree less the refused entries.
\<close>

theorem compress_drops_unencodable:
  assumes "header_errors_only E" and "fs_get fsys [''repository''] = Some n" and "arch_tree n"
    and "\<not> (kind_of n = KDir \<and> skipDirs ''repository'')"
  shows "CompressFS E skipDirs fsys =
    (Ok (), filter (\<lambda>e. we_WriteHeader E (te_Name e) = None) (archive skipDirs [''repository''] n))"
  using CompressFS_archive [OF assms(1-3), of skipDirs] assms(4)
  by (simp add: encodable_def [abs_def])

theorem compress_drops_unencodable_witness:
  "CompressFS (calm_walk\<lparr>we_WriteHeader := (\<lambda>f. if f = ''repository/root.json'' then Some (NewErr ''h'') else None)\<rparr>)
     (\<lambda>_. False) example_repo = (Ok (), [dir_entry ''repository'', dir_entry ''repository/keys''])"
proof -
  let ?n = "Dir [(''keys'', Dir []), (''root.json'', File ''1'')]"
    and ?E = "calm_walk\<lparr>we_WriteHeader := (\<lambda>f. if f = ''repository/root.json'' then Some (NewErr ''h'') else None)\<rparr>"
  have "fs_get example_repo [''repository''] = Some ?n" "arch_tree ?n" by code_simp+
  moreover have "header_errors_only ?E" by (simp add: header_errors_only_def calm_walk_def)
  ultimately show ?thesis
    using compress_drops_unencodable [of ?E example_repo ?n "\<lambda>_. False"]
    by (simp add: calm_walk_def dir_entry_def reg_entry_def)
qed

text \<open>
  Into the current directory, written as a dot, nothing can be unpacked: the path of an
  entry below it has no dot in front after \<open>Join\<close>, so the check against the prefix of the
  cleaned destination refuses the first entry whose name does not begin with a dot.
\<close>

lemma uncompress_dot_rejects:
  assumes "tc_read T src = Ok s" and "ts_entries s = e # es" and "te_Name e = join_slash (w # ws)"
    and "\<forall>v \<in> set (w # ws). arch_name v" and "hd w \<noteq> CHR ''.''"
  shows "Uncompress T src ''.'' d =
    (Fail (NewErr (''content filepath is tainted: '' @ te_Name e)), d)"
proof -
  let ?p = "w # ws"
  have n: "\<forall>v \<in> set ?p. normal v" using assms(4) by (simp add: arch_name_def)
  obtain c cs where w: "w = c # cs" using n by (cases w) (auto simp: normal_def)
  have hd: "\<exists>t. join_slash ?p = c # t" using w by (cases ws) auto
  have "split_slash (join_slash ?p) = ?p" using n by (intro split_join_slash) (auto simp: normal_def)
  then have "Clean (''./'' @ join_slash ?p) = join_slash ?p"
    using clean_stack_normal [OF n, of False "[]"] by (simp add: Clean_def is_rooted_def)
  then have "Join [''.'', join_slash ?p] = join_slash ?p" by (simp add: Join_def)
  moreover have "Clean ''.'' = ''.''" by code_simp
  ultimately show ?thesis
    using assms archived_name_valid [of ?p] hd w
    by (auto simp: Uncompress_def io_ret_def unpack_entry_def Let_def)
qed

end
