(* ===== verification/Tuf_Certs.thy ===== *)
theory Tuf_Certs
  imports Text_Codec
begin

text \<open>
  \<^verbatim>\<open>tools/tuf/pkg/certs/certs.go\<close>: \<open>SplitCertChain\<close>, which cuts a PEM chain into one TUF target
  per certificate. The certificate functions of \<^verbatim>\<open>cryptoutils\<close>, \<^verbatim>\<open>encoding/pem\<close> and
  \<^verbatim>\<open>crypto/x509\<close> are the record \<open>pem_lib\<close>; what is relied on of them is the locale \<open>pem_chain\<close>.
\<close>

section \<open>Certificates\<close>

text \<open>
  \<open>pem.Decode\<close> gives the bytes of the first block and a number \<open>n\<close>: the block ends at the byte
  with index \<open>n\<close>, and the rest of the input follows. No block is \<open>None\<close>.
\<close>

record 'cert pem_lib =
  pl_UnmarshalCertificatesFromPEM :: "bytes \<Rightarrow> 'cert list go"
  pl_MarshalCertificateToPEM :: "'cert \<Rightarrow> bytes go"
  pl_pem_Decode :: "bytes \<Rightarrow> (bytes \<times> nat) option"
  pl_ParseCertificate :: "bytes \<Rightarrow> 'cert go"
  pl_IsCA :: "'cert \<Rightarrow> bool"
  pl_NotBefore :: "'cert \<Rightarrow> int"
  pl_NotAfter :: "'cert \<Rightarrow> int"

section \<open>SplitCertChain\<close>

definition leaf_file :: "string \<Rightarrow> string" where
  "leaf_file pfx = pfx @ ''_leaf.crt.pem''"

definition root_file :: "string \<Rightarrow> string" where
  "root_file pfx = pfx @ ''_root.crt.pem''"

definition intermediate_file :: "string \<Rightarrow> nat \<Rightarrow> string" where
  "intermediate_file pfx i = pfx @ ''_intermediate_'' @ itoa i @ ''.crt.pem''"

text \<open>The loop over the certificates between the first and the last.\<close>

fun split_intermediates ::
  "'cert pem_lib \<Rightarrow> string \<Rightarrow> nat \<Rightarrow> 'cert list \<Rightarrow> gomap \<Rightarrow> gomap go" where
  "split_intermediates L pfx i [] ret = Ok ret"
| "split_intermediates L pfx i (c # cs) ret =
     go_bind (wrapf (''marshaling intermediate cert '' @ itoa i) (pl_MarshalCertificateToPEM L c))
       (\<lambda>intermediate. split_intermediates L pfx (Suc i) cs
          (ret(intermediate_file pfx i \<mapsto> intermediate)))"

definition SplitCertChain :: "'cert pem_lib \<Rightarrow> bytes \<Rightarrow> string \<Rightarrow> gomap go" where
  "SplitCertChain L chain pfx =
     go_bind (wrapf ''unmarshaling certificates'' (pl_UnmarshalCertificatesFromPEM L chain)) (\<lambda>certs.
       if length certs < 2
       then Fail (NewErr (''cert chain must contain at least root and leaf, but got only ''
                          @ itoa (length certs) @ '' certs''))
       else
         go_bind (wrapf ''marshaling leaf cert'' (pl_MarshalCertificateToPEM L (certs ! 0))) (\<lambda>leaf.
         go_bind (wrapf ''marshaling root cert''
                    (pl_MarshalCertificateToPEM L (certs ! (length certs - 1)))) (\<lambda>root.
         split_intermediates L pfx 0 (take (length certs - 2) (drop 1 certs))
           [leaf_file pfx \<mapsto> leaf, root_file pfx \<mapsto> root])))"

section \<open>What it returns\<close>

text \<open>The files of a chain as a list, given the PEM text of each certificate.\<close>

definition split_files :: "string \<Rightarrow> bytes list \<Rightarrow> (string \<times> bytes) list" where
  "split_files pfx pems =
     (leaf_file pfx, hd pems) # (root_file pfx, last pems) #
     map (\<lambda>i. (intermediate_file pfx i, pems ! Suc i)) [0..<length pems - 2]"

lemma intermediate_file_inject [simp]:
  "intermediate_file pfx i = intermediate_file pfx j \<longleftrightarrow> i = j"
  using itoa_inject by (auto simp: intermediate_file_def)

lemma chain_files_distinct [simp]:
  "leaf_file pfx \<noteq> root_file pfx" "root_file pfx \<noteq> leaf_file pfx"
  "leaf_file pfx \<noteq> intermediate_file pfx i" "intermediate_file pfx i \<noteq> leaf_file pfx"
  "root_file pfx \<noteq> intermediate_file pfx i" "intermediate_file pfx i \<noteq> root_file pfx"
  by (simp_all add: leaf_file_def root_file_def intermediate_file_def)

lemma split_files_distinct: "distinct (map fst (split_files pfx pems))"
  by (auto simp: split_files_def distinct_map inj_on_def)

lemma split_intermediates_Ok:
  "split_intermediates L pfx i cs ret = Ok m \<longleftrightarrow>
    (\<exists>ps. map (pl_MarshalCertificateToPEM L) cs = map Ok ps \<and>
       m = ret ++ map_of (map (\<lambda>j. (intermediate_file pfx (i + j), ps ! j)) [0..<length ps]))"
proof (induction cs arbitrary: i ret)
  case (Cons c cs)
  have shift: "ret(intermediate_file pfx i \<mapsto> p) ++
        map_of (map (\<lambda>j. (intermediate_file pfx (Suc i + j), ps ! j)) [0..<length ps]) =
      ret ++ map_of (map (\<lambda>j. (intermediate_file pfx (i + j), (p # ps) ! j)) [0..<length (p # ps)])"
    for p ps
  proof -
    have "[0..<length (p # ps)] = 0 # map Suc [0..<length ps]" by (simp add: map_Suc_upt upt_conv_Cons del: upt_Suc)
    moreover have "intermediate_file pfx i \<notin>
        fst ` set (map (\<lambda>j. (intermediate_file pfx (Suc i + j), ps ! j)) [0..<length ps])" by auto
    then have "map_of (map (\<lambda>j. (intermediate_file pfx (Suc i + j), ps ! j)) [0..<length ps])
        (intermediate_file pfx i) = None" by (simp add: map_of_eq_None_iff)
    ultimately show ?thesis
      by (simp add: o_def map_add_upd_left domIff del: upt_Suc)
  qed
  define H where "H ps = ret ++ map_of (map (\<lambda>j. (intermediate_file pfx (i + j), ps ! j)) [0..<length ps])" for ps
  show ?case
  proof (cases "pl_MarshalCertificateToPEM L c")
    case (Ok p)
    then have "split_intermediates L pfx i (c # cs) ret = Ok m \<longleftrightarrow>
        (\<exists>ps. map (pl_MarshalCertificateToPEM L) cs = map Ok ps \<and> m = H (p # ps))"
      unfolding H_def shift [symmetric] by (simp add: Cons.IH fun_upd_def del: upt_Suc)
    also have "\<dots> \<longleftrightarrow> (\<exists>ps. map (pl_MarshalCertificateToPEM L) (c # cs) = map Ok ps \<and> m = H ps)"
      using Ok by (auto simp: Cons_eq_map_conv)
    finally show ?thesis unfolding H_def .
  qed (auto simp: Cons_eq_map_conv)
qed auto

lemma SplitCertChain_Ok:
  assumes "SplitCertChain L chain pfx = Ok m"
  obtains certs pems where "pl_UnmarshalCertificatesFromPEM L chain = Ok certs" "2 \<le> length certs"
    "map (pl_MarshalCertificateToPEM L) certs = map Ok pems" "m = map_of (split_files pfx pems)"
proof -
  obtain certs leaf root where c: "pl_UnmarshalCertificatesFromPEM L chain = Ok certs" "2 \<le> length certs"
    and lr: "pl_MarshalCertificateToPEM L (certs ! 0) = Ok leaf"
      "pl_MarshalCertificateToPEM L (certs ! (length certs - 1)) = Ok root"
    and si: "split_intermediates L pfx 0 (take (length certs - 2) (drop 1 certs))
      [leaf_file pfx \<mapsto> leaf, root_file pfx \<mapsto> root] = Ok m"
    using assms by (auto simp: SplitCertChain_def go_bind_Ok_conv split: if_splits)
  obtain a mid z where certs: "certs = a # mid @ [z]"
    using c(2) by (cases certs; cases "tl certs" rule: rev_cases) auto
  from si certs obtain ps where ps: "map (pl_MarshalCertificateToPEM L) mid = map Ok ps"
    and m: "m = [leaf_file pfx \<mapsto> leaf, root_file pfx \<mapsto> root] ++
      map_of (map (\<lambda>j. (intermediate_file pfx j, ps ! j)) [0..<length ps])"
    by (auto simp: split_intermediates_Ok)
  let ?xs = "map (\<lambda>j. (intermediate_file pfx j, ps ! j)) [0..<length ps]"
  have files: "split_files pfx (leaf # ps @ [root]) = (leaf_file pfx, leaf) # (root_file pfx, root) # ?xs"
    by (simp add: split_files_def nth_append)
  have "dom [leaf_file pfx \<mapsto> leaf, root_file pfx \<mapsto> root] \<inter> dom (map_of ?xs) = {}"
    by (auto simp: dom_map_of_conv_image_fst)
  then have "m = map_of ?xs ++ [leaf_file pfx \<mapsto> leaf, root_file pfx \<mapsto> root]"
    unfolding m by (rule map_add_comm)
  then have "m = map_of (split_files pfx (leaf # ps @ [root]))"
    unfolding files by (simp add: fun_upd_twist)
  moreover have "map (pl_MarshalCertificateToPEM L) certs = map Ok (leaf # ps @ [root])"
    using lr ps certs by (simp add: nth_append)
  ultimately show ?thesis using c that by blast
qed

end
