(* ===== verification/Tuf_Repo.thy ===== *)
theory Tuf_Repo
  imports Go_OS Tuf_Certs "HOL-Library.Multiset"
begin

text \<open>
  The repository part of \<^verbatim>\<open>tools/tuf/pkg/repo/repo.go\<close>: which usage a target has, the trusted
  root and the signing config built from the targets, and the creation of the TUF repository.
  go-tuf, sigstore-go, x509 and note are the records \<open>repo_lib\<close> and \<open>tuf_store\<close>.
\<close>

section \<open>Targets\<close>

definition FulcioTarget :: string where "FulcioTarget = ''Fulcio''"
definition RekorTarget :: string where "RekorTarget = ''Rekor''"
definition CTFETarget :: string where "CTFETarget = ''CTFE''"
definition TSATarget :: string where "TSATarget = ''TSA''"
definition UnknownTarget :: string where "UnknownTarget = ''Unknown''"

lemmas target_kinds = FulcioTarget_def RekorTarget_def CTFETarget_def TSATarget_def UnknownTarget_def

record CreateRepoOptions =
  AddMetadataTargets :: bool
  AddTrustedRoot :: bool
  AddSigningConfig :: bool

record TargetWithMetadata =
  tg_Name :: string
  tg_Bytes :: bytes
  tg_CustomMetadata :: bytes

record CustomMetadata =
  cm_Usage :: string
  cm_Status :: string
  cm_URI :: string

fun find_usage :: "string \<Rightarrow> string list \<Rightarrow> string" where
  "find_usage name [] = UnknownTarget"
| "find_usage name (k # ks) = (if Contains (ToLower name) (ToLower k) then k else find_usage name ks)"

definition getTargetUsage :: "string \<Rightarrow> string" where
  "getTargetUsage name = find_usage name [FulcioTarget, RekorTarget, CTFETarget, TSATarget]"

text \<open>
  \<open>json.Marshal\<close> of the metadata struct: the fields in order, each string quoted and escaped
  byte by byte (bytes of 128 and above are copied, as the encoder does with valid UTF-8 other than
  U+2028 and U+2029; the three values are constants of the code without any).
\<close>

definition json_char :: "char \<Rightarrow> string" where
  "json_char c =
     (if c = CHR 0x22 \<or> c = CHR 0x5C then [CHR 0x5C, c]
      else if c = CHR 0x08 then [CHR 0x5C, CHR ''b'']
      else if c = CHR 0x0C then [CHR 0x5C, CHR ''f'']
      else if c = CHR 0x0A then [CHR 0x5C, CHR ''n'']
      else if c = CHR 0x0D then [CHR 0x5C, CHR ''r'']
      else if c = CHR 0x09 then [CHR 0x5C, CHR ''t'']
      else if (of_char c :: nat) < 32 \<or> c = CHR ''<'' \<or> c = CHR ''>'' \<or> c = CHR ''&''
      then CHR 0x5C # ''u00'' @ hex_byte c
      else [c])"

definition json_string :: "string \<Rightarrow> string" where
  "json_string s = [CHR 0x22] @ concat (map json_char s) @ [CHR 0x22]"

definition json_field :: "string \<Rightarrow> string \<Rightarrow> string" where
  "json_field k v = json_string k @ '':'' @ v"

definition marshal_metadata :: "CustomMetadata \<Rightarrow> bytes" where
  "marshal_metadata m =
     ''{'' @ json_field ''sigstore''
       (''{'' @ json_field ''usage'' (json_string (cm_Usage m)) @ '','' @
        json_field ''status'' (json_string (cm_Status m)) @ '','' @
        json_field ''uri'' (json_string (cm_URI m)) @ ''}'') @ ''}''"

section \<open>Keys of transparency logs\<close>

datatype hash = SHA256 | SHA384 | SHA512

text \<open>A parsed public key by its Go type; an RSA key with the bit length of its modulus.\<close>

datatype pub_key =
    EcdsaPub elliptic_curve bytes
  | RsaPub nat bytes
  | Ed25519Pub bytes
  | OtherPub string

record tlog =
  tl_BaseURL :: string
  tl_ID :: bytes
  tl_ValidityPeriodStart :: int
  tl_HashFunc :: hash
  tl_PublicKey :: pub_key
  tl_SignatureHashFunc :: hash

record 'cert tsa_authority =
  ta_Leaf :: "'cert option"
  ta_Intermediates :: "'cert list"
  ta_Root :: "'cert option"
  ta_ValidityPeriodStart :: int
  ta_ValidityPeriodEnd :: int

record 'cert fulcio_authority =
  fa_Intermediates :: "'cert list"
  fa_Root :: "'cert option"
  fa_ValidityPeriodStart :: int
  fa_ValidityPeriodEnd :: int

record service =
  sv_URL :: string
  sv_MajorAPIVersion :: nat
  sv_ValidityPeriodStart :: int
  sv_Operator :: string

datatype service_selector = ServiceSelector_ANY | ServiceSelector_OTHER nat

record ('cert, 'tr, 'sc) repo_lib =
  rl_pem :: "'cert pem_lib"
  rl_ParsePKCS1PublicKey :: "bytes \<Rightarrow> pub_key go"
  rl_ParsePKIXPublicKey :: "bytes \<Rightarrow> pub_key go"
  rl_KeyHash :: "string \<Rightarrow> pub_key \<Rightarrow> bytes go"
  rl_now :: int
  rl_TrustedRootMediaType01 :: string
  rl_NewTrustedRoot :: "string \<Rightarrow> 'cert fulcio_authority list \<Rightarrow> (string \<rightharpoonup> tlog) \<Rightarrow>
     'cert tsa_authority list \<Rightarrow> (string \<rightharpoonup> tlog) \<Rightarrow> 'tr go"
  rl_MarshalTrustedRoot :: "'tr \<Rightarrow> bytes go"
  rl_SigningConfigMediaType02 :: string
  rl_NewSigningConfig :: "string \<Rightarrow> service list \<Rightarrow> service list \<Rightarrow> service list \<Rightarrow>
     service_selector \<Rightarrow> service list \<Rightarrow> service_selector \<Rightarrow> 'sc go"
  rl_MarshalSigningConfig :: "'sc \<Rightarrow> bytes go"

text \<open>\<open>v.Size()\<close>: the length of the modulus in bytes.\<close>

definition rsa_Size :: "nat \<Rightarrow> nat" where
  "rsa_Size bits = (bits + 7) div 8"

definition getKeyWithDetails ::
  "('cert, 'tr, 'sc) repo_lib \<Rightarrow> bytes \<Rightarrow> (pub_key \<times> hash) go" where
  "getKeyWithDetails L key =
     go_bind
       (on_fail (rl_ParsePKCS1PublicKey L key) (\<lambda>err1.
          on_fail (rl_ParsePKIXPublicKey L key) (\<lambda>err2.
            Fail (NewErr (''can't parse public key with PKCS1 or PKIX: '' @ Error err1 @ '', '' @ Error err2)))))
       (\<lambda>k. case k of
          EcdsaPub c _ \<Rightarrow>
            (case c of
               P256 \<Rightarrow> Ok (k, SHA256)
             | P384 \<Rightarrow> Ok (k, SHA384)
             | P521 \<Rightarrow> Ok (k, SHA512)
             | _ \<Rightarrow> Fail (NewErr ''unsupported elliptic curve''))
        | RsaPub bits _ \<Rightarrow>
            (if rsa_Size bits * 8 \<in> {2048, 3072, 4096} then Ok (k, SHA256)
             else Fail (NewErr (''unsupported public modulus '' @ itoa (rsa_Size bits))))
        | Ed25519Pub _ \<Rightarrow> Ok (k, SHA512)
        | OtherPub _ \<Rightarrow> Fail (NewErr ''unknown public key type''))"

text \<open>\<open>hex.EncodeToString\<close>.\<close>

definition hex_EncodeToString :: "bytes \<Rightarrow> string" where
  "hex_EncodeToString bs = concat (map hex_byte bs)"

definition pubkeyToTransparencyLogInstance ::
  "('cert, 'tr, 'sc) repo_lib \<Rightarrow> string \<Rightarrow> bytes \<Rightarrow> int \<Rightarrow> (tlog \<times> string) go" where
  "pubkeyToTransparencyLogInstance L origin keyBytes tm =
     (case pl_pem_Decode (rl_pem L) keyBytes of
        None \<Rightarrow> Panic ''nil pointer dereference''
      | Some (der, _) \<Rightarrow>
          go_bind (getKeyWithDetails L der) (\<lambda>(key, keyDetails).
          go_bind (rl_KeyHash L origin key) (\<lambda>logID.
          Ok (\<lparr>tl_BaseURL = [], tl_ID = logID, tl_ValidityPeriodStart = tm, tl_HashFunc = SHA256,
               tl_PublicKey = key, tl_SignatureHashFunc = keyDetails\<rparr>,
              hex_EncodeToString logID))))"

section \<open>Certificate chains\<close>

definition concatCertChain :: "bytes \<Rightarrow> bytes list \<Rightarrow> bytes \<Rightarrow> bytes" where
  "concatCertChain leaf intermediate root =
     (if 0 < length leaf then leaf @ [CHR 0x0A] else []) @
     concat (map (\<lambda>i. i @ [CHR 0x0A]) intermediate) @ root"

text \<open>The loop of both chain functions that takes one block after the other off the input.\<close>

lemma length_TrimSpace: "length (TrimSpace s) \<le> length s"
proof -
  have "length (TrimSpace s) \<le> length (dropWhile is_space s)"
    using length_dropWhile_le [of is_space "rev (dropWhile is_space s)"] by (simp add: TrimSpace_def)
  also have "\<dots> \<le> length s" by (rule length_dropWhile_le)
  finally show ?thesis .
qed

function parse_certs :: "'cert pem_lib \<Rightarrow> bytes \<Rightarrow> 'cert list \<Rightarrow> 'cert list go" where
  "parse_certs L rest certChain =
     (if rest = [] then Ok certChain
      else case pl_pem_Decode L rest of
        None \<Rightarrow> Fail (NewErr (''input is left, but it is not a certificate: '' @ fmt_bytes (TrimSpace rest)))
      | Some (der, n) \<Rightarrow>
          (case wrapf ''failed to parse certificate'' (pl_ParseCertificate L der) of
             Ok cert \<Rightarrow> parse_certs L (TrimSpace (drop (Suc n) rest)) (certChain @ [cert])
           | Fail e \<Rightarrow> Fail e | Panic p \<Rightarrow> Panic p | Exit c \<Rightarrow> Exit c))"
  by pat_completeness auto

termination
proof (relation "measure (\<lambda>(L, rest, certChain). length rest)")
  fix rest :: bytes and n :: nat
  assume "rest \<noteq> []"
  then have "length (drop (Suc n) rest) < length rest" by simp
  then have "length (TrimSpace (drop (Suc n) rest)) < length rest"
    using length_TrimSpace [of "drop (Suc n) rest"] by linarith
  then show "((L, TrimSpace (drop (Suc n) rest), cs), L', rest, cs') \<in> measure (\<lambda>(L, rest, certChain). length rest)"
    for L L' :: "'a pem_lib" and cs cs' by simp
qed simp

declare parse_certs.simps [simp del]

fun assign_tsa ::
  "'cert pem_lib \<Rightarrow> nat \<Rightarrow> nat \<Rightarrow> 'cert list \<Rightarrow> 'cert tsa_authority \<Rightarrow> 'cert tsa_authority" where
  "assign_tsa L len i [] ca = ca"
| "assign_tsa L len i (cert # cs) ca =
     assign_tsa L len (Suc i) cs
       (if i = 0 \<and> \<not> pl_IsCA L cert then ca\<lparr>ta_Leaf := Some cert\<rparr>
        else if i < len - 1 then ca\<lparr>ta_Intermediates := ta_Intermediates ca @ [cert]\<rparr>
        else if i = len - 1 then ca\<lparr>ta_Root := Some cert\<rparr>
        else ca)"

definition certChainToTimestampingAuthority ::
  "'cert pem_lib \<Rightarrow> bytes \<Rightarrow> 'cert tsa_authority go" where
  "certChainToTimestampingAuthority L tsaChainPem =
     go_bind (parse_certs L (TrimSpace tsaChainPem) []) (\<lambda>certChain.
       if length certChain = 0 then Fail (NewErr ''no certificates found in input'')
       else Ok (assign_tsa L (length certChain) 0 certChain
         \<lparr>ta_Leaf = None, ta_Intermediates = [], ta_Root = None,
          ta_ValidityPeriodStart = pl_NotBefore L (certChain ! 0),
          ta_ValidityPeriodEnd = pl_NotAfter L (certChain ! 0)\<rparr>))"

fun assign_fulcio ::
  "nat \<Rightarrow> nat \<Rightarrow> 'cert list \<Rightarrow> 'cert fulcio_authority \<Rightarrow> 'cert fulcio_authority" where
  "assign_fulcio len i [] ca = ca"
| "assign_fulcio len i (cert # cs) ca =
     assign_fulcio len (Suc i) cs
       (if i < len - 1 then ca\<lparr>fa_Intermediates := fa_Intermediates ca @ [cert]\<rparr>
        else if i = len - 1 then ca\<lparr>fa_Root := Some cert\<rparr>
        else ca)"

definition certChainToCertificateAuthority ::
  "'cert pem_lib \<Rightarrow> bytes \<Rightarrow> 'cert fulcio_authority go" where
  "certChainToCertificateAuthority L certChainPem =
     go_bind (parse_certs L (TrimSpace certChainPem) []) (\<lambda>certChain.
       if length certChain = 0 then Fail (NewErr ''no certificates found in input'')
       else Ok (assign_fulcio (length certChain) 0 certChain
         \<lparr>fa_Intermediates = [], fa_Root = None,
          fa_ValidityPeriodStart = pl_NotBefore L (certChain ! 0),
          fa_ValidityPeriodEnd = pl_NotAfter L (certChain ! 0)\<rparr>))"

section \<open>The trusted root\<close>

text \<open>The variables the loop over the targets fills.\<close>

record tr_parts =
  tp_fulcioRoot :: bytes
  tp_fulcioIntermed :: "bytes list"
  tp_tsaLeaf :: bytes
  tp_tsaIntermed :: "bytes list"
  tp_tsaRoot :: bytes
  tp_rekorKeys :: "string \<rightharpoonup> tlog"
  tp_ctlogKeys :: "string \<rightharpoonup> tlog"

definition no_parts :: tr_parts where
  "no_parts = \<lparr>tp_fulcioRoot = [], tp_fulcioIntermed = [], tp_tsaLeaf = [], tp_tsaIntermed = [],
     tp_tsaRoot = [], tp_rekorKeys = Map.empty, tp_ctlogKeys = Map.empty\<rparr>"

definition collect_target ::
  "('cert, 'tr, 'sc) repo_lib \<Rightarrow> tr_parts \<Rightarrow> TargetWithMetadata \<Rightarrow> tr_parts go" where
  "collect_target L a target =
     (let name = tg_Name target; bs = tg_Bytes target; usage = getTargetUsage name
      in if usage = FulcioTarget
         then Ok (if Contains name ''intermediate''
                  then a\<lparr>tp_fulcioIntermed := tp_fulcioIntermed a @ [bs]\<rparr>
                  else a\<lparr>tp_fulcioRoot := bs\<rparr>)
         else if usage = TSATarget
         then Ok (if Contains name ''leaf'' then a\<lparr>tp_tsaLeaf := bs\<rparr>
                  else if Contains name ''intermediate''
                  then a\<lparr>tp_tsaIntermed := tp_tsaIntermed a @ [bs]\<rparr>
                  else a\<lparr>tp_tsaRoot := bs\<rparr>)
         else if usage = RekorTarget
         then (let rekorURL = ''rekor.rekor-system.svc''
           in go_bind (wrapf ''failed to parse rekor key''
                (pubkeyToTransparencyLogInstance L rekorURL bs (rl_now L)))
                (\<lambda>(tlinstance, id). Ok (a\<lparr>tp_rekorKeys := (tp_rekorKeys a)
                   (id \<mapsto> tlinstance\<lparr>tl_BaseURL := ''http://'' @ rekorURL\<rparr>)\<rparr>)))
         else if usage = CTFETarget
         then go_bind (wrapf ''failed to parse ctlog key''
                (pubkeyToTransparencyLogInstance L ''ctlog.ctlog-system.svc'' bs (rl_now L)))
                (\<lambda>(tlinstance, id). Ok (a\<lparr>tp_ctlogKeys := (tp_ctlogKeys a)(id \<mapsto> tlinstance)\<rparr>))
         else Ok a)"

fun collect_targets ::
  "('cert, 'tr, 'sc) repo_lib \<Rightarrow> TargetWithMetadata list \<Rightarrow> tr_parts \<Rightarrow> tr_parts go" where
  "collect_targets L [] a = Ok a"
| "collect_targets L (t # ts) a = go_bind (collect_target L a t) (collect_targets L ts)"

text \<open>
  \<open>sort.Slice\<close> by name. The names come from the keys of a map, so they differ and the sorted
  list is the only one; see \<open>sort_targets_unique\<close>.
\<close>

definition sort_targets :: "TargetWithMetadata list \<Rightarrow> TargetWithMetadata list" where
  "sort_targets = sort_key tg_Name"

definition fulcio_authorities ::
  "('cert, 'tr, 'sc) repo_lib \<Rightarrow> tr_parts \<Rightarrow> 'cert fulcio_authority list go" where
  "fulcio_authorities L a =
     (let fulcioChainPem = concatCertChain [] (tp_fulcioIntermed a) (tp_fulcioRoot a)
      in if 0 < length fulcioChainPem
         then go_bind (wrapf ''failed to parse cert chain for Fulcio''
                (certChainToCertificateAuthority (rl_pem L) fulcioChainPem)) (\<lambda>fa. Ok [fa])
         else Ok [])"

definition tsa_authorities ::
  "('cert, 'tr, 'sc) repo_lib \<Rightarrow> tr_parts \<Rightarrow> 'cert tsa_authority list go" where
  "tsa_authorities L a =
     (let tsaChainPem = concatCertChain (tp_tsaLeaf a) (tp_tsaIntermed a) (tp_tsaRoot a)
      in if 0 < length tsaChainPem
         then go_bind (wrapf ''failed to parse cert chain for TSA''
                (certChainToTimestampingAuthority (rl_pem L) tsaChainPem)) (\<lambda>ta. Ok [ta])
         else Ok [])"

definition constructTrustedRoot ::
  "('cert, 'tr, 'sc) repo_lib \<Rightarrow> TargetWithMetadata list \<Rightarrow> TargetWithMetadata go" where
  "constructTrustedRoot L targets =
     go_bind (collect_targets L (sort_targets targets) no_parts) (\<lambda>a.
     go_bind (fulcio_authorities L a) (\<lambda>fulcioAuthorities.
     go_bind (tsa_authorities L a) (\<lambda>tsaAuthorities.
     go_bind (wrapf ''failed to create TrustedRoot''
       (rl_NewTrustedRoot L (rl_TrustedRootMediaType01 L) fulcioAuthorities (tp_ctlogKeys a)
          tsaAuthorities (tp_rekorKeys a))) (\<lambda>tr.
     go_bind (wrapf ''failed to serialize TrustedRoot to JSON'' (rl_MarshalTrustedRoot L tr)) (\<lambda>serialized.
     Ok \<lparr>tg_Name = ''trusted_root.json'', tg_Bytes = serialized, tg_CustomMetadata = []\<rparr>)))))"

section \<open>The signing config\<close>

definition test_service :: "string \<Rightarrow> nat \<Rightarrow> int \<Rightarrow> service" where
  "test_service url version start =
     \<lparr>sv_URL = url, sv_MajorAPIVersion = version, sv_ValidityPeriodStart = start, sv_Operator = ''test''\<rparr>"

definition constructSigningConfig :: "('cert, 'tr, 'sc) repo_lib \<Rightarrow> TargetWithMetadata go" where
  "constructSigningConfig L =
     (let validityStart = rl_now L;
          fulcioServices = [test_service ''http://fulcio.fulcio-system.svc'' 1 validityStart];
          oidcServices = [test_service ''https://kubernetes.default.svc.cluster.local'' 1 validityStart];
          rekorServices = [test_service ''http://rekor.rekor-system.svc'' 2 validityStart];
          tsaServices = [test_service ''http://tsa.tsa-system.svc/api/v1/timestamp'' 1 validityStart]
      in go_bind (wrapf ''failed to create SigningConfig''
           (rl_NewSigningConfig L (rl_SigningConfigMediaType02 L) fulcioServices oidcServices
              rekorServices ServiceSelector_ANY tsaServices ServiceSelector_ANY)) (\<lambda>signingConfig.
         go_bind (wrapf ''failed to serialize SigningConfig to JSON''
           (rl_MarshalSigningConfig L signingConfig)) (\<lambda>serialized.
         Ok \<lparr>tg_Name = ''signing_config.v0.2.json'', tg_Bytes = serialized, tg_CustomMetadata = []\<rparr>)))"

section \<open>The repository\<close>

text \<open>
  go-tuf on a directory of the disk: the calls of \<open>CreateRepoWithMetadata\<close> in the order of
  the code, and \<open>GetMeta\<close> of the local store. Every call may write below the directory.
\<close>

record tuf_store =
  st_TempDir :: string
  st_NewRepoIndent :: "string \<Rightarrow> (disk, unit) io"
  st_Init :: "string \<Rightarrow> bool \<Rightarrow> (disk, unit) io"
  st_GenKeyWithExpires :: "string \<Rightarrow> string \<Rightarrow> int \<Rightarrow> (disk, unit) io"
  st_AddTargetWithExpires :: "string \<Rightarrow> string \<Rightarrow> bytes \<Rightarrow> int \<Rightarrow> (disk, unit) io"
  st_SnapshotWithExpires :: "string \<Rightarrow> int \<Rightarrow> (disk, unit) io"
  st_TimestampWithExpires :: "string \<Rightarrow> int \<Rightarrow> (disk, unit) io"
  st_Commit :: "string \<Rightarrow> (disk, unit) io"
  st_GetMeta :: "string \<Rightarrow> (disk, gomap) io"
  st_expires :: int

definition writeStagedTarget :: "string \<Rightarrow> string \<Rightarrow> bytes \<Rightarrow> (disk, unit) io" where
  "writeStagedTarget dir path data =
     (let path' = Join [dir, ''staged'', ''targets'', path]
      in io_bind (os_MkdirAll (Dir_of path')) (\<lambda>_. os_WriteFile path' data))"

definition wrap_io :: "string \<Rightarrow> ('w, 'a) io \<Rightarrow> ('w, 'a) io" where
  "wrap_io m = io_map_out (wrapf m)"

fun gen_keys :: "tuf_store \<Rightarrow> string \<Rightarrow> string list \<Rightarrow> (disk, unit) io" where
  "gen_keys S dir [] = io_ret (Ok ())"
| "gen_keys S dir (role # roles) =
     io_bind (wrap_io ''failed to GenKeyWithExpires'' (st_GenKeyWithExpires S dir role (st_expires S)))
       (\<lambda>_. gen_keys S dir roles)"

fun add_targets :: "tuf_store \<Rightarrow> string \<Rightarrow> TargetWithMetadata list \<Rightarrow> (disk, unit) io" where
  "add_targets S dir [] = io_ret (Ok ())"
| "add_targets S dir (t # ts) =
     io_bind (wrap_io (''failed to write staged target '' @ tg_Name t)
                (writeStagedTarget dir (tg_Name t) (tg_Bytes t))) (\<lambda>_.
     io_bind (wrap_io ''failed to add AddTargetWithExpires''
                (st_AddTargetWithExpires S dir (tg_Name t) (tg_CustomMetadata t) (st_expires S))) (\<lambda>_.
     add_targets S dir ts))"

definition CreateRepoWithMetadata ::
  "tuf_store \<Rightarrow> TargetWithMetadata list \<Rightarrow> (disk, string) io" where
  "CreateRepoWithMetadata S targets =
     (let dir0 = Join [st_TempDir S, ''tuf''] in
      io_bind (wrap_io ''failed to create tmp TUF dir'' (os_Mkdir dir0)) (\<lambda>_.
      let dir = dir0 @ ''/'' in
      io_bind (wrap_io ''failed to NewRepoIndent'' (st_NewRepoIndent S dir)) (\<lambda>_.
      io_bind (wrap_io ''failed to Init repo'' (st_Init S dir True)) (\<lambda>_.
      io_bind (gen_keys S dir [''root'', ''targets'', ''snapshot'', ''timestamp'']) (\<lambda>_.
      io_bind (add_targets S dir targets) (\<lambda>_.
      io_bind (wrap_io ''failed to add SnapShotWithExpires'' (st_SnapshotWithExpires S dir (st_expires S))) (\<lambda>_.
      io_bind (wrap_io ''failed to add TimestampWithExpires'' (st_TimestampWithExpires S dir (st_expires S))) (\<lambda>_.
      io_bind (wrap_io ''failed to Commit'' (st_Commit S dir)) (\<lambda>_.
      io_ret (Ok dir))))))))))"

text \<open>The loop over the files, in the order \<open>ks\<close>.\<close>

definition metadata_target :: "gomap \<Rightarrow> string \<Rightarrow> TargetWithMetadata" where
  "metadata_target files name =
     \<lparr>tg_Name = name, tg_Bytes = go_get files name,
      tg_CustomMetadata = marshal_metadata
        \<lparr>cm_Usage = getTargetUsage name, cm_Status = ''Active'', cm_URI = []\<rparr>\<rparr>"

definition build_targets ::
  "('cert, 'tr, 'sc) repo_lib \<Rightarrow> gomap \<Rightarrow> string list \<Rightarrow> CreateRepoOptions \<Rightarrow> TargetWithMetadata list go" where
  "build_targets L files ks options =
     (let metadataTargets = map (metadata_target files) ks;
          targets0 = (if AddMetadataTargets options then metadataTargets else [])
      in go_bind (if AddTrustedRoot options
                  then go_bind (wrapf ''failed to construct trust root'' (constructTrustedRoot L metadataTargets))
                         (\<lambda>t. Ok (targets0 @ [t]))
                  else Ok targets0) (\<lambda>targets1.
         if AddSigningConfig options
         then go_bind (wrapf ''failed to construct signing config'' (constructSigningConfig L))
                (\<lambda>t. Ok (targets1 @ [t]))
         else Ok targets1))"

definition CreateRepoWithOptions ::
  "('cert, 'tr, 'sc) repo_lib \<Rightarrow> tuf_store \<Rightarrow> gomap \<Rightarrow> string list \<Rightarrow> CreateRepoOptions \<Rightarrow> (disk, string) io" where
  "CreateRepoWithOptions L S files ks options =
     (if \<not> AddMetadataTargets options \<and> \<not> AddTrustedRoot options
      then io_ret (Fail (NewErr (''failed to create TUF repo: At least one of metadataTargets, ''
             @ ''trustedRoot must be true'')))
      else io_bind (io_ret (build_targets L files ks options)) (CreateRepoWithMetadata S))"

definition CreateRepo ::
  "('cert, 'tr, 'sc) repo_lib \<Rightarrow> tuf_store \<Rightarrow> gomap \<Rightarrow> string list \<Rightarrow> (disk, string) io" where
  "CreateRepo L S files ks =
     CreateRepoWithOptions L S files ks
       \<lparr>AddMetadataTargets = True, AddTrustedRoot = True, AddSigningConfig = False\<rparr>"

section \<open>Usage of a target\<close>

lemma lower_char_idem [simp]: "lower_char (lower_char c) = lower_char c"
proof (cases "65 \<le> (of_char c :: nat) \<and> (of_char c :: nat) \<le> 90")
  case True
  then have "(of_char (char_of (of_char c + 32 :: nat) :: char) :: nat) = of_char c + 32"
    by simp
  with True show ?thesis by (simp add: lower_char_def Let_def)
qed (auto simp: lower_char_def Let_def)

lemma ToLower_idem [simp]: "ToLower (ToLower s) = ToLower s"
  by (simp add: ToLower_def)

lemma find_usage_lower: "find_usage (ToLower name) ks = find_usage name ks"
  by (induction ks) auto

text \<open>A name of the split chain: no letter of the three usages tested first.\<close>

lemma Contains_set: "Contains s p \<Longrightarrow> set p \<subseteq> set s"
  by (auto simp: Contains_iff)

lemma intermediate_usage:
  shows "getTargetUsage (intermediate_file ''tsa'' i) = TSATarget"
    and "\<not> Contains (intermediate_file ''tsa'' i) ''leaf''"
    and "Contains (intermediate_file ''tsa'' i) ''intermediate''"
proof -
  let ?s = "intermediate_file ''tsa'' i"
  note dig = itoa_below_colon [of _ i]
  have low: "ToLower (itoa i) = itoa i"
    unfolding ToLower_def by (rule map_idI) (use dig in \<open>fastforce simp: lower_char_def Let_def\<close>)
  have l: "ToLower ?s = ?s"
    by (simp add: intermediate_file_def ToLower_def) (use low in \<open>simp add: ToLower_def lower_char_def\<close>)
  have nf: "CHR ''f'' \<notin> set ?s" and nk: "CHR ''k'' \<notin> set ?s"
    using dig [of "CHR ''f''"] dig [of "CHR ''k''"] by (auto simp: intermediate_file_def)
  have "\<not> Contains ?s ''fulcio''" "\<not> Contains ?s ''ctfe''" "\<not> Contains ?s ''rekor''"
    using nf nk Contains_set [of ?s] by fastforce+
  moreover have "Contains ?s ''tsa''" by (simp add: intermediate_file_def)
  moreover have "ToLower ''Fulcio'' = ''fulcio''" "ToLower ''CTFE'' = ''ctfe''"
    "ToLower ''Rekor'' = ''rekor''" "ToLower ''TSA'' = ''tsa''" by code_simp+
  ultimately show "getTargetUsage ?s = TSATarget"
    by (simp add: getTargetUsage_def l target_kinds)
  show "\<not> Contains ?s ''leaf''" using nf Contains_set [of ?s "''leaf''"] by auto
  have "?s = ''tsa_'' @ ''intermediate'' @ (CHR ''_'' # itoa i @ ''.crt.pem'')"
    by (simp add: intermediate_file_def)
  then show "Contains ?s ''intermediate''" unfolding Contains_iff by blast
qed

lemma leaf_root_usage:
  "getTargetUsage (leaf_file ''tsa'') = TSATarget" "Contains (leaf_file ''tsa'') ''leaf''"
  "getTargetUsage (root_file ''tsa'') = TSATarget" "\<not> Contains (root_file ''tsa'') ''leaf''"
  "\<not> Contains (root_file ''tsa'') ''intermediate''"
  by code_simp+

section \<open>What the loop over the targets collects\<close>

lemma sort_targets_unique:
  assumes "distinct (map tg_Name ts)" and "mset us = mset ts" and "sorted (map tg_Name us)"
  shows "sort_targets ts = us"
  unfolding sort_targets_def
  using assms by (intro sort_key_inj_key_eq) (auto simp: distinct_map)

lemma sort_targets_mset_cong:
  assumes "distinct (map tg_Name ts)" and "mset us = mset ts"
  shows "sort_targets us = sort_targets ts"
  by (rule sort_targets_unique [symmetric, OF assms(1)])
     (use assms in \<open>simp_all add: sort_targets_def\<close>)

definition tsa_leaf :: "TargetWithMetadata \<Rightarrow> bool" where
  "tsa_leaf t \<longleftrightarrow> getTargetUsage (tg_Name t) = TSATarget \<and> Contains (tg_Name t) ''leaf''"

definition tsa_intermediate :: "TargetWithMetadata \<Rightarrow> bool" where
  "tsa_intermediate t \<longleftrightarrow> getTargetUsage (tg_Name t) = TSATarget \<and> \<not> Contains (tg_Name t) ''leaf''
     \<and> Contains (tg_Name t) ''intermediate''"

definition tsa_root :: "TargetWithMetadata \<Rightarrow> bool" where
  "tsa_root t \<longleftrightarrow> getTargetUsage (tg_Name t) = TSATarget \<and> \<not> Contains (tg_Name t) ''leaf''
     \<and> \<not> Contains (tg_Name t) ''intermediate''"

definition last_bytes :: "bytes \<Rightarrow> TargetWithMetadata list \<Rightarrow> bytes" where
  "last_bytes b ts = (if ts = [] then b else tg_Bytes (last ts))"

lemma collect_target_tsa:
  assumes "collect_target L a t = Ok b"
  shows "tp_tsaLeaf b = (if tsa_leaf t then tg_Bytes t else tp_tsaLeaf a)"
    and "tp_tsaIntermed b = tp_tsaIntermed a @ (if tsa_intermediate t then [tg_Bytes t] else [])"
    and "tp_tsaRoot b = (if tsa_root t then tg_Bytes t else tp_tsaRoot a)"
  using assms
  by (auto simp: collect_target_def Let_def tsa_leaf_def tsa_intermediate_def tsa_root_def
      go_bind_Ok_conv target_kinds split: if_splits)

lemma collect_targets_tsa:
  "collect_targets L ts a = Ok b \<Longrightarrow>
     tp_tsaLeaf b = last_bytes (tp_tsaLeaf a) (filter tsa_leaf ts) \<and>
     tp_tsaIntermed b = tp_tsaIntermed a @ map tg_Bytes (filter tsa_intermediate ts) \<and>
     tp_tsaRoot b = last_bytes (tp_tsaRoot a) (filter tsa_root ts)"
proof (induction ts arbitrary: a)
  case (Cons t ts)
  then obtain c where c: "collect_target L a t = Ok c" "collect_targets L ts c = Ok b"
    by (auto simp: go_bind_Ok_conv)
  with Cons.IH [OF c(2)] collect_target_tsa [OF c(1)] show ?case by (auto simp: last_bytes_def)
qed (simp add: last_bytes_def)

section \<open>Reading a chain back\<close>

lemma assign_tsa_tail:
  "0 < i \<Longrightarrow> i + length cs = len \<Longrightarrow>
     assign_tsa L len i cs ca =
       (if cs = [] then ca
        else ca\<lparr>ta_Intermediates := ta_Intermediates ca @ butlast cs, ta_Root := Some (last cs)\<rparr>)"
proof (induction cs arbitrary: i ca)
  case (Cons c cs)
  then show ?case by (cases cs) auto
qed simp

text \<open>
  Which certificate goes where: the last one is the root, a first one that is no authority the
  leaf, and the others are the intermediates.
\<close>

lemma assign_tsa_fields:
  assumes "2 \<le> length certs"
  shows "assign_tsa L (length certs) 0 certs
     \<lparr>ta_Leaf = None, ta_Intermediates = [], ta_Root = None, ta_ValidityPeriodStart = s, ta_ValidityPeriodEnd = e\<rparr> =
     \<lparr>ta_Leaf = (if pl_IsCA L (hd certs) then None else Some (hd certs)),
      ta_Intermediates = butlast (if pl_IsCA L (hd certs) then certs else tl certs),
      ta_Root = Some (last certs), ta_ValidityPeriodStart = s, ta_ValidityPeriodEnd = e\<rparr>"
proof -
  obtain c cs where "certs = c # cs" "cs \<noteq> []" using assms by (cases certs) fastforce+
  then show ?thesis by (simp add: assign_tsa_tail)
qed

lemma assign_fulcio_chain:
  "i + length cs = len \<Longrightarrow>
     assign_fulcio len i cs ca =
       (if cs = [] then ca
        else ca\<lparr>fa_Intermediates := fa_Intermediates ca @ butlast cs, fa_Root := Some (last cs)\<rparr>)"
proof (induction cs arbitrary: i ca)
  case (Cons c cs)
  then show ?case by (cases cs) auto
qed simp

text \<open>Text without space at either end.\<close>

definition trimmed :: "string \<Rightarrow> bool" where
  "trimmed s \<longleftrightarrow> s \<noteq> [] \<and> \<not> is_space (hd s) \<and> \<not> is_space (last s)"

lemma TrimSpace_trimmed: "trimmed s \<Longrightarrow> TrimSpace s = s"
proof -
  assume t: "trimmed s"
  then have "dropWhile is_space s = s" by (cases s) (auto simp: trimmed_def)
  moreover have "dropWhile is_space (rev s) = rev s"
    using t by (cases "rev s") (auto simp: trimmed_def hd_rev [symmetric])
  ultimately show ?thesis by (simp add: TrimSpace_def)
qed

lemma trimmed_TrimSpace: "TrimSpace s \<noteq> [] \<Longrightarrow> trimmed (TrimSpace s)"
proof -
  let ?a = "dropWhile is_space s" and ?b = "dropWhile is_space (rev (dropWhile is_space s))"
  assume ne: "TrimSpace s \<noteq> []"
  then have b: "?b \<noteq> []" unfolding TrimSpace_def by (metis rev.simps(1))
  then have "\<not> is_space (hd ?b)" by (rule hd_dropWhile)
  then have l: "\<not> is_space (last (TrimSpace s))" using b by (simp add: TrimSpace_def last_rev)
  obtain p where p: "rev ?a = p @ ?b" by (metis takeWhile_dropWhile_id)
  then have a: "?a = rev ?b @ rev p" by (metis rev_append rev_rev_ident)
  have "?a \<noteq> []" using b by (metis dropWhile.simps(1) rev.simps(1))
  then have "\<not> is_space (hd ?a)" by (rule hd_dropWhile)
  moreover have "hd ?a = hd (rev ?b)" using b by (subst a) (simp only: hd_append rev_is_Nil_conv if_False)
  ultimately have "\<not> is_space (hd (TrimSpace s))" by (simp add: TrimSpace_def)
  with ne l show ?thesis by (simp add: trimmed_def)
qed

lemma TrimSpace_newline [simp]: "TrimSpace (CHR 0x0A # s) = TrimSpace s"
  by (simp add: TrimSpace_def is_space_def)

lemma TrimSpace_newlines [simp]: "TrimSpace (replicate n (CHR 0x0A) @ s) = TrimSpace s"
  by (induction n) simp_all

lemma TrimSpace_line: "trimmed s \<Longrightarrow> TrimSpace (s @ [CHR 0x0A]) = s"
proof -
  assume t: "trimmed s"
  then have "dropWhile is_space (s @ [CHR 0x0A]) = s @ [CHR 0x0A]" by (cases s) (auto simp: trimmed_def)
  then have "TrimSpace (s @ [CHR 0x0A]) = rev (dropWhile is_space (rev s))"
    by (simp add: TrimSpace_def is_space_def)
  also have "\<dots> = s" using t by (cases "rev s") (auto simp: trimmed_def hd_rev [symmetric])
  finally show ?thesis .
qed

text \<open>Texts one after the other with a newline and \<open>n\<close> empty lines between them.\<close>

fun join_nl :: "nat \<Rightarrow> string list \<Rightarrow> string" where
  "join_nl n [] = []"
| "join_nl n [w] = w"
| "join_nl n (w # v # ws) = w @ CHR 0x0A # replicate n (CHR 0x0A) @ join_nl n (v # ws)"

lemma join_nl_trimmed: "ws \<noteq> [] \<Longrightarrow> \<forall>w \<in> set ws. trimmed w \<Longrightarrow> trimmed (join_nl n ws)"
proof (induction n ws rule: join_nl.induct)
  case (3 n w v ws)
  then show ?case by (cases w) (auto simp: trimmed_def)
qed auto

lemma join_nl_snoc:
  "join_nl n (ws @ [r]) = concat (map (\<lambda>i. i @ CHR 0x0A # replicate n (CHR 0x0A)) ws) @ r"
proof (induction ws)
  case (Cons w ws)
  then show ?case by (cases "ws @ [r]") auto
qed simp

lemma concatCertChain_join:
  "leaf \<noteq> [] \<Longrightarrow> concatCertChain leaf ints root = join_nl 0 (leaf # ints @ [root])"
  using join_nl_snoc [of 0 "leaf # ints" root] by (simp add: concatCertChain_def)

text \<open>Texts that end with a newline themselves: the separator leaves an empty line between them.\<close>

lemma concatCertChain_lines:
  "concatCertChain [] (map (\<lambda>w. w @ [CHR 0x0A]) ws) (r @ [CHR 0x0A]) = join_nl 1 (ws @ [r]) @ [CHR 0x0A]"
  by (simp add: concatCertChain_def join_nl_snoc o_def)

text \<open>
  What is relied on of PEM: the text of a certificate, without the space around it, is where
  decoding stops, at the end of the input or at a newline, and its block parses as the
  certificate.
\<close>

locale pem_chain =
  fixes L :: "'cert pem_lib"
  assumes marshal_text: "pl_MarshalCertificateToPEM L c = Ok p \<Longrightarrow> TrimSpace p \<noteq> []"
    and decode_first: "pl_MarshalCertificateToPEM L c = Ok p \<Longrightarrow> rest = [] \<or> (\<exists>r. rest = CHR 0x0A # r) \<Longrightarrow>
      \<exists>der n. pl_pem_Decode L (TrimSpace p @ rest) = Some (der, n)
        \<and> TrimSpace (drop (Suc n) (TrimSpace p @ rest)) = TrimSpace rest
        \<and> pl_ParseCertificate L der = Ok c"
begin

lemma marshal_trimmed:
  "map (pl_MarshalCertificateToPEM L) certs = map Ok pems \<Longrightarrow> \<forall>w \<in> set (map TrimSpace pems). trimmed w"
proof
  fix w
  assume m: "map (pl_MarshalCertificateToPEM L) certs = map Ok pems" and w: "w \<in> set (map TrimSpace pems)"
  then obtain p where p: "p \<in> set pems" "w = TrimSpace p" by auto
  then have "Ok p \<in> set (map (pl_MarshalCertificateToPEM L) certs)" unfolding m by auto
  then obtain c where "pl_MarshalCertificateToPEM L c = Ok p" by auto
  from marshal_text [OF this] show "trimmed w" unfolding p(2) by (rule trimmed_TrimSpace)
qed

lemma parse_first:
  assumes "pl_MarshalCertificateToPEM L c = Ok p" and "rest = [] \<or> (\<exists>r. rest = CHR 0x0A # r)"
  shows "parse_certs L (TrimSpace p @ rest) acc = parse_certs L (TrimSpace rest) (acc @ [c])"
  using decode_first [OF assms] marshal_text [OF assms(1)]
  by (subst parse_certs.simps) auto

lemma parse_joined:
  "map (pl_MarshalCertificateToPEM L) certs = map Ok pems \<Longrightarrow>
     parse_certs L (join_nl n (map TrimSpace pems)) acc = Ok (acc @ certs)"
proof (induction certs arbitrary: pems acc)
  case Nil
  then show ?case by (simp add: parse_certs.simps)
next
  case (Cons c cs)
  then obtain p ps where pems: "pems = p # ps" and c: "pl_MarshalCertificateToPEM L c = Ok p"
    and cs: "map (pl_MarshalCertificateToPEM L) cs = map Ok ps" by (auto simp: Cons_eq_map_conv)
  show ?case
  proof (cases "ps = []")
    case True
    with parse_first [OF c, of "[]" acc] Cons.IH [OF cs, of "acc @ [c]"] pems show ?thesis
      by (simp add: TrimSpace_def)
  next
    case False
    then have j: "join_nl n (map TrimSpace pems) =
        TrimSpace p @ CHR 0x0A # replicate n (CHR 0x0A) @ join_nl n (map TrimSpace ps)"
      using pems by (cases ps) auto
    have "TrimSpace (CHR 0x0A # replicate n (CHR 0x0A) @ join_nl n (map TrimSpace ps)) = join_nl n (map TrimSpace ps)"
      using join_nl_trimmed [OF _ marshal_trimmed [OF cs]] False by (simp add: TrimSpace_trimmed)
    with parse_first [OF c, of "CHR 0x0A # replicate n (CHR 0x0A) @ join_nl n (map TrimSpace ps)" acc] Cons.IH [OF cs, of "acc @ [c]"]
    show ?thesis unfolding j by simp
  qed
qed

text \<open>A chain cut into leaf, intermediates and root, put together and parsed.\<close>

lemma chain_read_back:
  assumes "map (pl_MarshalCertificateToPEM L) certs = map Ok (leaf # ints @ [root])"
  shows "certChainToTimestampingAuthority L
       (concatCertChain (TrimSpace leaf) (map TrimSpace ints) (TrimSpace root)) =
     Ok \<lparr>ta_Leaf = (if pl_IsCA L (hd certs) then None else Some (hd certs)),
         ta_Intermediates = butlast (if pl_IsCA L (hd certs) then certs else tl certs),
         ta_Root = Some (last certs), ta_ValidityPeriodStart = pl_NotBefore L (hd certs),
         ta_ValidityPeriodEnd = pl_NotAfter L (hd certs)\<rparr>"
proof -
  let ?text = "concatCertChain (TrimSpace leaf) (map TrimSpace ints) (TrimSpace root)"
  have t: "\<forall>w \<in> set (map TrimSpace (leaf # ints @ [root])). trimmed w" by (rule marshal_trimmed [OF assms])
  then have j: "?text = join_nl 0 (map TrimSpace (leaf # ints @ [root]))"
    by (subst concatCertChain_join) (auto simp: trimmed_def)
  have trim: "TrimSpace ?text = ?text"
    unfolding j by (rule TrimSpace_trimmed, rule join_nl_trimmed [OF _ t]) simp
  have len: "length certs = length (leaf # ints @ [root])" using assms by (metis length_map)
  then have ne: "certs \<noteq> []" "2 \<le> length certs" by auto
  have "parse_certs L (TrimSpace ?text) [] = Ok certs"
    unfolding trim using parse_joined [OF assms, of 0 "[]"] by (simp add: j)
  then show ?thesis
    using ne assign_tsa_fields [OF ne(2), of L]
    by (simp add: certChainToTimestampingAuthority_def hd_conv_nth del: assign_tsa.simps)
qed

end

text \<open>Where the text of a certificate is not trimmed it matters that it ends with one newline.\<close>

locale pem_lines = pem_chain +
  assumes marshal_line: "pl_MarshalCertificateToPEM L c = Ok p \<Longrightarrow> p = TrimSpace p @ [CHR 0x0A]"
begin

lemma fulcio_read_back:
  assumes "map (pl_MarshalCertificateToPEM L) certs = map Ok (ints @ [root])"
  shows "certChainToCertificateAuthority L (concatCertChain [] ints root) =
     Ok \<lparr>fa_Intermediates = butlast certs, fa_Root = Some (last certs),
         fa_ValidityPeriodStart = pl_NotBefore L (hd certs), fa_ValidityPeriodEnd = pl_NotAfter L (hd certs)\<rparr>"
proof -
  let ?ws = "map TrimSpace (ints @ [root])"
  have line: "p = TrimSpace p @ [CHR 0x0A]" if "p \<in> set (ints @ [root])" for p
  proof -
    from that have "Ok p \<in> set (map (pl_MarshalCertificateToPEM L) certs)" unfolding assms by auto
    then show ?thesis using marshal_line by auto
  qed
  have "ints = map (\<lambda>w. w @ [CHR 0x0A]) (map TrimSpace ints)" "root = TrimSpace root @ [CHR 0x0A]"
    using line by (auto intro!: map_idI [symmetric])
  then have "concatCertChain [] ints root = join_nl 1 ?ws @ [CHR 0x0A]"
    using concatCertChain_lines [of "map TrimSpace ints" "TrimSpace root"] by simp
  moreover have "trimmed (join_nl 1 ?ws)" by (rule join_nl_trimmed [OF _ marshal_trimmed [OF assms]]) simp
  ultimately have "TrimSpace (concatCertChain [] ints root) = join_nl 1 ?ws" by (simp only: TrimSpace_line)
  then have "parse_certs L (TrimSpace (concatCertChain [] ints root)) [] = Ok certs"
    using parse_joined [OF assms, of 1 "[]"] by simp
  moreover have "certs \<noteq> []" using assms by auto
  ultimately show ?thesis
    by (simp add: certChainToCertificateAuthority_def assign_fulcio_chain hd_conv_nth del: assign_fulcio.simps)
qed

end

section \<open>The split chain among the targets\<close>

lemma sorted_names_unique:
  fixes xs ys :: "(string \<times> bytes) list"
  assumes "sorted (map fst xs)" "distinct (map fst xs)" "sorted (map fst ys)" "distinct (map fst ys)"
    and "set xs = set ys"
  shows "xs = ys"
proof -
  have m: "mset xs = mset ys" using assms set_eq_iff_mset_eq_distinct [of xs ys] by (auto simp: distinct_map)
  have "sort_key fst xs = ys" using assms m by (intro sort_key_inj_key_eq) (auto simp: distinct_map)
  moreover have "sort_key fst xs = xs" using assms by (intro sort_key_inj_key_eq) (auto simp: distinct_map)
  ultimately show ?thesis by simp
qed

lemma intermediates_sorted: "n \<le> 10 \<Longrightarrow> sorted (map (intermediate_file ''tsa'') [0..<n])"
proof -
  assume n: "n \<le> 10"
  have s: "sorted (map (intermediate_file ''tsa'') [0..<10])" by code_simp
  have "map (intermediate_file ''tsa'') [0..<n] = take n (map (intermediate_file ''tsa'') [0..<10])"
    using n by (simp add: take_map)
  then show ?thesis using sorted_wrt_take [OF s] by simp
qed

text \<open>The files of a split chain, trimmed, as the targets of the server.\<close>

definition name_bytes :: "TargetWithMetadata \<Rightarrow> string \<times> bytes" where
  "name_bytes t = (tg_Name t, tg_Bytes t)"

definition trimmed_files :: "gomap \<Rightarrow> (string \<times> bytes) set" where
  "trimmed_files m = {(k, TrimSpace v) | k v. m k = Some v}"

lemma name_bytes_simps [simp]: "fst (name_bytes t) = tg_Name t" "snd (name_bytes t) = tg_Bytes t"
  by (simp_all add: name_bytes_def)

lemma filtered_targets:
  assumes "distinct (map tg_Name ts)" and "sorted (map fst ys)" "distinct (map fst ys)"
    and "name_bytes ` {t \<in> set ts. P t} = set ys"
  shows "map name_bytes (filter P (sort_targets ts)) = ys"
proof (rule sorted_names_unique)
  have eq: "map fst (map name_bytes (filter P (sort_targets ts))) = map tg_Name (sort_key tg_Name (filter P ts))"
    by (simp add: sort_targets_def filter_sort o_def)
  show "sorted (map fst (map name_bytes (filter P (sort_targets ts))))" unfolding eq by simp
  show "distinct (map fst (map name_bytes (filter P (sort_targets ts))))"
    unfolding eq using assms(1) distinct_map_filter [of tg_Name ts P] by (auto simp: distinct_map)
  show "set (map name_bytes (filter P (sort_targets ts))) = set ys"
    using assms(4) by (simp add: sort_targets_def Collect_conj_eq Int_commute)
qed (use assms in auto)

lemma usage_parts:
  assumes "\<And>t. P t \<Longrightarrow> getTargetUsage (tg_Name t) = TSATarget"
    and "name_bytes ` {t \<in> set ts. getTargetUsage (tg_Name t) = TSATarget} = F"
    and "\<And>t. P t \<longleftrightarrow> getTargetUsage (tg_Name t) = TSATarget \<and> Q (tg_Name t)"
  shows "name_bytes ` {t \<in> set ts. P t} = {x \<in> F. Q (fst x)}"
  unfolding assms(2) [symmetric] assms(3) by auto

lemma trimmed_split_files:
  "trimmed_files (map_of (split_files pfx (leaf # ints @ [root]))) =
     insert (leaf_file pfx, TrimSpace leaf) (insert (root_file pfx, TrimSpace root)
       (set (map (\<lambda>i. (intermediate_file pfx i, TrimSpace (ints ! i))) [0..<length ints])))"
proof -
  let ?s = "split_files pfx (leaf # ints @ [root])"
  have "trimmed_files (map_of ?s) = (\<lambda>(k, v). (k, TrimSpace v)) ` set ?s"
    using map_of_eq_Some_iff [OF split_files_distinct [of pfx "leaf # ints @ [root]"]]
    by (force simp: trimmed_files_def)
  then show ?thesis by (auto simp: split_files_def nth_append image_image)
qed

lemma split_targets_parts:
  assumes "distinct (map tg_Name ts)" and "length ints \<le> 10"
    and "name_bytes ` {t \<in> set ts. getTargetUsage (tg_Name t) = TSATarget} =
      trimmed_files (map_of (split_files ''tsa'' (leaf # ints @ [root])))"
  shows "map name_bytes (filter tsa_leaf (sort_targets ts)) = [(leaf_file ''tsa'', TrimSpace leaf)]"
    and "map name_bytes (filter tsa_root (sort_targets ts)) = [(root_file ''tsa'', TrimSpace root)]"
    and "map name_bytes (filter tsa_intermediate (sort_targets ts)) =
      map (\<lambda>i. (intermediate_file ''tsa'' i, TrimSpace (ints ! i))) [0..<length ints]"
proof -
  let ?I = "map (\<lambda>i. (intermediate_file ''tsa'' i, TrimSpace (ints ! i))) [0..<length ints]"
  let ?F = "trimmed_files (map_of (split_files ''tsa'' (leaf # ints @ [root])))"
  note F = trimmed_split_files [of "''tsa''" leaf ints root]
  have fstI: "x \<in> set ?I \<Longrightarrow> \<exists>i. fst x = intermediate_file ''tsa'' i" for x by auto
  show "map name_bytes (filter tsa_leaf (sort_targets ts)) = [(leaf_file ''tsa'', TrimSpace leaf)]"
  proof (rule filtered_targets [OF assms(1)])
    have "name_bytes ` {t \<in> set ts. tsa_leaf t} = {x \<in> ?F. Contains (fst x) ''leaf''}"
      by (rule usage_parts [OF _ assms(3)]) (auto simp: tsa_leaf_def)
    then show "name_bytes ` {t \<in> set ts. tsa_leaf t} = set [(leaf_file ''tsa'', TrimSpace leaf)]"
      unfolding F using fstI intermediate_usage leaf_root_usage by auto
  qed auto
  show "map name_bytes (filter tsa_root (sort_targets ts)) = [(root_file ''tsa'', TrimSpace root)]"
  proof (rule filtered_targets [OF assms(1)])
    have "name_bytes ` {t \<in> set ts. tsa_root t} =
        {x \<in> ?F. \<not> Contains (fst x) ''leaf'' \<and> \<not> Contains (fst x) ''intermediate''}"
      by (rule usage_parts [OF _ assms(3)]) (auto simp: tsa_root_def)
    then show "name_bytes ` {t \<in> set ts. tsa_root t} = set [(root_file ''tsa'', TrimSpace root)]"
      unfolding F using fstI intermediate_usage leaf_root_usage by auto
  qed auto
  show "map name_bytes (filter tsa_intermediate (sort_targets ts)) = ?I"
  proof (rule filtered_targets [OF assms(1)])
    have "name_bytes ` {t \<in> set ts. tsa_intermediate t} =
        {x \<in> ?F. \<not> Contains (fst x) ''leaf'' \<and> Contains (fst x) ''intermediate''}"
      by (rule usage_parts [OF _ assms(3)]) (auto simp: tsa_intermediate_def)
    then show "name_bytes ` {t \<in> set ts. tsa_intermediate t} = set ?I"
      unfolding F using fstI intermediate_usage leaf_root_usage by auto
    show "sorted (map fst ?I)" using intermediates_sorted [OF assms(2)] by (simp add: o_def)
    show "distinct (map fst ?I)" by (auto simp: o_def distinct_map inj_on_def)
  qed
qed

lemma collected_chain:
  assumes "distinct (map tg_Name ts)" and "length ints \<le> 10"
    and "name_bytes ` {t \<in> set ts. getTargetUsage (tg_Name t) = TSATarget} =
      trimmed_files (map_of (split_files ''tsa'' (leaf # ints @ [root])))"
    and "collect_targets L (sort_targets ts) no_parts = Ok a"
  shows "tp_tsaLeaf a = TrimSpace leaf" "tp_tsaIntermed a = map TrimSpace ints" "tp_tsaRoot a = TrimSpace root"
proof -
  note parts = split_targets_parts [OF assms(1-3)] and c = collect_targets_tsa [OF assms(4)]
  have one: "last_bytes b xs = snd y" if "map name_bytes xs = [y]" for b xs y
    using that by (auto simp: last_bytes_def)
  show "tp_tsaLeaf a = TrimSpace leaf" "tp_tsaRoot a = TrimSpace root"
    using c one [OF parts(1)] one [OF parts(2)] by simp_all
  have "map tg_Bytes (filter tsa_intermediate (sort_targets ts)) = map snd (map name_bytes (filter tsa_intermediate (sort_targets ts)))"
    by (simp add: o_def)
  also have "\<dots> = map TrimSpace (map ((!) ints) [0..<length ints])" unfolding parts(3) by (simp add: o_def)
  also have "\<dots> = map TrimSpace ints" by (simp only: map_nth)
  finally show "tp_tsaIntermed a = map TrimSpace ints" using c by (simp add: no_parts_def)
qed

section \<open>The contract of go-tuf\<close>

text \<open>
  \<open>staged\<close> and \<open>published\<close> are the target entries of the staged and of the committed metadata
  of a repository: for each name the contents and the custom metadata.
\<close>

type_synonym tuf_targets = "string \<rightharpoonup> bytes \<times> bytes"

definition staged_path :: "string \<Rightarrow> string \<Rightarrow> string" where
  "staged_path dir name = Join [dir, ''staged'', ''targets'', name]"

declare io_bind.simps [simp del]

locale tuf_repository =
  fixes S :: tuf_store
    and staged :: "disk \<Rightarrow> string \<Rightarrow> tuf_targets"
    and published :: "disk \<Rightarrow> string \<Rightarrow> tuf_targets"
  assumes temp: "is_rooted (st_TempDir S)"
    and init: "is_rooted dir \<Longrightarrow> st_Init S dir cs d = (Ok (), d') \<Longrightarrow> staged d' dir = Map.empty"
    and gen_key: "is_rooted dir \<Longrightarrow> st_GenKeyWithExpires S dir role e d = (Ok (), d') \<Longrightarrow>
      role \<in> {''root'', ''targets'', ''snapshot'', ''timestamp''} \<Longrightarrow> staged d' dir = staged d dir"
    and stage_write: "is_rooted dir \<Longrightarrow> normal name \<Longrightarrow> writeStagedTarget dir name b d = (Ok (), d') \<Longrightarrow>
      staged d' dir = staged d dir"
    and add: "is_rooted dir \<Longrightarrow> normal name \<Longrightarrow>
      st_AddTargetWithExpires S dir name custom e d = (Ok (), d') \<Longrightarrow>
      fs_kind (dk_root d) (resolve (dk_cwd d) (staged_path dir name)) = Some (KFile b) \<Longrightarrow>
      staged d' dir = (staged d dir)(name \<mapsto> (b, custom))"
    and snapshot: "is_rooted dir \<Longrightarrow> st_SnapshotWithExpires S dir e d = (Ok (), d') \<Longrightarrow> staged d' dir = staged d dir"
    and timestamp: "is_rooted dir \<Longrightarrow> st_TimestampWithExpires S dir e d = (Ok (), d') \<Longrightarrow> staged d' dir = staged d dir"
    and commit: "is_rooted dir \<Longrightarrow> st_Commit S dir d = (Ok (), d') \<Longrightarrow> published d' dir = staged d dir"
begin

lemma gen_keys_staged:
  "is_rooted dir \<Longrightarrow> set roles \<subseteq> {''root'', ''targets'', ''snapshot'', ''timestamp''} \<Longrightarrow>
     gen_keys S dir roles d = (Ok (), d') \<Longrightarrow> staged d' dir = staged d dir"
proof (induction roles arbitrary: d)
  case (Cons role roles)
  then obtain d1 where "st_GenKeyWithExpires S dir role (st_expires S) d = (Ok (), d1)"
    and "gen_keys S dir roles d1 = (Ok (), d')"
    by (auto simp: wrap_io_def io_bind_Ok_conv io_map_out_Ok_conv)
  with Cons gen_key show ?case by (metis insert_subset list.simps(15))
qed (simp add: io_ret_Ok_conv)

lemma writeStagedTarget_file:
  assumes "writeStagedTarget dir name b d = (Ok (), d')"
  shows "fs_kind (dk_root d') (resolve (dk_cwd d') (staged_path dir name)) = Some (KFile b)"
proof -
  obtain d1 where m: "os_MkdirAll (Dir_of (staged_path dir name)) d = (Ok (), d1)"
    and w: "os_WriteFile (staged_path dir name) b d1 = (Ok (), d')"
    using assms by (auto simp: writeStagedTarget_def staged_path_def Let_def io_bind_Ok_conv)
  from WriteFile_Ok [OF w] show ?thesis by simp
qed

lemma add_targets_staged:
  "is_rooted dir \<Longrightarrow> \<forall>t \<in> set ts. normal (tg_Name t) \<Longrightarrow> add_targets S dir ts d = (Ok (), d') \<Longrightarrow>
     staged d' dir = staged d dir ++
       map_of (rev (map (\<lambda>t. (tg_Name t, (tg_Bytes t, tg_CustomMetadata t))) ts))"
proof (induction ts arbitrary: d)
  case (Cons t ts)
  then obtain d1 d2 where w: "writeStagedTarget dir (tg_Name t) (tg_Bytes t) d = (Ok (), d1)"
    and a: "st_AddTargetWithExpires S dir (tg_Name t) (tg_CustomMetadata t) (st_expires S) d1 = (Ok (), d2)"
    and r: "add_targets S dir ts d2 = (Ok (), d')"
    by (auto simp: wrap_io_def io_bind_Ok_conv io_map_out_Ok_conv)
  have n: "normal (tg_Name t)" using Cons.prems(2) by simp
  have "staged d2 dir = (staged d dir)(tg_Name t \<mapsto> (tg_Bytes t, tg_CustomMetadata t))"
    using add [OF Cons.prems(1) n a writeStagedTarget_file [OF w]] stage_write [OF Cons.prems(1) n w] by simp
  with Cons.IH [OF Cons.prems(1) _ r] Cons.prems(2) show ?case
    by (simp add: fun_eq_iff map_add_def split: option.splits)
qed (simp add: io_ret_Ok_conv)

lemma repo_dir_rooted: "is_rooted (Join [st_TempDir S, ''tuf''] @ ''/'')"
proof -
  have "normal ''tuf''" by (simp add: normal_def)
  then have "Join [st_TempDir S, ''tuf''] = abs_path (resolve [] (st_TempDir S) @ [''tuf''])"
    using Join_many(1) [OF temp, of "[''tuf'']"] by simp
  then show ?thesis by (simp add: abs_path_def is_rooted_def)
qed

lemma CreateRepoWithMetadata_published:
  assumes "CreateRepoWithMetadata S ts d = (Ok dir, d')" and "\<forall>t \<in> set ts. normal (tg_Name t)"
  shows "published d' dir = map_of (rev (map (\<lambda>t. (tg_Name t, (tg_Bytes t, tg_CustomMetadata t))) ts))"
proof -
  let ?dir = "Join [st_TempDir S, ''tuf''] @ ''/''"
  note r = repo_dir_rooted
  obtain d1 d2 d3 d4 d5 d6 d7 where "os_Mkdir (Join [st_TempDir S, ''tuf'']) d = (Ok (), d1)"
    and "st_NewRepoIndent S ?dir d1 = (Ok (), d2)" and i: "st_Init S ?dir True d2 = (Ok (), d3)"
    and g: "gen_keys S ?dir [''root'', ''targets'', ''snapshot'', ''timestamp''] d3 = (Ok (), d4)"
    and a: "add_targets S ?dir ts d4 = (Ok (), d5)"
    and s: "st_SnapshotWithExpires S ?dir (st_expires S) d5 = (Ok (), d6)"
    and t: "st_TimestampWithExpires S ?dir (st_expires S) d6 = (Ok (), d7)"
    and c: "st_Commit S ?dir d7 = (Ok (), d')" and dir: "dir = ?dir"
    using assms(1)
    by (auto simp: CreateRepoWithMetadata_def Let_def wrap_io_def io_bind_Ok_conv io_map_out_Ok_conv
        io_ret_Ok_conv simp del: gen_keys.simps)
  have "staged d4 ?dir = Map.empty" using init [OF r i] gen_keys_staged [OF r _ g] by simp
  then show ?thesis
    using add_targets_staged [OF r assms(2) a] snapshot [OF r s] timestamp [OF r t] commit [OF r c]
    unfolding dir by simp
qed

end

text \<open>How a trusted root that was constructed is made of the targets, and what a signing config holds.\<close>

definition trusted_root_bytes ::
  "('cert, 'tr, 'sc) repo_lib \<Rightarrow> TargetWithMetadata list \<Rightarrow> 'cert fulcio_authority list \<Rightarrow> (string \<rightharpoonup> tlog) \<Rightarrow>
     'cert tsa_authority list \<Rightarrow> (string \<rightharpoonup> tlog) \<Rightarrow> bytes \<Rightarrow> bool" where
  "trusted_root_bytes L targets fas ct tas rk b \<longleftrightarrow>
     (\<exists>a tr. collect_targets L (sort_targets targets) no_parts = Ok a
        \<and> fulcio_authorities L a = Ok fas \<and> tsa_authorities L a = Ok tas
        \<and> ct = tp_ctlogKeys a \<and> rk = tp_rekorKeys a
        \<and> rl_NewTrustedRoot L (rl_TrustedRootMediaType01 L) fas ct tas rk = Ok tr
        \<and> rl_MarshalTrustedRoot L tr = Ok b)"

lemma constructTrustedRoot_OkE:
  assumes "constructTrustedRoot L targets = Ok t"
  obtains fas ct tas rk where "trusted_root_bytes L targets fas ct tas rk (tg_Bytes t)"
    "tg_Name t = ''trusted_root.json''" "tg_CustomMetadata t = []"
proof -
  from assms obtain a fas tas tr b where
    "collect_targets L (sort_targets targets) no_parts = Ok a" "fulcio_authorities L a = Ok fas"
    "tsa_authorities L a = Ok tas"
    "rl_NewTrustedRoot L (rl_TrustedRootMediaType01 L) fas (tp_ctlogKeys a) tas (tp_rekorKeys a) = Ok tr"
    "rl_MarshalTrustedRoot L tr = Ok b"
    "t = \<lparr>tg_Name = ''trusted_root.json'', tg_Bytes = b, tg_CustomMetadata = []\<rparr>"
    by (auto simp: constructTrustedRoot_def go_bind_Ok_conv)
  then show thesis
    by (intro that [of fas "tp_ctlogKeys a" tas "tp_rekorKeys a"]) (auto simp: trusted_root_bytes_def)
qed

definition signing_config_bytes :: "('cert, 'tr, 'sc) repo_lib \<Rightarrow> bytes \<Rightarrow> bool" where
  "signing_config_bytes L b \<longleftrightarrow>
     (\<exists>sc. rl_NewSigningConfig L (rl_SigningConfigMediaType02 L)
          [\<lparr>sv_URL = ''http://fulcio.fulcio-system.svc'', sv_MajorAPIVersion = 1,
             sv_ValidityPeriodStart = rl_now L, sv_Operator = ''test''\<rparr>]
          [\<lparr>sv_URL = ''https://kubernetes.default.svc.cluster.local'', sv_MajorAPIVersion = 1,
             sv_ValidityPeriodStart = rl_now L, sv_Operator = ''test''\<rparr>]
          [\<lparr>sv_URL = ''http://rekor.rekor-system.svc'', sv_MajorAPIVersion = 2,
             sv_ValidityPeriodStart = rl_now L, sv_Operator = ''test''\<rparr>] ServiceSelector_ANY
          [\<lparr>sv_URL = ''http://tsa.tsa-system.svc/api/v1/timestamp'', sv_MajorAPIVersion = 1,
             sv_ValidityPeriodStart = rl_now L, sv_Operator = ''test''\<rparr>] ServiceSelector_ANY = Ok sc
        \<and> rl_MarshalSigningConfig L sc = Ok b)"

lemma constructSigningConfig_Ok:
  "constructSigningConfig L = Ok t \<longleftrightarrow> signing_config_bytes L (tg_Bytes t)
     \<and> tg_Name t = ''signing_config.v0.2.json'' \<and> tg_CustomMetadata t = []"
  by (cases t) (auto simp: constructSigningConfig_def signing_config_bytes_def test_service_def Let_def go_bind_Ok_conv)

definition generated_names :: "CreateRepoOptions \<Rightarrow> string list" where
  "generated_names options = (if AddTrustedRoot options then [''trusted_root.json''] else [])
     @ (if AddSigningConfig options then [''signing_config.v0.2.json''] else [])"

lemma generated_names_ok: "\<forall>n \<in> set (generated_names options). normal n" "distinct (generated_names options)"
  by (auto simp: generated_names_def normal_def)

text \<open>The targets are those of the files, as far as they are asked for, and the generated ones.\<close>

lemma build_targets_OkE:
  assumes "build_targets L files ks options = Ok ts"
  obtains gen where "ts = (if AddMetadataTargets options then map (metadata_target files) ks else []) @ gen"
    "map tg_Name gen = generated_names options" "\<forall>t \<in> set gen. tg_CustomMetadata t = []"
    "\<forall>t \<in> set gen. tg_Name t = ''trusted_root.json'' \<longrightarrow>
       (\<exists>fas ct tas rk. trusted_root_bytes L (map (metadata_target files) ks) fas ct tas rk (tg_Bytes t))"
    "\<forall>t \<in> set gen. tg_Name t = ''signing_config.v0.2.json'' \<longrightarrow> signing_config_bytes L (tg_Bytes t)"
proof -
  let ?m = "map (metadata_target files) ks"
  from assms obtain gr gs where ts: "ts = (if AddMetadataTargets options then ?m else []) @ gr @ gs"
    and gr: "if AddTrustedRoot options then \<exists>t. constructTrustedRoot L ?m = Ok t \<and> gr = [t] else gr = []"
    and gs: "if AddSigningConfig options then \<exists>t. constructSigningConfig L = Ok t \<and> gs = [t] else gs = []"
    by (auto simp: build_targets_def Let_def go_bind_Ok_conv split: if_splits)
  have r: "map tg_Name gr = (if AddTrustedRoot options then [''trusted_root.json''] else [])"
    "\<forall>t \<in> set gr. tg_CustomMetadata t = []
       \<and> (\<exists>fas ct tas rk. trusted_root_bytes L ?m fas ct tas rk (tg_Bytes t))"
    using gr by (auto split: if_splits elim!: constructTrustedRoot_OkE) blast
  have c: "map tg_Name gs = (if AddSigningConfig options then [''signing_config.v0.2.json''] else [])"
    "\<forall>t \<in> set gs. tg_CustomMetadata t = [] \<and> signing_config_bytes L (tg_Bytes t)"
    using gs by (auto simp: constructSigningConfig_Ok split: if_splits)
  have n: "tg_Name t = ''trusted_root.json''" if "t \<in> set gr" for t
    using that r(1) by (cases gr) (auto split: if_splits)
  have m: "tg_Name t = ''signing_config.v0.2.json''" if "t \<in> set gs" for t
    using that c(1) by (cases gs) (auto split: if_splits)
  show thesis
    by (rule that [of "gr @ gs"]) (use ts r c n m in \<open>auto simp: generated_names_def\<close>)
qed

lemma published_generated:
  assumes "map tg_Name gen = generated_names options" and "t \<in> set gen"
  shows "map_of (rev (map (\<lambda>t. (tg_Name t, (tg_Bytes t, tg_CustomMetadata t))) (us @ gen))) (tg_Name t) =
     Some (tg_Bytes t, tg_CustomMetadata t)"
proof -
  have "map fst (map (\<lambda>t. (tg_Name t, (tg_Bytes t, tg_CustomMetadata t))) gen) = generated_names options"
    using assms(1) by (simp add: o_def)
  then have "distinct (map fst (rev (map (\<lambda>t. (tg_Name t, (tg_Bytes t, tg_CustomMetadata t))) gen)))"
    using generated_names_ok(2) by (metis distinct_rev rev_map)
  then have "map_of (rev (map (\<lambda>t. (tg_Name t, (tg_Bytes t, tg_CustomMetadata t))) gen)) (tg_Name t) =
      Some (tg_Bytes t, tg_CustomMetadata t)"
    by (rule map_of_is_SomeI) (use assms(2) in auto)
  then show ?thesis by (simp add: map_add_def)
qed

lemma CreateRepoWithOptions_published:
  assumes "tuf_repository S staged published" and "range_order files ks" and "\<forall>k \<in> dom files. normal k"
    and "CreateRepoWithOptions L S files ks options d = (Ok dir, d')"
  shows "dom (published d' dir) = (if AddMetadataTargets options then dom files else {})
      \<union> set (generated_names options)"
    and "\<lbrakk>AddMetadataTargets options; k \<in> dom files; k \<notin> set (generated_names options)\<rbrakk> \<Longrightarrow>
      published d' dir k = Some (go_get files k, marshal_metadata
        \<lparr>cm_Usage = getTargetUsage k, cm_Status = ''Active'', cm_URI = []\<rparr>)"
    and "AddTrustedRoot options \<Longrightarrow> \<exists>fas ct tas rk b.
      trusted_root_bytes L (map (metadata_target files) ks) fas ct tas rk b
      \<and> published d' dir ''trusted_root.json'' = Some (b, [])"
    and "AddSigningConfig options \<Longrightarrow> \<exists>b. signing_config_bytes L b
      \<and> published d' dir ''signing_config.v0.2.json'' = Some (b, [])"
proof -
  let ?f = "\<lambda>t. (tg_Name t, (tg_Bytes t, tg_CustomMetadata t))"
  let ?us = "if AddMetadataTargets options then map (metadata_target files) ks else []"
  obtain ts where ts: "build_targets L files ks options = Ok ts"
    and c: "CreateRepoWithMetadata S ts d = (Ok dir, d')"
    using assms(4) by (auto simp: CreateRepoWithOptions_def io_bind_Ok_conv split: if_splits)
  obtain gen where gen: "ts = ?us @ gen" and names: "map tg_Name gen = generated_names options"
    and bare: "\<forall>t \<in> set gen. tg_CustomMetadata t = []"
    and root: "\<forall>t \<in> set gen. tg_Name t = ''trusted_root.json'' \<longrightarrow>
       (\<exists>fas ct tas rk. trusted_root_bytes L (map (metadata_target files) ks) fas ct tas rk (tg_Bytes t))"
    and config: "\<forall>t \<in> set gen. tg_Name t = ''signing_config.v0.2.json'' \<longrightarrow> signing_config_bytes L (tg_Bytes t)"
    by (rule build_targets_OkE [OF ts])
  have ks: "set ks = dom files" "distinct ks" using assms(2) by (auto simp: range_order_def)
  have "\<forall>n \<in> set (map tg_Name gen). normal n" unfolding names by (rule generated_names_ok)
  then have "\<forall>t \<in> set ts. normal (tg_Name t)"
    unfolding gen using assms(3) ks by (auto simp: metadata_target_def)
  from tuf_repository.CreateRepoWithMetadata_published [OF assms(1) c this]
  have pub: "published d' dir = map_of (rev (map ?f (?us @ gen)))" by (simp only: gen)
  have "dom (published d' dir) = set (map tg_Name ?us) \<union> set (map tg_Name gen)"
    by (auto simp: pub dom_map_of_conv_image_fst image_image)
  then show "dom (published d' dir) = (if AddMetadataTargets options then dom files else {})
      \<union> set (generated_names options)"
    unfolding names using ks by (auto simp: metadata_target_def image_image)
  show "published d' dir k = Some (go_get files k, marshal_metadata
        \<lparr>cm_Usage = getTargetUsage k, cm_Status = ''Active'', cm_URI = []\<rparr>)"
    if o: "AddMetadataTargets options" and k: "k \<in> dom files" "k \<notin> set (generated_names options)"
  proof -
    have "map_of (rev (map ?f gen)) k = None" using k(2) unfolding names [symmetric] by (auto simp: map_of_eq_None_iff)
    moreover have "map_of (rev (map ?f (map (metadata_target files) ks))) k =
        Some (tg_Bytes (metadata_target files k), tg_CustomMetadata (metadata_target files k))"
      using k(1) ks by (intro map_of_is_SomeI) (auto simp: o_def metadata_target_def rev_map)
    ultimately show ?thesis
      using o by (simp add: pub map_add_def metadata_target_def del: map_map)
  qed
  have entry: "\<exists>t \<in> set gen. tg_Name t = n \<and> published d' dir n = Some (tg_Bytes t, [])"
    if "n \<in> set (generated_names options)" for n
  proof -
    from that obtain t where t: "t \<in> set gen" "tg_Name t = n" unfolding names [symmetric] by auto
    with published_generated [OF names t(1), of ?us] bare show ?thesis unfolding pub by (metis (lifting))
  qed
  show "\<exists>fas ct tas rk b. trusted_root_bytes L (map (metadata_target files) ks) fas ct tas rk b
      \<and> published d' dir ''trusted_root.json'' = Some (b, [])" if "AddTrustedRoot options"
    using entry [of "''trusted_root.json''"] root that by (auto simp: generated_names_def)
  show "\<exists>b. signing_config_bytes L b \<and> published d' dir ''signing_config.v0.2.json'' = Some (b, [])"
    if "AddSigningConfig options"
    using entry [of "''signing_config.v0.2.json''"] config that by (auto simp: generated_names_def)
qed

section \<open>The logs that are collected\<close>

lemma hex_byte_inject: "hex_byte c = hex_byte c' \<longleftrightarrow> c = c'"
proof
  have d: "hex_digit a = hex_digit b \<Longrightarrow> a < 16 \<Longrightarrow> b < 16 \<Longrightarrow> a = b" for a b
  proof -
    assume h: "hex_digit a = hex_digit b" "a < 16" "b < 16"
    then have "(of_char (hex_digit a) :: nat) = of_char (hex_digit b)" by simp
    with h(2,3) show "a = b" by (auto simp: hex_digit_def split: if_splits)
  qed
  have b: "(of_char x :: nat) div 16 < 16" for x :: char
    using nat_of_char_less_256 [of x] by linarith
  assume "hex_byte c = hex_byte c'"
  then have "hex_digit (of_char c div 16) = hex_digit (of_char c' div 16)"
    "hex_digit (of_char c mod 16) = hex_digit (of_char c' mod 16)" by (simp_all add: hex_byte_def)
  then have "(of_char c :: nat) div 16 = of_char c' div 16" "(of_char c :: nat) mod 16 = of_char c' mod 16"
    using d b by (metis, metis mod_less_divisor zero_less_numeral)
  then have "(of_char c :: nat) = of_char c'" by (metis div_mult_mod_eq)
  then show "c = c'" by simp
qed simp

lemma hex_inject: "hex_EncodeToString a = hex_EncodeToString b \<Longrightarrow> a = b"
proof (induction a arbitrary: b)
  case Nil
  then show ?case by (cases b) (auto simp: hex_EncodeToString_def hex_byte_def)
next
  case (Cons x a)
  then obtain y b' where b: "b = y # b'" by (cases b) (auto simp: hex_EncodeToString_def hex_byte_def)
  with Cons.prems have "hex_byte x @ hex_EncodeToString a = hex_byte y @ hex_EncodeToString b'"
    by (simp add: hex_EncodeToString_def)
  then have "hex_byte x = hex_byte y" "hex_EncodeToString a = hex_EncodeToString b'"
    by (simp_all add: hex_byte_def)
  with Cons.IH b show ?case by (simp add: hex_byte_inject)
qed

lemma log_instance_Ok:
  assumes "pubkeyToTransparencyLogInstance L origin bs tm = Ok (lg, key)"
  shows "key = hex_EncodeToString (tl_ID lg)"
  using assms by (auto simp: pubkeyToTransparencyLogInstance_def go_bind_Ok_conv split: option.splits)

text \<open>The entry a target makes in a map of logs, with the address it gets there.\<close>

definition log_entry ::
  "('cert, 'tr, 'sc) repo_lib \<Rightarrow> string \<Rightarrow> string \<Rightarrow> TargetWithMetadata \<Rightarrow> (string \<times> tlog) option" where
  "log_entry L origin url t =
     (case pubkeyToTransparencyLogInstance L origin (tg_Bytes t) (rl_now L) of
        Ok (lg, key) \<Rightarrow> Some (key, lg\<lparr>tl_BaseURL := url\<rparr>)
      | _ \<Rightarrow> None)"

lemma log_entry_Some:
  "log_entry L origin url t = Some (key, lg') \<longleftrightarrow>
     (\<exists>lg. pubkeyToTransparencyLogInstance L origin (tg_Bytes t) (rl_now L) = Ok (lg, key)
        \<and> lg' = lg\<lparr>tl_BaseURL := url\<rparr>)"
  by (auto simp: log_entry_def split: go.splits)

lemma log_instance_url: "pubkeyToTransparencyLogInstance L origin bs tm = Ok (lg, key) \<Longrightarrow> lg\<lparr>tl_BaseURL := []\<rparr> = lg"
  by (auto simp: pubkeyToTransparencyLogInstance_def go_bind_Ok_conv split: option.splits)

text \<open>The map \<open>m'\<close> is \<open>m\<close> with the entries of the targets of a usage, each of which has one.\<close>

definition logs_added ::
  "(TargetWithMetadata \<Rightarrow> (string \<times> tlog) option) \<Rightarrow> string \<Rightarrow> TargetWithMetadata list \<Rightarrow>
     (string \<rightharpoonup> tlog) \<Rightarrow> (string \<rightharpoonup> tlog) \<Rightarrow> bool" where
  "logs_added entry usage ts m m' \<longleftrightarrow>
     (\<exists>es. map entry (filter (\<lambda>t. getTargetUsage (tg_Name t) = usage) ts) = map Some es
        \<and> m' = m ++ map_of (rev es))"

lemma logs_added_Nil [simp]: "logs_added entry usage [] m m' \<longleftrightarrow> m' = m"
  by (simp add: logs_added_def)

lemma logs_added_Cons:
  assumes "logs_added entry usage ts m1 m2"
    and "if getTargetUsage (tg_Name t) = usage then \<exists>key lg. entry t = Some (key, lg) \<and> m1 = m(key \<mapsto> lg) else m1 = m"
  shows "logs_added entry usage (t # ts) m m2"
proof -
  obtain es where es: "map entry (filter (\<lambda>t. getTargetUsage (tg_Name t) = usage) ts) = map Some es"
    "m2 = m1 ++ map_of (rev es)" using assms(1) by (auto simp: logs_added_def)
  show ?thesis
  proof (cases "getTargetUsage (tg_Name t) = usage")
    case True
    with assms(2) obtain key lg where "entry t = Some (key, lg)" "m1 = m(key \<mapsto> lg)" by auto
    with es True show ?thesis unfolding logs_added_def
      by (intro exI [of _ "(key, lg) # es"]) (simp add: fun_eq_iff map_add_def split: option.splits)
  qed (use es assms(2) in \<open>auto simp: logs_added_def\<close>)
qed

lemma log_entry_plain:
  "pubkeyToTransparencyLogInstance L origin (tg_Bytes t) (rl_now L) = Ok (lg, key) \<Longrightarrow>
     log_entry L origin [] t = Some (key, lg)"
  by (auto simp: log_entry_Some log_instance_url)

lemma collect_target_logs:
  assumes "collect_target L a t = Ok b"
  shows "if getTargetUsage (tg_Name t) = RekorTarget
    then \<exists>key lg. log_entry L ''rekor.rekor-system.svc'' ''http://rekor.rekor-system.svc'' t = Some (key, lg)
      \<and> tp_rekorKeys b = (tp_rekorKeys a)(key \<mapsto> lg) else tp_rekorKeys b = tp_rekorKeys a"
    and "if getTargetUsage (tg_Name t) = CTFETarget
    then \<exists>key lg. log_entry L ''ctlog.ctlog-system.svc'' [] t = Some (key, lg)
      \<and> tp_ctlogKeys b = (tp_ctlogKeys a)(key \<mapsto> lg) else tp_ctlogKeys b = tp_ctlogKeys a"
  using assms
  by (auto simp: collect_target_def Let_def target_kinds go_bind_Ok_conv log_entry_plain split: if_splits)
     (auto simp: log_entry_Some)

lemma collect_targets_logs:
  assumes "collect_targets L ts a = Ok b"
  shows "logs_added (log_entry L ''rekor.rekor-system.svc'' ''http://rekor.rekor-system.svc'') RekorTarget ts
      (tp_rekorKeys a) (tp_rekorKeys b)
    \<and> logs_added (log_entry L ''ctlog.ctlog-system.svc'' []) CTFETarget ts (tp_ctlogKeys a) (tp_ctlogKeys b)"
  using assms
proof (induction ts arbitrary: a)
  case (Cons t ts)
  then obtain c where c: "collect_target L a t = Ok c" "collect_targets L ts c = Ok b"
    by (auto simp: go_bind_Ok_conv)
  note one = collect_target_logs [OF c(1)] and rest = Cons.IH [OF c(2)]
  from logs_added_Cons [OF conjunct1 [OF rest] one(1)] logs_added_Cons [OF conjunct2 [OF rest] one(2)]
  show ?case ..
qed simp

text \<open>The identity of a log determines its key, so far as the hash of \<^verbatim>\<open>note.KeyHash\<close> has no collision.\<close>

definition ids_distinct :: "('cert, 'tr, 'sc) repo_lib \<Rightarrow> string \<Rightarrow> bool" where
  "ids_distinct L origin \<longleftrightarrow>
     (\<forall>k k' i. rl_KeyHash L origin k = Ok i \<and> rl_KeyHash L origin k' = Ok i \<longrightarrow> k = k')"

lemma getKeyWithDetails_hash:
  assumes "getKeyWithDetails L b = Ok (k, h)"
  shows "h = (case k of EcdsaPub c _ \<Rightarrow> (case c of P384 \<Rightarrow> SHA384 | P521 \<Rightarrow> SHA512 | _ \<Rightarrow> SHA256)
     | RsaPub _ _ \<Rightarrow> SHA256 | _ \<Rightarrow> SHA512)"
proof -
  from assms obtain k' where "(case k' of
      EcdsaPub c _ \<Rightarrow>
        (case c of P256 \<Rightarrow> Ok (k', SHA256) | P384 \<Rightarrow> Ok (k', SHA384) | P521 \<Rightarrow> Ok (k', SHA512)
         | _ \<Rightarrow> Fail (NewErr ''unsupported elliptic curve''))
    | RsaPub bits _ \<Rightarrow>
        (if rsa_Size bits * 8 \<in> {2048, 3072, 4096} then Ok (k', SHA256)
         else Fail (NewErr (''unsupported public modulus '' @ itoa (rsa_Size bits))))
    | Ed25519Pub _ \<Rightarrow> Ok (k', SHA512)
    | OtherPub _ \<Rightarrow> Fail (NewErr ''unknown public key type'')) = Ok (k, h)"
    unfolding getKeyWithDetails_def go_bind_Ok_conv by blast
  then show ?thesis by (cases k') (auto split: elliptic_curve.splits if_splits)
qed

lemma log_instance_unique:
  assumes "ids_distinct L origin"
    and "pubkeyToTransparencyLogInstance L origin b tm = Ok (lg, key)"
    and "pubkeyToTransparencyLogInstance L origin b' tm = Ok (lg', key)"
  shows "lg = lg'"
proof -
  obtain d k h i where 1: "getKeyWithDetails L d = Ok (k, h)" "rl_KeyHash L origin k = Ok i"
    "key = hex_EncodeToString i" "lg = \<lparr>tl_BaseURL = [], tl_ID = i, tl_ValidityPeriodStart = tm,
       tl_HashFunc = SHA256, tl_PublicKey = k, tl_SignatureHashFunc = h\<rparr>"
    using assms(2) by (auto simp: pubkeyToTransparencyLogInstance_def go_bind_Ok_conv split: option.splits)
  obtain d' k' h' i' where 2: "getKeyWithDetails L d' = Ok (k', h')" "rl_KeyHash L origin k' = Ok i'"
    "key = hex_EncodeToString i'" "lg' = \<lparr>tl_BaseURL = [], tl_ID = i', tl_ValidityPeriodStart = tm,
       tl_HashFunc = SHA256, tl_PublicKey = k', tl_SignatureHashFunc = h'\<rparr>"
    using assms(3) by (auto simp: pubkeyToTransparencyLogInstance_def go_bind_Ok_conv split: option.splits)
  have i: "i = i'" using 1(3) 2(3) hex_inject by simp
  with assms(1) 1(2) 2(2) have k: "k = k'" unfolding ids_distinct_def by blast
  with getKeyWithDetails_hash [OF 1(1)] getKeyWithDetails_hash [OF 2(1)] have "h = h'" by simp
  with i k 1(4) 2(4) show ?thesis by simp
qed

text \<open>
  What a map of logs is for the targets of a usage: each of them was parsed and its log is there
  under its identity, and each log that is there is that of one of them, with the address \<open>url\<close>.
  Where identities are distinct the log that is there is that of the target itself.
\<close>

definition logs_complete ::
  "('cert, 'tr, 'sc) repo_lib \<Rightarrow> string \<Rightarrow> string \<Rightarrow> string \<Rightarrow> TargetWithMetadata list \<Rightarrow> (string \<rightharpoonup> tlog) \<Rightarrow> bool" where
  "logs_complete L usage origin url ts m \<longleftrightarrow>
     (\<forall>t \<in> set ts. getTargetUsage (tg_Name t) = usage \<longrightarrow>
        (\<exists>lg lg'. pubkeyToTransparencyLogInstance L origin (tg_Bytes t) (rl_now L) = Ok (lg, hex_EncodeToString (tl_ID lg))
           \<and> m (hex_EncodeToString (tl_ID lg)) = Some lg' \<and> tl_ID lg' = tl_ID lg
           \<and> (ids_distinct L origin \<longrightarrow> lg' = lg\<lparr>tl_BaseURL := url\<rparr>)))
   \<and> (\<forall>key lg'. m key = Some lg' \<longrightarrow>
        (\<exists>t \<in> set ts. \<exists>lg. getTargetUsage (tg_Name t) = usage
           \<and> pubkeyToTransparencyLogInstance L origin (tg_Bytes t) (rl_now L) = Ok (lg, key)
           \<and> lg' = lg\<lparr>tl_BaseURL := url\<rparr>))"

lemma logs_added_complete:
  assumes "logs_added (log_entry L origin url) usage ts Map.empty m"
  shows "logs_complete L usage origin url ts m"
proof -
  let ?U = "\<lambda>t. getTargetUsage (tg_Name t) = usage"
  obtain es where es: "map (log_entry L origin url) (filter ?U ts) = map Some es" and m: "m = map_of (rev es)"
    using assms by (auto simp: logs_added_def)
  have img: "log_entry L origin url ` set (filter ?U ts) = Some ` set es" using es by (metis set_map)
  have origin_of: "\<exists>t \<in> set ts. \<exists>lg. ?U t \<and> pubkeyToTransparencyLogInstance L origin (tg_Bytes t) (rl_now L) = Ok (lg, key)
      \<and> lg' = lg\<lparr>tl_BaseURL := url\<rparr>" if "m key = Some lg'" for key lg'
  proof -
    have "(key, lg') \<in> set es" using map_of_SomeD [OF that [unfolded m]] by simp
    then have "Some (key, lg') \<in> log_entry L origin url ` set (filter ?U ts)" unfolding img by blast
    then obtain t where "t \<in> set ts" "?U t" "log_entry L origin url t = Some (key, lg')" by auto
    then show ?thesis by (auto simp: log_entry_Some)
  qed
  have "\<exists>lg lg'. pubkeyToTransparencyLogInstance L origin (tg_Bytes t) (rl_now L) = Ok (lg, hex_EncodeToString (tl_ID lg))
      \<and> m (hex_EncodeToString (tl_ID lg)) = Some lg' \<and> tl_ID lg' = tl_ID lg
      \<and> (ids_distinct L origin \<longrightarrow> lg' = lg\<lparr>tl_BaseURL := url\<rparr>)" if t: "t \<in> set ts" "?U t" for t
  proof -
    from t have "log_entry L origin url t \<in> Some ` set es" unfolding img [symmetric] by auto
    then obtain key lg1 where e: "(key, lg1) \<in> set es" "log_entry L origin url t = Some (key, lg1)" by auto
    then obtain lg where lg: "pubkeyToTransparencyLogInstance L origin (tg_Bytes t) (rl_now L) = Ok (lg, key)"
      by (auto simp: log_entry_Some)
    from e(1) have "key \<in> dom m" unfolding m dom_map_of_conv_image_fst by force
    then obtain lg' where lg': "m key = Some lg'" by auto
    from origin_of [OF this] obtain u :: TargetWithMetadata and lg2 where u:
      "pubkeyToTransparencyLogInstance L origin (tg_Bytes u) (rl_now L) = Ok (lg2, key)" "lg' = lg2\<lparr>tl_BaseURL := url\<rparr>"
      by blast
    have k: "key = hex_EncodeToString (tl_ID lg)" "key = hex_EncodeToString (tl_ID lg2)"
      using log_instance_Ok [OF lg] log_instance_Ok [OF u(1)] .
    with hex_inject have "tl_ID lg2 = tl_ID lg" by simp
    moreover have "lg2 = lg" if "ids_distinct L origin" by (rule log_instance_unique [OF that u(1) lg])
    ultimately show ?thesis using lg lg' u(2) k(1) by auto
  qed
  with origin_of show ?thesis unfolding logs_complete_def by blast
qed

lemma collected_logs:
  assumes "collect_targets L (sort_targets ts) no_parts = Ok a"
  shows "logs_complete L RekorTarget ''rekor.rekor-system.svc'' ''http://rekor.rekor-system.svc'' ts (tp_rekorKeys a)"
    and "logs_complete L CTFETarget ''ctlog.ctlog-system.svc'' [] ts (tp_ctlogKeys a)"
proof -
  have s: "logs_complete L usage origin url (sort_targets ts) m = logs_complete L usage origin url ts m"
    for usage origin url m unfolding logs_complete_def sort_targets_def by simp
  note added = collect_targets_logs [OF assms, unfolded no_parts_def tr_parts.simps]
  from logs_added_complete [OF conjunct1 [OF added]] logs_added_complete [OF conjunct2 [OF added]]
  show "logs_complete L RekorTarget ''rekor.rekor-system.svc'' ''http://rekor.rekor-system.svc'' ts (tp_rekorKeys a)"
    "logs_complete L CTFETarget ''ctlog.ctlog-system.svc'' [] ts (tp_ctlogKeys a)"
    unfolding s .
qed

section \<open>Targets before others, and those of Fulcio\<close>

lemma collect_targets_append:
  "collect_targets L (us @ vs) a = go_bind (collect_targets L us a) (collect_targets L vs)"
proof (induction us arbitrary: a)
  case (Cons u us)
  then show ?case by (cases "collect_target L a u") simp_all
qed simp

lemma sort_targets_before:
  assumes "distinct (map tg_Name ts)" and "t \<in> set ts"
  obtains pre post where "sort_targets ts = pre @ t # post" "\<forall>u \<in> set pre. tg_Name u < tg_Name t"
proof -
  have "t \<in> set (sort_targets ts)" using assms(2) by (simp add: sort_targets_def)
  then obtain pre post where s: "sort_targets ts = pre @ t # post" by (metis in_set_conv_decomp)
  have "mset (map tg_Name (sort_targets ts)) = mset (map tg_Name ts)" by (simp add: sort_targets_def)
  then have "distinct (map tg_Name (sort_targets ts))" using assms(1) by (metis mset_eq_imp_distinct_iff)
  moreover have "sorted (map tg_Name (sort_targets ts))" by (simp add: sort_targets_def)
  ultimately have "\<forall>u \<in> set pre. tg_Name u \<le> tg_Name t" "tg_Name t \<notin> tg_Name ` set pre"
    unfolding s by (simp_all add: sorted_append)
  then have "\<forall>u \<in> set pre. tg_Name u < tg_Name t" by (metis imageI le_neq_trans)
  with s that show thesis by blast
qed

definition key_parses :: "('cert, 'tr, 'sc) repo_lib \<Rightarrow> TargetWithMetadata \<Rightarrow> bool" where
  "key_parses L t \<longleftrightarrow>
     (getTargetUsage (tg_Name t) = RekorTarget \<longrightarrow>
        (\<exists>x. pubkeyToTransparencyLogInstance L ''rekor.rekor-system.svc'' (tg_Bytes t) (rl_now L) = Ok x))
   \<and> (getTargetUsage (tg_Name t) = CTFETarget \<longrightarrow>
        (\<exists>x. pubkeyToTransparencyLogInstance L ''ctlog.ctlog-system.svc'' (tg_Bytes t) (rl_now L) = Ok x))"

lemma collect_targets_parses: "\<forall>t \<in> set ts. key_parses L t \<Longrightarrow> \<exists>b. collect_targets L ts a = Ok b"
proof (induction ts arbitrary: a)
  case (Cons t ts)
  then have "\<exists>c. collect_target L a t = Ok c"
    by (auto simp: key_parses_def collect_target_def Let_def target_kinds)
  with Cons show ?case by auto
qed simp

definition fulcio_intermediate :: "TargetWithMetadata \<Rightarrow> bool" where
  "fulcio_intermediate t \<longleftrightarrow> getTargetUsage (tg_Name t) = FulcioTarget \<and> Contains (tg_Name t) ''intermediate''"

definition fulcio_root :: "TargetWithMetadata \<Rightarrow> bool" where
  "fulcio_root t \<longleftrightarrow> getTargetUsage (tg_Name t) = FulcioTarget \<and> \<not> Contains (tg_Name t) ''intermediate''"

lemma collect_targets_fulcio:
  "collect_targets L ts a = Ok b \<Longrightarrow>
     tp_fulcioIntermed b = tp_fulcioIntermed a @ map tg_Bytes (filter fulcio_intermediate ts) \<and>
     tp_fulcioRoot b = last_bytes (tp_fulcioRoot a) (filter fulcio_root ts)"
proof (induction ts arbitrary: a)
  case (Cons t ts)
  then obtain c where c: "collect_target L a t = Ok c" "collect_targets L ts c = Ok b"
    by (auto simp: go_bind_Ok_conv)
  have "tp_fulcioIntermed c = tp_fulcioIntermed a @ (if fulcio_intermediate t then [tg_Bytes t] else [])"
    "tp_fulcioRoot c = (if fulcio_root t then tg_Bytes t else tp_fulcioRoot a)"
    using c(1) by (auto simp: collect_target_def Let_def fulcio_intermediate_def fulcio_root_def
        go_bind_Ok_conv target_kinds split: if_splits)
  with Cons.IH [OF c(2)] show ?case by (auto simp: last_bytes_def)
qed (simp add: last_bytes_def)

section \<open>A store on the disk\<close>

text \<open>
  An instance of the contract: an entry is a file with the contents and the metadata of a target
  in a directory of the staged part, which \<open>Commit\<close> copies to the repository directory beside a
  root file; every role has a key file.
\<close>

definition put_node :: "path \<Rightarrow> fnode \<Rightarrow> (disk, unit) io" where
  "put_node p n d =
     (case fs_put (dk_root d) p n of None \<Rightarrow> (Fail ENOENT, d) | Some t \<Rightarrow> (Ok (), d\<lparr>dk_root := t\<rparr>))"

definition ref_add :: "string \<Rightarrow> string \<Rightarrow> bytes \<Rightarrow> int \<Rightarrow> (disk, unit) io" where
  "ref_add dir name custom e d =
     (case fs_kind (dk_root d) (resolve (dk_cwd d) (staged_path dir name)) of
        Some (KFile b) \<Rightarrow> put_node (resolve [] dir @ [''staged'', ''meta'', name]) (File (put_str b @ custom)) d
      | _ \<Rightarrow> (Fail ENOENT, d))"

definition ref_commit :: "string \<Rightarrow> (disk, unit) io" where
  "ref_commit dir d =
     (case fs_get (dk_root d) (resolve [] dir @ [''staged'', ''meta'']) of
        Some m \<Rightarrow> put_node (resolve [] dir @ [''repository'']) (Dir [(''meta'', m), (''root.json'', File ''root'')]) d
      | None \<Rightarrow> (Fail ENOENT, d))"

definition ref_store :: tuf_store where
  "ref_store =
     \<lparr>st_TempDir = ''/tmp'',
      st_NewRepoIndent = (\<lambda>dir. io_ret (Ok ())),
      st_Init = (\<lambda>dir cs. put_node (resolve [] dir)
        (Dir [(''keys'', Dir []), (''repository'', Dir []), (''staged'', Dir [(''meta'', Dir [])])])),
      st_GenKeyWithExpires = (\<lambda>dir role e. put_node (resolve [] dir @ [''keys'', role @ ''.json'']) (File role)),
      st_AddTargetWithExpires = ref_add,
      st_SnapshotWithExpires = (\<lambda>dir e. io_ret (Ok ())),
      st_TimestampWithExpires = (\<lambda>dir e. io_ret (Ok ())),
      st_Commit = ref_commit,
      st_GetMeta = (\<lambda>dir. io_bind (os_ReadFile (Join [dir, ''repository'', ''root.json'']))
        (\<lambda>b. io_ret (Ok [''root.json'' \<mapsto> b]))),
      st_expires = 0\<rparr>"

definition ref_targets :: "string \<Rightarrow> disk \<Rightarrow> string \<Rightarrow> tuf_targets" where
  "ref_targets sub d dir name =
     (case fs_kind (dk_root d) (resolve [] dir @ [sub, ''meta'', name]) of
        Some (KFile s) \<Rightarrow> get_str s | _ \<Rightarrow> None)"

lemma os_ReadFile_Ok:
  "os_ReadFile s d = (Ok b, d') \<longleftrightarrow>
     (\<exists>d1. disk_fault d = (None, d1) \<and> d' = d1 \<and> fs_kind (dk_root d) (resolve (dk_cwd d) s) = Some (KFile b))"
  by (auto simp: os_ReadFile_def os_read_def fs_kind_def split: prod.splits option.splits fnode.splits)

lemma disk_fault_root: "disk_fault d = (x, d') \<Longrightarrow> dk_root d' = dk_root d \<and> dk_cwd d' = dk_cwd d"
  by (auto simp: disk_fault_def split: list.splits)

lemma put_node_Ok: "put_node p n d = (Ok (), d') \<longleftrightarrow> (\<exists>t. fs_put (dk_root d) p n = Some t \<and> d' = d\<lparr>dk_root := t\<rparr>)"
  by (auto simp: put_node_def split: option.splits)

lemma put_node_kind:
  assumes "put_node p n d = (Ok (), d')"
  shows "fs_kind (dk_root d') (p @ q) = fs_kind n q"
  using assms fs_get_put by (fastforce simp: put_node_Ok fs_kind_def)

lemma put_node_other:
  assumes "put_node p n d = (Ok (), d')" and "\<not> prefix p q"
  shows "fs_kind (dk_root d') q = fs_kind (dk_root d) q"
  using assms fs_kind_put_other by (auto simp: put_node_Ok)

interpretation ref_tuf: tuf_repository ref_store "ref_targets ''staged''" "ref_targets ''repository''"
proof
  show "is_rooted (st_TempDir ref_store)" by (simp add: ref_store_def is_rooted_def)
next
  fix dir cs d d'
  assume "st_Init ref_store dir cs d = (Ok (), d')"
  then have "put_node (resolve [] dir) (Dir [(''keys'', Dir []), (''repository'', Dir []), (''staged'', Dir [(''meta'', Dir [])])]) d = (Ok (), d')"
    by (simp add: ref_store_def)
  from put_node_kind [OF this] show "ref_targets ''staged'' d' dir = Map.empty"
    by (simp add: ref_targets_def fun_eq_iff)
next
  fix dir role e d d'
  assume "st_GenKeyWithExpires ref_store dir role e d = (Ok (), d')"
  then have "put_node (resolve [] dir @ [''keys'', role @ ''.json'']) (File role) d = (Ok (), d')"
    by (simp add: ref_store_def)
  from put_node_other [OF this] show "ref_targets ''staged'' d' dir = ref_targets ''staged'' d dir"
    by (simp add: ref_targets_def fun_eq_iff)
next
  fix dir name b d d'
  assume r: "is_rooted dir" and n: "normal name" and w: "writeStagedTarget dir name b d = (Ok (), d')"
  have names: "normal ''staged''" "normal ''targets''" by (simp_all add: normal_def)
  have p: "staged_path dir name = abs_path (resolve [] dir @ [''staged'', ''targets''] @ [name])"
    "resolve c (staged_path dir name) = resolve [] dir @ [''staged'', ''targets'', name]" for c
    using Join_many [OF r, of "[''staged'', ''targets'', name]"] n names by (simp_all add: staged_path_def)
  have "Dir_of (staged_path dir name) = abs_path (resolve [] dir @ [''staged'', ''targets''])"
    unfolding p(1) using Dir_of_abs_path [of "resolve [] dir @ [''staged'', ''targets'']" name]
      resolve_rooted_normal [OF r, of "[]"] n names by auto
  then have dir: "resolve c (Dir_of (staged_path dir name)) = resolve [] dir @ [''staged'', ''targets'']" for c
    using resolve_rooted_normal [OF r, of "[]"] names by (auto intro!: resolve_abs_path)
  obtain d1 where m: "os_MkdirAll (Dir_of (staged_path dir name)) d = (Ok (), d1)"
    and f: "os_WriteFile (staged_path dir name) b d1 = (Ok (), d')"
    using w by (auto simp: writeStagedTarget_def staged_path_def Let_def io_bind_Ok_conv)
  show "ref_targets ''staged'' d' dir = ref_targets ''staged'' d dir"
    using MkdirAll_frame [OF m] WriteFile_frame [OF f] by (simp add: dir p(2) ref_targets_def fun_eq_iff)
next
  fix dir name custom e d d' b
  assume "st_AddTargetWithExpires ref_store dir name custom e d = (Ok (), d')"
    and "fs_kind (dk_root d) (resolve (dk_cwd d) (staged_path dir name)) = Some (KFile b)"
  then have put: "put_node (resolve [] dir @ [''staged'', ''meta'', name]) (File (put_str b @ custom)) d = (Ok (), d')"
    by (simp add: ref_store_def ref_add_def)
  show "ref_targets ''staged'' d' dir = (ref_targets ''staged'' d dir)(name \<mapsto> (b, custom))"
    using put_node_kind [OF put, of "[]"] put_node_other [OF put] by (simp add: ref_targets_def fun_eq_iff get_str_put)
next
  fix dir d d'
  assume "st_Commit ref_store dir d = (Ok (), d')"
  then obtain m where m: "fs_get (dk_root d) (resolve [] dir @ [''staged'', ''meta'']) = Some m"
    and put: "put_node (resolve [] dir @ [''repository'']) (Dir [(''meta'', m), (''root.json'', File ''root'')]) d = (Ok (), d')"
    by (auto simp: ref_store_def ref_commit_def split: option.splits)
  have "fs_kind (dk_root d) (resolve [] dir @ [''staged'', ''meta'', name]) = fs_kind m [name]" for name
    using m fs_get_append [of "dk_root d" "resolve [] dir @ [''staged'', ''meta'']" "[name]"] by (simp add: fs_kind_def)
  then show "ref_targets ''repository'' d' dir = ref_targets ''staged'' d dir"
    using put_node_kind [OF put, of "[''meta'', name]" for name] by (simp add: ref_targets_def fun_eq_iff)
qed (simp_all add: ref_store_def)

section \<open>Certificates in a text form\<close>

text \<open>
  An instance of \<open>pem_chain\<close>: a certificate is a serial number and whether it is an authority,
  and its text ends with a semicolon.
\<close>

type_synonym ref_cert = "nat \<times> bool"

definition ref_der :: "ref_cert \<Rightarrow> bytes" where
  "ref_der c = ''C'' @ itoa (fst c) @ (if snd c then ''A'' else ''L'')"

definition ref_parse :: "bytes \<Rightarrow> ref_cert go" where
  "ref_parse der =
     (case der of
        [] \<Rightarrow> Fail (NewErr ''malformed'')
      | c # r \<Rightarrow> opt_go (map_option (\<lambda>n. (n, last r = CHR ''A'')) (parse_digits 0 (butlast r))))"

definition ref_pem0 :: "ref_cert pem_lib" where
  "ref_pem0 =
     \<lparr>pl_UnmarshalCertificatesFromPEM = (\<lambda>_. Ok []),
      pl_MarshalCertificateToPEM = (\<lambda>c. Ok (ref_der c @ [CHR '';'', CHR 0x0A])),
      pl_pem_Decode = (\<lambda>s. let t = takeWhile (\<lambda>x. x \<noteq> CHR '';'') s in
         if t = s then None else Some (t, length t)),
      pl_ParseCertificate = ref_parse,
      pl_IsCA = snd, pl_NotBefore = (\<lambda>c. int (fst c)), pl_NotAfter = (\<lambda>c. int (fst c) + 1)\<rparr>"

definition ref_pem :: "ref_cert pem_lib" where
  "ref_pem = ref_pem0\<lparr>pl_UnmarshalCertificatesFromPEM := (\<lambda>p. parse_certs ref_pem0 (TrimSpace p) [])\<rparr>"

lemma ref_der_chars: "CHR '';'' \<notin> set (ref_der c)"
  using itoa_below_colon [of "CHR '';''" "fst c"] by (auto simp: ref_der_def)

lemma ref_parse_der: "ref_parse (ref_der c) = Ok c"
  by (cases "snd c")
     (auto simp: ref_parse_def ref_der_def opt_go_def butlast_append parse_digits_itoa prod_eq_iff)

lemma ref_marshal_text:
  assumes "pl_MarshalCertificateToPEM ref_pem c = Ok p" shows "TrimSpace p = ref_der c @ '';''"
proof -
  have "trimmed (ref_der c @ '';'')" by (simp add: trimmed_def ref_der_def is_space_def)
  from TrimSpace_line [OF this] assms show ?thesis by (simp add: ref_pem_def ref_pem0_def)
qed

interpretation ref_chain: pem_lines ref_pem
proof
  fix c p rest
  assume m: "pl_MarshalCertificateToPEM ref_pem c = Ok p"
  note t = ref_marshal_text [OF m]
  then show "TrimSpace p \<noteq> []" by simp
  show "p = TrimSpace p @ [CHR 0x0A]" unfolding t using m by (simp add: ref_pem_def ref_pem0_def)
  have tw: "takeWhile (\<lambda>x. x \<noteq> CHR '';'') (ref_der c @ '';'' @ rest) = ref_der c"
    using ref_der_chars [of c] by (subst takeWhile_append2) auto
  show "\<exists>der n. pl_pem_Decode ref_pem (TrimSpace p @ rest) = Some (der, n)
        \<and> TrimSpace (drop (Suc n) (TrimSpace p @ rest)) = TrimSpace rest
        \<and> pl_ParseCertificate ref_pem der = Ok c"
    using tw ref_parse_der [of c] by (simp add: t ref_pem_def ref_pem0_def Let_def)
qed

definition ref_repo_lib :: "(ref_cert, nat, nat) repo_lib" where
  "ref_repo_lib =
     \<lparr>rl_pem = ref_pem,
      rl_ParsePKCS1PublicKey = (\<lambda>k. Fail (NewErr ''pkcs1'')),
      rl_ParsePKIXPublicKey = (\<lambda>k. Ok (EcdsaPub P256 k)),
      rl_KeyHash = (\<lambda>origin k. case k of EcdsaPub _ b \<Rightarrow> Ok b | _ \<Rightarrow> Fail (NewErr ''key'')),
      rl_now = 0,
      rl_TrustedRootMediaType01 = ''01'',
      rl_NewTrustedRoot = (\<lambda>mt fa ct ta rk. Ok (length fa + length ta)),
      rl_MarshalTrustedRoot = (\<lambda>n. Ok (itoa n)),
      rl_SigningConfigMediaType02 = ''02'',
      rl_NewSigningConfig = (\<lambda>mt fs os rs rc ts tc. Ok (length rs)),
      rl_MarshalSigningConfig = (\<lambda>n. Ok (itoa n))\<rparr>"

definition example_certs :: "ref_cert list" where
  "example_certs = [(1, False), (2, True), (3, True)]"

definition example_chain :: bytes where
  "example_chain = concat (map (\<lambda>c. ref_der c @ [CHR '';'', CHR 0x0A]) example_certs)"

definition example_targets :: "TargetWithMetadata list" where
  "example_targets =
     [\<lparr>tg_Name = root_file ''tsa'', tg_Bytes = ref_der (3, True) @ '';'', tg_CustomMetadata = []\<rparr>,
      \<lparr>tg_Name = leaf_file ''tsa'', tg_Bytes = ref_der (1, False) @ '';'', tg_CustomMetadata = []\<rparr>,
      \<lparr>tg_Name = intermediate_file ''tsa'' 0, tg_Bytes = ref_der (2, True) @ '';'', tg_CustomMetadata = []\<rparr>]"

definition example_fulcio :: "TargetWithMetadata list" where
  "example_fulcio =
     [\<lparr>tg_Name = ''fulcio.pem'', tg_Bytes = ref_der (3, True) @ [CHR '';'', CHR 0x0A], tg_CustomMetadata = []\<rparr>,
      \<lparr>tg_Name = ''fulcio_intermediate_1.pem'', tg_Bytes = ref_der (2, True) @ [CHR '';'', CHR 0x0A], tg_CustomMetadata = []\<rparr>,
      \<lparr>tg_Name = ''fulcio_intermediate_0.pem'', tg_Bytes = ref_der (4, True) @ [CHR '';'', CHR 0x0A], tg_CustomMetadata = []\<rparr>]"

lemma collect_tsa_targets_Ok:
  "\<forall>t \<in> set ts. getTargetUsage (tg_Name t) = TSATarget \<Longrightarrow> \<exists>b. collect_targets L ts a = Ok b"
  by (induction ts arbitrary: a) (simp_all add: collect_target_def Let_def target_kinds)

definition example_tmp :: disk where
  "example_tmp = \<lparr>dk_root = Dir [(''tmp'', Dir [])], dk_cwd = [], dk_faults = []\<rparr>"

lemma example_split:
  "\<exists>m. SplitCertChain ref_pem example_chain ''tsa'' = Ok m \<and>
     trimmed_files m = set (map name_bytes example_targets)"
proof -
  have u: "pl_UnmarshalCertificatesFromPEM ref_pem example_chain = Ok example_certs" by code_simp
  have mar: "pl_MarshalCertificateToPEM ref_pem c = Ok (ref_der c @ [CHR '';'', CHR 0x0A])" for c
    by (simp add: ref_pem_def ref_pem0_def)
  have t: "TrimSpace (ref_der c @ [CHR '';'', CHR 0x0A]) = ref_der c @ '';''" for c
  proof -
    have "trimmed (ref_der c @ '';'')" by (simp add: trimmed_def ref_der_def is_space_def)
    from TrimSpace_line [OF this] show ?thesis by simp
  qed
  have "\<exists>m. SplitCertChain ref_pem example_chain ''tsa'' = Ok m"
    by (simp add: SplitCertChain_def u mar example_certs_def)
  then obtain m where m: "SplitCertChain ref_pem example_chain ''tsa'' = Ok m" by blast
  let ?p = "\<lambda>c. ref_der c @ [CHR '';'', CHR 0x0A]"
  from SplitCertChain_Ok [OF m] u obtain pems where
    p: "map (pl_MarshalCertificateToPEM ref_pem) example_certs = map Ok pems"
    and mp: "m = map_of (split_files ''tsa'' pems)" by (metis go.inject(1))
  have "map Ok pems = map Ok (map ?p example_certs)" using p [symmetric] by (simp add: mar)
  then have "pems = map ?p example_certs" 
    using inj_map_eq_map [of Ok pems "map ?p example_certs"] by (simp only: inj_def go.inject simp_thms)
  then have "m = map_of (split_files ''tsa'' (?p (1, False) # [?p (2, True)] @ [?p (3, True)]))"
    by (simp add: mp example_certs_def)
  then have "trimmed_files m = set (map name_bytes example_targets)"
    by (simp only: trimmed_split_files) (auto simp: example_targets_def name_bytes_def t)
  with m show ?thesis by blast
qed

section \<open>Properties\<close>

text \<open>
  C12. The time stamping chain survives its trip through the repository. Cut by
  \<open>SplitCertChain\<close> into one file per certificate, each trimmed and added as a target among any
  other targets in any order, sorted, collected and put together again, it parses to one
  authority: its root is the last certificate of the chain, its leaf the first one, unless that is
  an authority itself, its intermediates are the others in their order, and it is valid as long
  as the first one. This holds for every chain of up to twelve certificates.
\<close>

theorem tsa_chain_survives:
  assumes "pem_chain (rl_pem L)"
    and "SplitCertChain (rl_pem L) chain ''tsa'' = Ok m"
    and "pl_UnmarshalCertificatesFromPEM (rl_pem L) chain = Ok certs" and "length certs \<le> 12"
    and "distinct (map tg_Name ts)"
    and "name_bytes ` {t \<in> set ts. getTargetUsage (tg_Name t) = TSATarget} = trimmed_files m"
    and "collect_targets L (sort_targets ts) no_parts = Ok a"
  shows "tsa_authorities L a = Ok
    [\<lparr>ta_Leaf = (if pl_IsCA (rl_pem L) (hd certs) then None else Some (hd certs)),
      ta_Intermediates = butlast (if pl_IsCA (rl_pem L) (hd certs) then certs else tl certs),
      ta_Root = Some (last certs), ta_ValidityPeriodStart = pl_NotBefore (rl_pem L) (hd certs),
      ta_ValidityPeriodEnd = pl_NotAfter (rl_pem L) (hd certs)\<rparr>]"
proof -
  obtain pems where len: "2 \<le> length certs" and p: "map (pl_MarshalCertificateToPEM (rl_pem L)) certs = map Ok pems"
    and m: "m = map_of (split_files ''tsa'' pems)"
    using SplitCertChain_Ok [OF assms(2)] assms(3) by (metis go.inject(1))
  have "length pems = length certs" using p by (metis length_map)
  then obtain leaf ints root where pems: "pems = leaf # ints @ [root]" and ten: "length ints \<le> 10"
    using len assms(4) by (cases pems; cases "tl pems" rule: rev_cases) auto
  note c = collected_chain [OF assms(5) ten assms(6) [unfolded m pems] assms(7)]
  have "TrimSpace root \<noteq> []"
    using pem_chain.marshal_trimmed [OF assms(1) p] pems by (simp add: trimmed_def)
  then have "concatCertChain (TrimSpace leaf) (map TrimSpace ints) (TrimSpace root) \<noteq> []"
    by (simp add: concatCertChain_def)
  with pem_chain.chain_read_back [OF assms(1) p [unfolded pems]] c show ?thesis
    by (auto simp: tsa_authorities_def Let_def)
qed

theorem tsa_chain_survives_witness:
  "\<exists>m a. SplitCertChain ref_pem example_chain ''tsa'' = Ok m
    \<and> collect_targets ref_repo_lib (sort_targets example_targets) no_parts = Ok a
    \<and> tsa_authorities ref_repo_lib a = Ok [\<lparr>ta_Leaf = Some (1, False), ta_Intermediates = [(2, True)],
        ta_Root = Some (3, True), ta_ValidityPeriodStart = 1, ta_ValidityPeriodEnd = 2\<rparr>]"
proof -
  obtain m where m: "SplitCertChain ref_pem example_chain ''tsa'' = Ok m"
    "trimmed_files m = set (map name_bytes example_targets)" using example_split by blast
  have u: "pl_UnmarshalCertificatesFromPEM ref_pem example_chain = Ok example_certs" by code_simp
  have tsa: "\<forall>t \<in> set example_targets. getTargetUsage (tg_Name t) = TSATarget"
    using leaf_root_usage intermediate_usage by (simp add: example_targets_def)
  then obtain a where a: "collect_targets ref_repo_lib (sort_targets example_targets) no_parts = Ok a"
    using collect_tsa_targets_Ok [of "sort_targets example_targets" ref_repo_lib no_parts]
    unfolding sort_targets_def set_sort by blast
  have "distinct (map tg_Name example_targets)" by (simp add: example_targets_def)
  moreover have "rl_pem ref_repo_lib = ref_pem" by (simp add: ref_repo_lib_def)
  moreover have "length example_certs \<le> 12" by (simp add: example_certs_def)
  moreover have "name_bytes ` {t \<in> set example_targets. getTargetUsage (tg_Name t) = TSATarget} = trimmed_files m"
    using m(2) tsa by auto
  ultimately have "tsa_authorities ref_repo_lib a = Ok
    [\<lparr>ta_Leaf = (if pl_IsCA ref_pem (hd example_certs) then None else Some (hd example_certs)),
      ta_Intermediates = butlast (if pl_IsCA ref_pem (hd example_certs) then example_certs else tl example_certs),
      ta_Root = Some (last example_certs), ta_ValidityPeriodStart = pl_NotBefore ref_pem (hd example_certs),
      ta_ValidityPeriodEnd = pl_NotAfter ref_pem (hd example_certs)\<rparr>]"
    using tsa_chain_survives [of ref_repo_lib example_chain m example_certs example_targets a]
      ref_chain.pem_chain_axioms m(1) u a by auto
  with m(1) a show ?thesis by (auto simp: example_certs_def ref_pem_def ref_pem0_def)
qed

text \<open>
  C33. The bound of twelve certificates is exact: the targets of \<open>n\<close> intermediate certificates,
  numbered from zero, come out of the sort in the order of the chain if and only if there are at
  most ten of them. The comment in the code promises the order for less than ten only; it is right
  for ten as well, and wrong from eleven on.
\<close>

definition intermediate_target :: "nat \<Rightarrow> TargetWithMetadata" where
  "intermediate_target i = \<lparr>tg_Name = intermediate_file ''tsa'' i, tg_Bytes = [], tg_CustomMetadata = []\<rparr>"

theorem tsa_order_bound:
  "sort_targets (map intermediate_target [0..<n]) = map intermediate_target [0..<n] \<longleftrightarrow> n \<le> 10"
proof
  assume "sort_targets (map intermediate_target [0..<n]) = map intermediate_target [0..<n]"
  then have "sorted (map tg_Name (map intermediate_target [0..<n]))"
    by (metis sort_targets_def sorted_sort_key)
  then have s: "sorted (map (intermediate_file ''tsa'') [0..<n])"
    by (simp add: o_def intermediate_target_def)
  show "n \<le> 10"
  proof (rule ccontr)
    assume "\<not> n \<le> 10"
    with sorted_nth_mono [OF s, of 2 10] have "intermediate_file ''tsa'' 2 \<le> intermediate_file ''tsa'' 10"
      by (simp add: numeral_2_eq_2)
    moreover have "\<not> intermediate_file ''tsa'' 2 \<le> intermediate_file ''tsa'' 10" by code_simp
    ultimately show False by blast
  qed
next
  assume "n \<le> 10"
  then have "sorted (map tg_Name (map intermediate_target [0..<n]))"
    using intermediates_sorted by (simp add: o_def intermediate_target_def)
  then show "sort_targets (map intermediate_target [0..<n]) = map intermediate_target [0..<n]"
    unfolding sort_targets_def by (intro sort_key_id_if_sorted) simp
qed

text \<open>
  C24. The trusted root does not depend on the order in which the runtime visits the map of
  files: any two visiting orders give the same outcome of \<open>constructTrustedRoot\<close>, the same bytes
  or the same error.
\<close>

theorem trusted_root_order_irrelevant:
  assumes "range_order files ks" and "range_order files ks'"
  shows "constructTrustedRoot L (map (metadata_target files) ks) =
         constructTrustedRoot L (map (metadata_target files) ks')"
proof -
  have "mset ks = mset ks'"
    using assms set_eq_iff_mset_eq_distinct [of ks ks'] by (auto simp: range_order_def)
  then have "sort_targets (map (metadata_target files) ks) = sort_targets (map (metadata_target files) ks')"
    using assms(2) by (intro sort_targets_mset_cong)
      (simp_all add: o_def metadata_target_def range_order_def)
  then show ?thesis by (simp add: constructTrustedRoot_def)
qed

theorem trusted_root_order_irrelevant_witness:
  "constructTrustedRoot ref_repo_lib (map (metadata_target [''a'' \<mapsto> ''1'', ''b'' \<mapsto> ''2'']) [''a'', ''b'']) =
   constructTrustedRoot ref_repo_lib (map (metadata_target [''a'' \<mapsto> ''1'', ''b'' \<mapsto> ''2'']) [''b'', ''a''])"
  by (rule trusted_root_order_irrelevant) (auto simp: range_order_def)

text \<open>
  C13. What \<open>CreateRepoWithOptions\<close> publishes when it returns, for files whose names are single
  path elements: the names are those of the files if metadata targets are asked for, the trusted
  root if it is asked for and the signing config if it is asked for, and nothing else. Every file is
  published with its own contents and the metadata of its usage, unless its name is that of
  a generated target. The trusted root is the serialized root of the authorities and logs that are
  collected from all the files, whether or not they are published themselves; the signing
  config is the serialized one of the four services of the cluster.
\<close>

theorem create_repo_publishes:
  assumes "tuf_repository S staged published" and "range_order files ks" and "\<forall>k \<in> dom files. normal k"
    and "CreateRepoWithOptions L S files ks options d = (Ok dir, d')"
  shows "dom (published d' dir) = (if AddMetadataTargets options then dom files else {})
      \<union> (if AddTrustedRoot options then {''trusted_root.json''} else {})
      \<union> (if AddSigningConfig options then {''signing_config.v0.2.json''} else {})
    \<and> (AddMetadataTargets options \<longrightarrow>
       (\<forall>k \<in> dom files - set (generated_names options).
         published d' dir k = Some (go_get files k, marshal_metadata
           \<lparr>cm_Usage = getTargetUsage k, cm_Status = ''Active'', cm_URI = []\<rparr>)))
    \<and> (AddTrustedRoot options \<longrightarrow>
       (\<exists>a fas tas tr b. collect_targets L (sort_targets (map (metadata_target files) ks)) no_parts = Ok a
         \<and> fulcio_authorities L a = Ok fas \<and> tsa_authorities L a = Ok tas
         \<and> rl_NewTrustedRoot L (rl_TrustedRootMediaType01 L) fas (tp_ctlogKeys a) tas (tp_rekorKeys a) = Ok tr
         \<and> rl_MarshalTrustedRoot L tr = Ok b
         \<and> published d' dir ''trusted_root.json'' = Some (b, [])))
    \<and> (AddSigningConfig options \<longrightarrow>
       (\<exists>b. signing_config_bytes L b \<and> published d' dir ''signing_config.v0.2.json'' = Some (b, [])))"
proof -
  note p = CreateRepoWithOptions_published [OF assms]
  have "\<exists>a fas tas tr b. collect_targets L (sort_targets (map (metadata_target files) ks)) no_parts = Ok a
         \<and> fulcio_authorities L a = Ok fas \<and> tsa_authorities L a = Ok tas
         \<and> rl_NewTrustedRoot L (rl_TrustedRootMediaType01 L) fas (tp_ctlogKeys a) tas (tp_rekorKeys a) = Ok tr
         \<and> rl_MarshalTrustedRoot L tr = Ok b
         \<and> published d' dir ''trusted_root.json'' = Some (b, [])" if "AddTrustedRoot options"
    using p(3) [OF that] unfolding trusted_root_bytes_def by blast
  moreover have "dom (published d' dir) = (if AddMetadataTargets options then dom files else {})
      \<union> (if AddTrustedRoot options then {''trusted_root.json''} else {})
      \<union> (if AddSigningConfig options then {''signing_config.v0.2.json''} else {})"
    unfolding p(1) by (auto simp: generated_names_def)
  ultimately show ?thesis using p(2,4) by blast
qed

theorem create_repo_publishes_witness:
  "\<exists>dir d'. CreateRepoWithOptions ref_repo_lib ref_store [''rekor.pub'' \<mapsto> ''k;''] [''rekor.pub'']
       \<lparr>AddMetadataTargets = True, AddTrustedRoot = True, AddSigningConfig = False\<rparr> example_tmp = (Ok dir, d')
     \<and> dom (ref_targets ''repository'' d' dir) = {''rekor.pub'', ''trusted_root.json''}
     \<and> (\<exists>b. ref_targets ''repository'' d' dir ''trusted_root.json'' = Some (b, []))"
proof -
  let ?o = "\<lparr>AddMetadataTargets = True, AddTrustedRoot = True, AddSigningConfig = False\<rparr>"
  let ?r = "CreateRepoWithOptions ref_repo_lib ref_store [''rekor.pub'' \<mapsto> ''k;''] [''rekor.pub''] ?o example_tmp"
  have "fst ?r = Ok ''/tmp/tuf/''" by code_simp
  then obtain d' where d': "?r = (Ok ''/tmp/tuf/'', d')" by (metis prod.collapse)
  have "range_order [''rekor.pub'' \<mapsto> ''k;''] [''rekor.pub'']" by (simp add: range_order_def)
  moreover have "normal ''rekor.pub''" by (simp add: normal_def)
  ultimately show ?thesis
    using create_repo_publishes [OF ref_tuf.tuf_repository_axioms _ _ d'] d' by auto
qed

text \<open>
  The repository directory is never reused: when \<^verbatim>\<open>tuf\<close> in the temporary directory exists
  already, or cannot be made, \<open>CreateRepoWithMetadata\<close> returns the wrapped error of \<open>os.Mkdir\<close> at
  once, before any key is made, and the tree of files is as before.
\<close>

lemma create_repo_refuses_existing:
  assumes "fs_get (dk_root d) (resolve (dk_cwd d) (Join [st_TempDir S, ''tuf''])) \<noteq> None"
  shows "\<exists>e d'. CreateRepoWithMetadata S ts d = (Fail (Wrap ''failed to create tmp TUF dir'' e), d')
    \<and> dk_root d' = dk_root d \<and> (dk_faults d = [] \<longrightarrow> e = EEXIST)"
proof -
  obtain f d1 where f: "disk_fault d = (f, d1)" by (metis prod.collapse)
  have "os_Mkdir (Join [st_TempDir S, ''tuf'']) d =
      (Fail (case f of None \<Rightarrow> EEXIST | Some e \<Rightarrow> e), d1)"
    using assms f by (auto simp: os_Mkdir_def os_write_def split: option.splits)
  moreover have "dk_faults d = [] \<Longrightarrow> f = None" using f by (auto simp: disk_fault_def)
  ultimately show ?thesis
    using disk_fault_root [OF f]
    by (auto simp: CreateRepoWithMetadata_def Let_def wrap_io_def io_map_out_def io_bind.simps)
qed

text \<open>
  C34. No transparency log is lost or misplaced. When the trusted root is constructed, each Rekor
  target was parsed and the log with its identity is among the Rekor logs the root was made
  with, with the address of the cluster's Rekor, and each log there is that of a Rekor target; the
  same holds of the CTFE targets and the logs of certificates, which have no address. If no two
  keys have the same identity then the log is the one of the target, with its public key.
\<close>

theorem trusted_root_logs_complete:
  assumes "constructTrustedRoot L ts = Ok target"
  shows "\<exists>fas ct tas rk tr. rl_NewTrustedRoot L (rl_TrustedRootMediaType01 L) fas ct tas rk = Ok tr
     \<and> rl_MarshalTrustedRoot L tr = Ok (tg_Bytes target)
     \<and> logs_complete L RekorTarget ''rekor.rekor-system.svc'' ''http://rekor.rekor-system.svc'' ts rk
     \<and> logs_complete L CTFETarget ''ctlog.ctlog-system.svc'' [] ts ct"
proof (rule constructTrustedRoot_OkE [OF assms], goal_cases)
  case (1 fas ct tas rk)
  then obtain a tr where a: "collect_targets L (sort_targets ts) no_parts = Ok a" "ct = tp_ctlogKeys a" "rk = tp_rekorKeys a"
    "rl_NewTrustedRoot L (rl_TrustedRootMediaType01 L) fas ct tas rk = Ok tr"
    "rl_MarshalTrustedRoot L tr = Ok (tg_Bytes target)"
    unfolding trusted_root_bytes_def by blast
  with collected_logs [OF a(1)] show ?case by blast
qed

theorem trusted_root_logs_complete_witness:
  "\<exists>target ct rk tr. constructTrustedRoot ref_repo_lib
       (map (metadata_target [''ctfe.pub'' \<mapsto> ''c;'', ''rekor.pub'' \<mapsto> ''k;'']) [''rekor.pub'', ''ctfe.pub'']) = Ok target
     \<and> logs_complete ref_repo_lib RekorTarget ''rekor.rekor-system.svc'' ''http://rekor.rekor-system.svc''
         (map (metadata_target [''ctfe.pub'' \<mapsto> ''c;'', ''rekor.pub'' \<mapsto> ''k;'']) [''rekor.pub'', ''ctfe.pub'']) rk
     \<and> rl_NewTrustedRoot ref_repo_lib ''01'' [] ct [] rk = Ok tr"
proof -
  let ?ts = "map (metadata_target [''ctfe.pub'' \<mapsto> ''c;'', ''rekor.pub'' \<mapsto> ''k;'']) [''rekor.pub'', ''ctfe.pub'']"
  have "case constructTrustedRoot ref_repo_lib ?ts of Ok _ \<Rightarrow> True | _ \<Rightarrow> False" by code_simp
  then obtain target where t: "constructTrustedRoot ref_repo_lib ?ts = Ok target" by (auto split: go.splits)
  from trusted_root_logs_complete [OF this] t show ?thesis by (auto simp: ref_repo_lib_def)
qed

text \<open>
  C35. A Rekor or CTFE file that holds no PEM block ends the process when the trusted root is asked
  for: \<open>pem.Decode\<close> returns a nil block, which the code dereferences without a check. The repository
  is never created; if the keys in the files with smaller names parse, which come first in the loop,
  the call panics before it touched the disk, and does not return an error.
\<close>

theorem trusted_root_panics_without_pem:
  assumes "range_order files ks" and "AddTrustedRoot options" and "files k = Some b"
    and "getTargetUsage k \<in> {RekorTarget, CTFETarget}" and "pl_pem_Decode (rl_pem L) b = None"
  shows "(\<forall>dir d'. CreateRepoWithOptions L S files ks options d \<noteq> (Ok dir, d'))
    \<and> ((\<forall>j v. files j = Some v \<and> j < k \<longrightarrow>
          (getTargetUsage j = RekorTarget \<longrightarrow>
            (\<exists>x. pubkeyToTransparencyLogInstance L ''rekor.rekor-system.svc'' v (rl_now L) = Ok x))
        \<and> (getTargetUsage j = CTFETarget \<longrightarrow>
            (\<exists>x. pubkeyToTransparencyLogInstance L ''ctlog.ctlog-system.svc'' v (rl_now L) = Ok x)))
       \<longrightarrow> CreateRepoWithOptions L S files ks options d = (Panic ''nil pointer dereference'', d))"
proof -
  let ?t = "metadata_target files k" and ?ts = "map (metadata_target files) ks"
  have t: "?t \<in> set ?ts" "tg_Name ?t = k" "tg_Bytes ?t = b"
    using assms(1,3) by (auto simp: range_order_def metadata_target_def go_get_def)
  have d: "distinct (map tg_Name ?ts)" using assms(1) by (simp add: o_def metadata_target_def range_order_def)
  have stuck: "collect_target L a ?t = Panic ''nil pointer dereference''" for a
    using assms(4,5) by (auto simp: collect_target_def Let_def target_kinds t pubkeyToTransparencyLogInstance_def)
  obtain pre post where sorted: "sort_targets ?ts = pre @ ?t # post" "\<forall>u \<in> set pre. tg_Name u < k"
    by (rule sort_targets_before [OF d t(1)]) (use t(2) in auto)
  have "collect_targets L (sort_targets ?ts) no_parts \<noteq> Ok a" for a
    unfolding sorted(1) collect_targets_append by (auto simp: go_bind_Ok_conv stuck)
  then have "build_targets L files ks options \<noteq> Ok us" for us
    using assms(2) by (auto simp: build_targets_def Let_def go_bind_Ok_conv constructTrustedRoot_def)
  moreover have panic: "build_targets L files ks options = Panic ''nil pointer dereference''"
    if p: "\<forall>j v. files j = Some v \<and> j < k \<longrightarrow>
          (getTargetUsage j = RekorTarget \<longrightarrow>
            (\<exists>x. pubkeyToTransparencyLogInstance L ''rekor.rekor-system.svc'' v (rl_now L) = Ok x))
        \<and> (getTargetUsage j = CTFETarget \<longrightarrow>
            (\<exists>x. pubkeyToTransparencyLogInstance L ''ctlog.ctlog-system.svc'' v (rl_now L) = Ok x))"
  proof -
    have "key_parses L u" if u: "u \<in> set pre" for u
    proof -
      from u have "u \<in> set ?ts" using sorted(1) by (metis in_set_conv_decomp set_sort sort_targets_def UnI1 set_append)
      then obtain j where j: "u = metadata_target files j" "j \<in> dom files" using assms(1) by (auto simp: range_order_def)
      then have "files j = Some (tg_Bytes u)" "tg_Name u = j" by (auto simp: metadata_target_def go_get_def)
      with p sorted(2) u show ?thesis unfolding key_parses_def by auto
    qed
    then obtain a where "collect_targets L pre no_parts = Ok a" using collect_targets_parses by blast
    then have "constructTrustedRoot L ?ts = Panic ''nil pointer dereference''"
      unfolding constructTrustedRoot_def sorted(1) collect_targets_append by (simp add: stuck)
    with assms(2) show ?thesis by (simp add: build_targets_def Let_def)
  qed
  moreover have run: "CreateRepoWithOptions L S files ks options d = (case build_targets L files ks options of
      Ok x \<Rightarrow> CreateRepoWithMetadata S x d | Fail e \<Rightarrow> (Fail e, d) | Panic p \<Rightarrow> (Panic p, d) | Exit c \<Rightarrow> (Exit c, d))"
    using assms(2) by (simp add: CreateRepoWithOptions_def io_bind.simps io_ret_def)
  ultimately have "\<forall>dir d'. CreateRepoWithOptions L S files ks options d \<noteq> (Ok dir, d')"
    by (cases "build_targets L files ks options") auto
  then show ?thesis using panic by (intro conjI impI) (assumption, simp add: run)
qed

theorem trusted_root_panics_without_pem_witness:
  "CreateRepoWithOptions ref_repo_lib ref_store [''ctfe.pub'' \<mapsto> ''c;'', ''rekor.pub'' \<mapsto> ''k''] [''rekor.pub'', ''ctfe.pub'']
     \<lparr>AddMetadataTargets = True, AddTrustedRoot = True, AddSigningConfig = False\<rparr> example_tmp =
     (Panic ''nil pointer dereference'', example_tmp)"
proof -
  let ?f = "[''ctfe.pub'' \<mapsto> ''c;'', ''rekor.pub'' \<mapsto> ''k'']"
  have pem: "pl_pem_Decode (rl_pem ref_repo_lib) ''k'' = None" "getTargetUsage ''rekor.pub'' = RekorTarget"
    "getTargetUsage ''ctfe.pub'' = CTFETarget" by code_simp+
  have c: "\<exists>x. pubkeyToTransparencyLogInstance ref_repo_lib ''ctlog.ctlog-system.svc'' ''c;'' (rl_now ref_repo_lib) = Ok x"
    by (simp add: pubkeyToTransparencyLogInstance_def ref_repo_lib_def ref_pem_def ref_pem0_def getKeyWithDetails_def)
  have "range_order ?f [''rekor.pub'', ''ctfe.pub'']" by (auto simp: range_order_def)
  from trusted_root_panics_without_pem [OF this, of "\<lparr>AddMetadataTargets = True, AddTrustedRoot = True, AddSigningConfig = False\<rparr>"
      "''rekor.pub''" "''k''" ref_repo_lib ref_store example_tmp]
  show ?thesis using c pem by (auto simp: target_kinds split: if_splits)
qed

text \<open>
  C40. The certificates of Fulcio reach the trusted root. For targets that hold one certificate
  each, with one Fulcio target that is no intermediate, the root is made with one certificate
  authority: its root is the certificate of that target, its intermediates are those of the
  Fulcio targets called intermediate, in the order of their names, and it is valid as long as the first
  certificate of the chain.
\<close>

theorem fulcio_chain_in_trusted_root:
  assumes "pem_lines (rl_pem L)" and "constructTrustedRoot L ts = Ok target"
    and "filter fulcio_root ts = [r]" and "pl_MarshalCertificateToPEM (rl_pem L) root = Ok (tg_Bytes r)"
    and "map (pl_MarshalCertificateToPEM (rl_pem L)) ints =
      map (\<lambda>t. Ok (tg_Bytes t)) (sort_targets (filter fulcio_intermediate ts))"
  shows "\<exists>ct tas rk tr. rl_NewTrustedRoot L (rl_TrustedRootMediaType01 L)
       [\<lparr>fa_Intermediates = ints, fa_Root = Some root,
         fa_ValidityPeriodStart = pl_NotBefore (rl_pem L) (hd (ints @ [root])),
         fa_ValidityPeriodEnd = pl_NotAfter (rl_pem L) (hd (ints @ [root]))\<rparr>] ct tas rk = Ok tr
     \<and> rl_MarshalTrustedRoot L tr = Ok (tg_Bytes target)"
proof (rule constructTrustedRoot_OkE [OF assms(2)], goal_cases)
  case (1 fas ct tas rk)
  then obtain a tr where a: "collect_targets L (sort_targets ts) no_parts = Ok a" "fulcio_authorities L a = Ok fas"
    "rl_NewTrustedRoot L (rl_TrustedRootMediaType01 L) fas ct tas rk = Ok tr"
    "rl_MarshalTrustedRoot L tr = Ok (tg_Bytes target)"
    unfolding trusted_root_bytes_def by blast
  let ?I = "map tg_Bytes (sort_targets (filter fulcio_intermediate ts))"
  have "filter fulcio_root (sort_targets ts) = [r]"
    using assms(3) by (simp add: sort_targets_def filter_sort)
  moreover have "filter fulcio_intermediate (sort_targets ts) = sort_targets (filter fulcio_intermediate ts)"
    by (simp add: sort_targets_def filter_sort)
  ultimately have parts: "tp_fulcioRoot a = tg_Bytes r" "tp_fulcioIntermed a = ?I"
    using collect_targets_fulcio [OF a(1)] by (simp_all add: last_bytes_def no_parts_def)
  have m: "map (pl_MarshalCertificateToPEM (rl_pem L)) (ints @ [root]) = map Ok (?I @ [tg_Bytes r])"
    using assms(4,5) by (simp add: o_def)
  have "tg_Bytes r \<noteq> []" using pem_lines.marshal_line [OF assms(1,4)] by (metis append_is_Nil_conv list.distinct(1))
  then have "fas = [\<lparr>fa_Intermediates = ints, fa_Root = Some root,
         fa_ValidityPeriodStart = pl_NotBefore (rl_pem L) (hd (ints @ [root])),
         fa_ValidityPeriodEnd = pl_NotAfter (rl_pem L) (hd (ints @ [root]))\<rparr>]"
    using a(2) pem_lines.fulcio_read_back [OF assms(1) m]
    by (simp add: fulcio_authorities_def Let_def parts concatCertChain_def)
  with a(3,4) show ?case by blast
qed

theorem fulcio_chain_in_trusted_root_witness:
  "\<exists>target ct tas rk tr. constructTrustedRoot ref_repo_lib example_fulcio = Ok target
     \<and> rl_NewTrustedRoot ref_repo_lib ''01'' [\<lparr>fa_Intermediates = [(4, True), (2, True)], fa_Root = Some (3, True),
         fa_ValidityPeriodStart = 4, fa_ValidityPeriodEnd = 5\<rparr>] ct tas rk = Ok tr
     \<and> rl_MarshalTrustedRoot ref_repo_lib tr = Ok (tg_Bytes target)"
proof -
  have "case constructTrustedRoot ref_repo_lib example_fulcio of Ok _ \<Rightarrow> True | _ \<Rightarrow> False" by code_simp
  then obtain target where t: "constructTrustedRoot ref_repo_lib example_fulcio = Ok target" by (auto split: go.splits)
  have m: "pl_MarshalCertificateToPEM ref_pem c = Ok (ref_der c @ [CHR '';'', CHR 0x0A])" for c
    by (simp add: ref_pem_def ref_pem0_def)
  have L: "rl_pem ref_repo_lib = ref_pem" "rl_TrustedRootMediaType01 ref_repo_lib = ''01''" by (simp_all add: ref_repo_lib_def)
  have "map fulcio_root example_fulcio = [True, False, False]"
    "map fulcio_intermediate example_fulcio = [False, True, True]"
    "map tg_Name (sort_targets (filter fulcio_intermediate example_fulcio)) =
      [''fulcio_intermediate_0.pem'', ''fulcio_intermediate_1.pem'']" by code_simp+
  then have f: "filter fulcio_root example_fulcio = [example_fulcio ! 0]"
    "sort_targets (filter fulcio_intermediate example_fulcio) = [example_fulcio ! 2, example_fulcio ! 1]"
    by (simp_all add: example_fulcio_def sort_targets_def)
  show ?thesis
    using fulcio_chain_in_trusted_root [of ref_repo_lib example_fulcio target "example_fulcio ! 0" "(3, True)"
        "[(4, True), (2, True)]"] t ref_chain.pem_lines_axioms f
    by (auto simp: L m example_fulcio_def) (auto simp: ref_pem_def ref_pem0_def)
qed

end
