(* ===== verification/Tuf_Server.thy ===== *)
theory Tuf_Server
  imports Kube_Job Tuf_Archive Tuf_Repo
begin

text \<open>
  \<^verbatim>\<open>tools/tuf/cmd/tuf/server/main.go\<close>: the TUF server, which builds the repository from the
  mounted files, stores it in a secret, unpacks it into the directory it serves and serves it.
  The state is the disk and the world of the cluster; the HTTP server is a parameter.
\<close>

section \<open>State and environment\<close>

record 'k host =
  ho_disk :: disk
  ho_kube :: 'k

definition on_disk :: "(disk, 'a) io \<Rightarrow> ('k host, 'a) io" where
  "on_disk m w = (case m (ho_disk w) of (r, d) \<Rightarrow> (r, w\<lparr>ho_disk := d\<rparr>))"

definition on_kube :: "('k, 'a) io \<Rightarrow> ('k host, 'a) io" where
  "on_kube m w = (case m (ho_kube w) of (r, k) \<Rightarrow> (r, w\<lparr>ho_kube := k\<rparr>))"

definition modeInit :: string where "modeInit = ''init''"
definition modeInitAndServe :: string where "modeInitAndServe = ''init-and-serve''"
definition modeServe :: string where "modeServe = ''serve''"
definition modeInitNoOverwrite :: string where "modeInitNoOverwrite = ''init-no-overwrite''"

lemmas server_modes [simp] = modeInit_def modeInitAndServe_def modeServe_def modeInitNoOverwrite_def

record server_flags =
  sf_dir :: string
  sf_targetDir :: string
  sf_mode :: string
  sf_secretName :: string
  sf_keysSecretName :: string
  sf_noK8s :: bool
  sf_metadataTargets :: bool
  sf_trustedRoot :: bool
  sf_signingConfig :: bool

definition server_default_flags :: server_flags where
  "server_default_flags =
     \<lparr>sf_dir = ''/var/run/tuf-secrets'', sf_targetDir = [], sf_mode = modeInitAndServe,
      sf_secretName = ''tuf-root'', sf_keysSecretName = [], sf_noK8s = False,
      sf_metadataTargets = True, sf_trustedRoot = True, sf_signingConfig = True\<rparr>"

record ('k, 'cert, 'tr, 'sc) server_env =
  se_kube :: "'k kube_env"
  se_lib :: "('cert, 'tr, 'sc) repo_lib"
  se_store :: tuf_store
  se_walk :: walk_env
  se_codec :: tar_codec
  se_MkdirTemp :: "(disk, string) io"
  se_ListenAndServe :: "string \<Rightarrow> ('k host, unit) io"

section \<open>Reading the files\<close>

text \<open>\<open>for k, v := range certFiles\<close>: the trimmed certificates go into the map of files.\<close>

fun add_cert_files :: "gomap \<Rightarrow> string list \<Rightarrow> gomap \<Rightarrow> gomap" where
  "add_cert_files certFiles [] files = files"
| "add_cert_files certFiles (k # ks) files =
     add_cert_files certFiles ks (files(k \<mapsto> TrimSpace (go_get certFiles k)))"

fun read_files ::
  "('k, 'cert, 'tr, 'sc) server_env \<Rightarrow> string \<Rightarrow> (string \<times> bool) list \<Rightarrow> gomap \<Rightarrow> (disk, gomap) io" where
  "read_files E trimDir [] files = io_ret (Ok files)"
| "read_files E trimDir ((name, isDir) # es) files =
     (if isDir \<or> HasPrefix name ''..'' then read_files E trimDir es files
      else (let fileName = trimDir @ ''/'' @ name in
        io_bind (wrap_io (''failed to read file '' @ fileName) (os_ReadFile fileName)) (\<lambda>fileBytes.
          if Contains name ''tsa''
          then io_bind (io_ret (wrapf (''failed to parse '' @ fileName)
                          (SplitCertChain (rl_pem (se_lib E)) fileBytes ''tsa''))) (\<lambda>certFiles.
                 read_files E trimDir es
                   (add_cert_files certFiles (ke_order (se_kube E) certFiles) files))
          else read_files E trimDir es (files(name \<mapsto> fileBytes)))))"

section \<open>initTUFRepo\<close>

text \<open>The result is the namespace and whether there is a client.\<close>

definition getNamespaceAndClientset :: "'k kube_env \<Rightarrow> bool \<Rightarrow> (string \<times> bool) go" where
  "getNamespaceAndClientset K noK8s =
     (if noK8s then Ok ([], False)
      else if ke_NAMESPACE K = [] then Panic ''env variable NAMESPACE must be set''
      else go_bind (wrapf ''failed to get InClusterConfig'' (ke_InClusterConfig K)) (\<lambda>_.
           go_bind (wrapf ''failed to get clientset'' (ke_NewForConfig K)) (\<lambda>_.
           Ok (ke_NAMESPACE K, True))))"

definition skipDirs :: "string \<Rightarrow> bool" where
  "skipDirs x \<longleftrightarrow> x = ''keys'' \<or> x = ''staged''"

text \<open>\<open>os.DirFS(dir)\<close> and the archive written into a buffer.\<close>

definition compress_repo :: "('k, 'cert, 'tr, 'sc) server_env \<Rightarrow> string \<Rightarrow> (disk, bytes) io" where
  "compress_repo E dir d =
     (let fsys = (case fs_get (dk_root d) (resolve (dk_cwd d) dir) of None \<Rightarrow> Dir [] | Some n \<Rightarrow> n)
      in case CompressFS (se_walk E) skipDirs fsys of
           (r, es) \<Rightarrow> (go_bind (wrapf ''failed to compress the repo'' r) (\<lambda>_. Ok (tc_write (se_codec E) es)), d))"

fun read_keys :: "string \<Rightarrow> (string \<times> bool) list \<Rightarrow> gomap \<Rightarrow> (disk, gomap) io" where
  "read_keys dir [] dataKeys = io_ret (Ok dataKeys)"
| "read_keys dir ((name, isDir) # es) dataKeys =
     (if \<not> HasSuffix name ''.json'' then read_keys dir es dataKeys
      else (let keyFilePath = Join [dir, ''keys'', name] in
        io_bind (wrap_io (''failed reading file '' @ keyFilePath) (os_ReadFile keyFilePath)) (\<lambda>content.
        read_keys dir es (dataKeys(name \<mapsto> content)))))"

definition store_keys ::
  "('k, 'cert, 'tr, 'sc) server_env \<Rightarrow> string \<Rightarrow> string \<Rightarrow> ('k host, unit) io" where
  "store_keys E dir keysSecretName =
     (if keysSecretName = [] then io_ret (Ok ())
      else io_bind (on_disk (wrap_io ''failed to list keys directory'' (os_ReadDir (Join [dir, ''keys''])))) (\<lambda>keyFiles.
        io_bind (on_disk (read_keys dir keyFiles Map.empty)) (\<lambda>dataKeys.
        on_kube (wrap_io (''failed to reconcile keys secret '' @ ke_NAMESPACE (se_kube E) @ ''/'' @ keysSecretName)
          (kube_reconcile (se_kube E) keysSecretName dataKeys)))))"

definition server_options :: "server_flags \<Rightarrow> CreateRepoOptions" where
  "server_options F = \<lparr>AddMetadataTargets = sf_metadataTargets F, AddTrustedRoot = sf_trustedRoot F,
     AddSigningConfig = sf_signingConfig F\<rparr>"

definition initTUFRepo ::
  "('k, 'cert, 'tr, 'sc) server_env \<Rightarrow> server_flags \<Rightarrow> string \<Rightarrow> string \<Rightarrow> string \<Rightarrow> string \<Rightarrow> ('k host, unit) io" where
  "initTUFRepo E F certsDir targetDir repoSecretName keysSecretName =
     io_bind (io_ret (wrapf ''failed to get namespace and clientset''
       (getNamespaceAndClientset (se_kube E) (sf_noK8s F)))) (\<lambda>_.
     let trimDir = TrimSuffix certsDir ''/'' in
     io_bind (on_disk (wrap_io (''failed to read dir '' @ trimDir) (os_ReadDir trimDir))) (\<lambda>tufFiles.
     io_bind (on_disk (read_files E trimDir tufFiles Map.empty)) (\<lambda>files.
     io_bind (on_disk (wrap_io ''failed to create repo'' (CreateRepoWithOptions (se_lib E) (se_store E)
       files (ke_order (se_kube E) files) (server_options F)))) (\<lambda>dir.
     io_bind (on_disk (wrap_io ''getting meta'' (st_GetMeta (se_store E) dir))) (\<lambda>meta.
     case meta ''root.json'' of
       None \<Rightarrow> io_ret (Fail (NewErr ''getting root: %!w(<nil>)''))
     | Some rootJSON \<Rightarrow>
         io_bind (on_disk (compress_repo E dir)) (\<lambda>compressed.
         io_bind (if sf_noK8s F then io_ret (Ok ())
                  else io_bind (on_kube (wrap_io (''failed to reconcile secret '' @ ke_NAMESPACE (se_kube E) @ ''/'' @ repoSecretName)
                         (kube_reconcile (se_kube E) repoSecretName
                           [''root'' \<mapsto> rootJSON, ''repository'' \<mapsto> compressed])))
                         (\<lambda>_. store_keys E dir keysSecretName)) (\<lambda>_.
         on_disk (Uncompress (se_codec E) compressed targetDir))))))))"

section \<open>main\<close>

datatype run_mode = RunMode (rm_init: bool) (rm_serve: bool) (rm_overwrite: bool)

definition server_mode :: "server_flags \<Rightarrow> run_mode go" where
  "server_mode F =
     (if sf_mode F = modeInit then Ok (RunMode True False True)
      else if sf_mode F = modeInitAndServe then Ok (RunMode True True True)
      else if sf_mode F = modeInitNoOverwrite then Ok (RunMode True False False)
      else if sf_mode F = modeServe
      then (if sf_targetDir F = [] then Exit 1 else Ok (RunMode False True True))
      else Exit 1)"

definition server_target_dir ::
  "('k, 'cert, 'tr, 'sc) server_env \<Rightarrow> server_flags \<Rightarrow> ('k host, string) io" where
  "server_target_dir E F =
     (if sf_targetDir F = [] then io_map_out or_fatal (on_disk (se_MkdirTemp E))
      else io_ret (Ok (sf_targetDir F)))"

text \<open>An error of \<open>Stat\<close> means that there is no repository yet.\<close>

definition repo_exists :: "string \<Rightarrow> ('k host, bool) io" where
  "repo_exists targetDir =
     on_disk (io_map_out (\<lambda>r. case r of Ok _ \<Rightarrow> Ok True | Fail _ \<Rightarrow> Ok False | Panic p \<Rightarrow> Panic p | Exit c \<Rightarrow> Exit c)
       (os_Stat (Join [targetDir, ''repository'', ''root.json''])))"

definition server_init ::
  "('k, 'cert, 'tr, 'sc) server_env \<Rightarrow> server_flags \<Rightarrow> run_mode \<Rightarrow> string \<Rightarrow> ('k host, unit) io" where
  "server_init E F m targetDir =
     (if rm_init m
      then io_bind (repo_exists targetDir) (\<lambda>repoExists.
        if repoExists \<and> \<not> rm_overwrite m then io_ret (Ok ())
        else io_map_out or_fatal
          (initTUFRepo E F (sf_dir F) targetDir (sf_secretName F) (sf_keysSecretName F)))
      else io_ret (Ok ()))"

definition server_main ::
  "('k, 'cert, 'tr, 'sc) server_env \<Rightarrow> server_flags \<Rightarrow> ('k host, unit) io" where
  "server_main E F =
     io_bind (io_ret (server_mode F)) (\<lambda>m.
     io_bind (server_target_dir E F) (\<lambda>targetDir.
     io_bind (server_init E F m targetDir) (\<lambda>_.
     if rm_serve m
     then io_map_out (\<lambda>r. on_fail r (\<lambda>e. Panic (Error e)))
            (se_ListenAndServe E (Join [targetDir, ''repository'']))
     else io_ret (Ok ()))))"

section \<open>Steps of a run\<close>

declare io_bind.simps [simp del]

lemma on_disk_Ok: "on_disk m w = (Ok x, w') \<longleftrightarrow>
    (\<exists>d. m (ho_disk w) = (Ok x, d) \<and> w' = w\<lparr>ho_disk := d\<rparr>)"
  by (auto simp: on_disk_def split: prod.splits)

lemma on_kube_Ok: "on_kube m w = (Ok x, w') \<longleftrightarrow>
    (\<exists>k. m (ho_kube w) = (Ok x, k) \<and> w' = w\<lparr>ho_kube := k\<rparr>)"
  by (auto simp: on_kube_def split: prod.splits)

lemma wrap_io_Ok [simp]: "wrap_io m f w = (Ok x, w') \<longleftrightarrow> f w = (Ok x, w')"
  by (simp add: wrap_io_def)

lemma compress_repo_Ok:
  assumes "compress_repo E dir d = (Ok c, d')"
  obtains fsys es where "CompressFS (se_walk E) skipDirs fsys = (Ok (), es)" "c = tc_write (se_codec E) es" "d' = d"
  using assms by (auto simp: compress_repo_def Let_def go_bind_Ok_conv split: prod.splits)

text \<open>What a successful initialisation went through: the files, the repository, the archive, the secrets.\<close>

lemma initTUFRepo_built:
  assumes "initTUFRepo E F certsDir targetDir repoSecret keysSecret w = (Ok (), w')"
  obtains d0 files d1 dir meta rootJSON d2 d3 c where
    "io_bind (os_ReadDir (TrimSuffix certsDir ''/'')) (\<lambda>es. read_files E (TrimSuffix certsDir ''/'') es Map.empty) (ho_disk w)
       = (Ok files, d0)"
    "CreateRepoWithOptions (se_lib E) (se_store E) files (ke_order (se_kube E) files) (server_options F) d0 = (Ok dir, d1)"
    "st_GetMeta (se_store E) dir d1 = (Ok meta, d2)" "meta ''root.json'' = Some rootJSON"
    "compress_repo E dir d2 = (Ok c, d3)"
    "io_bind (if sf_noK8s F then io_ret (Ok ())
        else io_bind (on_kube (wrap_io (''failed to reconcile secret '' @ ke_NAMESPACE (se_kube E) @ ''/'' @ repoSecret)
          (kube_reconcile (se_kube E) repoSecret [''root'' \<mapsto> rootJSON, ''repository'' \<mapsto> c])))
          (\<lambda>_. store_keys E dir keysSecret))
       (\<lambda>_. on_disk (Uncompress (se_codec E) c targetDir)) (w\<lparr>ho_disk := d3\<rparr>) = (Ok (), w')"
proof -
  let ?dir = "TrimSuffix certsDir ''/''"
  from assms obtain es da files db dir dc meta dd rootJSON c de where
    1: "os_ReadDir ?dir (ho_disk w) = (Ok es, da)" "read_files E ?dir es Map.empty da = (Ok files, db)" and
    2: "CreateRepoWithOptions (se_lib E) (se_store E) files (ke_order (se_kube E) files) (server_options F) db = (Ok dir, dc)"
      "st_GetMeta (se_store E) dir dc = (Ok meta, dd)" "meta ''root.json'' = Some rootJSON"
      "compress_repo E dir dd = (Ok c, de)"
      "io_bind (if sf_noK8s F then io_ret (Ok ())
        else io_bind (on_kube (wrap_io (''failed to reconcile secret '' @ ke_NAMESPACE (se_kube E) @ ''/'' @ repoSecret)
          (kube_reconcile (se_kube E) repoSecret [''root'' \<mapsto> rootJSON, ''repository'' \<mapsto> c])))
          (\<lambda>_. store_keys E dir keysSecret))
       (\<lambda>_. on_disk (Uncompress (se_codec E) c targetDir)) (w\<lparr>ho_disk := de\<rparr>) = (Ok (), w')"
    unfolding initTUFRepo_def Let_def
    by (subst (asm) io_bind_Ok_conv, clarsimp simp: io_bind_Ok_conv on_disk_Ok split: option.splits)
  show thesis
    by (rule that [OF _ 2]) (use 1 in \<open>simp add: io_bind_Ok_conv\<close>)
qed

lemma initTUFRepo_OkE:
  assumes "initTUFRepo E F certsDir targetDir repoSecret keysSecret w = (Ok (), w')" and "\<not> sf_noK8s F"
  obtains dir rootJSON es fsys d1 k2 w3 d4 where
    "CompressFS (se_walk E) skipDirs fsys = (Ok (), es)"
    "kube_reconcile (se_kube E) repoSecret
       [''root'' \<mapsto> rootJSON, ''repository'' \<mapsto> tc_write (se_codec E) es] (ho_kube w) = (Ok (), k2)"
    "store_keys E dir keysSecret (w\<lparr>ho_disk := d1, ho_kube := k2\<rparr>) = (Ok (), w3)"
    "Uncompress (se_codec E) (tc_write (se_codec E) es) targetDir (ho_disk w3) = (Ok (), d4)"
    "w' = w3\<lparr>ho_disk := d4\<rparr>"
  using assms
  by (auto simp: initTUFRepo_def Let_def io_bind_Ok_conv on_disk_Ok on_kube_Ok
      split: option.splits elim!: compress_repo_Ok)

lemma read_keys_finite:
  "read_keys dir es m d = (Ok m', d') \<Longrightarrow> finite (dom m) \<Longrightarrow> finite (dom m')"
  by (induction dir es m arbitrary: d rule: read_keys.induct)
     (auto simp: Let_def io_bind_Ok_conv split: if_splits)

lemma store_keys_kube:
  assumes "store_keys E dir keysSecret w = (Ok (), w')" and "kube_job (se_kube E) view"
    and "keysSecret \<noteq> n"
  shows "view (ho_kube w') n = view (ho_kube w) n"
proof (cases "keysSecret = []")
  case True
  with assms(1) show ?thesis by (simp add: store_keys_def)
next
  case False
  then obtain keys m d1 d2 k where m: "read_keys dir keys Map.empty d1 = (Ok m, d2)"
    and k: "kube_reconcile (se_kube E) keysSecret m (ho_kube w) = (Ok (), k)" "ho_kube w' = k"
    using assms(1) by (auto simp: store_keys_def io_bind_Ok_conv on_disk_Ok on_kube_Ok)
  have "finite (dom m)" using read_keys_finite [OF m] by simp
  with kube_job.kube_reconcile_view [OF assms(2) k(1)] k(2) assms(3) show ?thesis by simp
qed

section \<open>The files of a mounted secret\<close>

lemma quiet_ReadFile:
  assumes "dk_faults d = []" and "fs_get (dk_root d) (resolve (dk_cwd d) s) = Some (File b)"
  shows "os_ReadFile s d = (Ok b, d)"
  using assms by (simp add: os_ReadFile_def quiet_read)

lemma resolve_child:
  assumes "fs_get (dk_root d) (resolve (dk_cwd d) dir) = Some (Dir es)" and "is_rooted dir" and "normal x"
    and "map_of es x = Some n"
  shows "fs_get (dk_root d) (resolve (dk_cwd d) (dir @ ''/'' @ x)) = Some n"
proof -
  have r: "is_rooted (dir @ ''/'' @ x)" using assms(2) by (auto simp: is_rooted_Cons)
  have "resolve (dk_cwd d) (dir @ ''/'' @ x) = clean_stack True [] (split_slash dir @ split_slash x)"
    using r split_slash_append [of dir x] by (simp add: resolve_def)
  also have "\<dots> = resolve (dk_cwd d) dir @ [x]"
    using assms(2,3) clean_stack_normal [of "[x]" True]
    by (simp add: clean_stack_append resolve_def split_slash_plain normal_def)
  finally show ?thesis using assms(1,4) by (simp add: fs_get_append)
qed

lemma add_cert_files_eq:
  assumes "distinct ks"
  shows "add_cert_files m ks files = (\<lambda>k. if k \<in> set ks then Some (TrimSpace (go_get m k)) else files k)"
  using assms
proof (induction ks arbitrary: files)
  case (Cons k ks)
  then show ?case by (auto simp: fun_eq_iff)
qed simp

lemma split_names:
  assumes "SplitCertChain L chain ''tsa'' = Ok m" and "k \<in> dom m"
  shows "k = leaf_file ''tsa'' \<or> k = root_file ''tsa'' \<or> (\<exists>i. k = intermediate_file ''tsa'' i)"
proof -
  obtain pems where "m = map_of (split_files ''tsa'' pems)"
    using SplitCertChain_Ok [OF assms(1)] by blast
  with assms(2) show ?thesis by (auto simp: split_files_def dom_map_of_conv_image_fst)
qed

lemma read_files_skip:
  "\<forall>e \<in> set es. HasPrefix (fst e) ''..'' \<Longrightarrow>
     read_files E dir (map (\<lambda>(x, n). (x, kind_of n = KDir)) es @ rest) files = read_files E dir rest files"
  by (induction es) auto

lemma out_names:
  "normal fulcioSecretKeyOut" "normal ctSecretKeyOut" "normal rekorSecretKeyOut" "normal tsaCertChainOut"
  "\<not> HasPrefix fulcioSecretKeyOut ''..''" "\<not> HasPrefix ctSecretKeyOut ''..''"
  "\<not> HasPrefix rekorSecretKeyOut ''..''" "\<not> HasPrefix tsaCertChainOut ''..''"
  "\<not> Contains fulcioSecretKeyOut ''tsa''" "\<not> Contains ctSecretKeyOut ''tsa''"
  "\<not> Contains rekorSecretKeyOut ''tsa''" "Contains tsaCertChainOut ''tsa''"
  by (simp_all add: tuf_secret_keys normal_def)

lemma out_usages:
  "getTargetUsage fulcioSecretKeyOut = FulcioTarget" "getTargetUsage ctSecretKeyOut = CTFETarget"
  "getTargetUsage rekorSecretKeyOut = RekorTarget"
  by code_simp+

text \<open>The four files of the secret createsecret writes, as the kubelet mounts them, beside entries with two dots.\<close>

definition tuf_volume :: "(string \<times> fnode) list \<Rightarrow> gomap \<Rightarrow> fnode" where
  "tuf_volume dots s = Dir (dots @ map (\<lambda>k. (k, File (go_get s k)))
     [ctSecretKeyOut, fulcioSecretKeyOut, rekorSecretKeyOut, tsaCertChainOut])"

lemma read_mounted:
  assumes "dk_faults d = []" and "is_rooted dir"
    and "fs_get (dk_root d) (resolve (dk_cwd d) dir) = Some (tuf_volume dots s)"
    and "\<forall>e \<in> set dots. HasPrefix (fst e) ''..''"
    and "io_bind (os_ReadDir dir) (\<lambda>es. read_files E dir es Map.empty) d = (r, d')"
  shows "d' = d \<and> r = go_bind (wrapf (''failed to parse '' @ dir @ ''/'' @ tsaCertChainOut)
      (SplitCertChain (rl_pem (se_lib E)) (go_get s tsaCertChainOut) ''tsa''))
    (\<lambda>m. Ok (add_cert_files m (ke_order (se_kube E) m) [ctSecretKeyOut \<mapsto> go_get s ctSecretKeyOut,
       fulcioSecretKeyOut \<mapsto> go_get s fulcioSecretKeyOut, rekorSecretKeyOut \<mapsto> go_get s rekorSecretKeyOut]))"
proof -
  let ?four = "map (\<lambda>k. (k, File (go_get s k))) [ctSecretKeyOut, fulcioSecretKeyOut, rekorSecretKeyOut, tsaCertChainOut]"
  note vol = assms(3) [unfolded tuf_volume_def]
  have look: "map_of (dots @ ?four) x = map_of ?four x" if "\<not> HasPrefix x ''..''" for x
  proof -
    have "map_of dots x = None" using assms(4) that by (auto simp: map_of_eq_None_iff)
    then show ?thesis by (simp only: map_of_append map_add_def option.case)
  qed
  have rd: "os_ReadFile (dir @ ''/'' @ x) d = (Ok b, d)"
    if "map_of ?four x = Some (File b)" "normal x" "\<not> HasPrefix x ''..''" for x b
    using quiet_ReadFile [OF assms(1) resolve_child [OF vol assms(2)]] that look by simp
  have files: "os_ReadFile (dir @ ''/'' @ ctSecretKeyOut) d = (Ok (go_get s ctSecretKeyOut), d)"
    "os_ReadFile (dir @ ''/'' @ fulcioSecretKeyOut) d = (Ok (go_get s fulcioSecretKeyOut), d)"
    "os_ReadFile (dir @ ''/'' @ rekorSecretKeyOut) d = (Ok (go_get s rekorSecretKeyOut), d)"
    "os_ReadFile (dir @ ''/'' @ tsaCertChainOut) d = (Ok (go_get s tsaCertChainOut), d)"
    by (rule rd; use out_names in \<open>simp add: tuf_secret_keys\<close>)+
  have "io_bind (os_ReadDir dir) (\<lambda>es. read_files E dir es Map.empty) d =
      (go_bind (wrapf (''failed to parse '' @ dir @ ''/'' @ tsaCertChainOut)
        (SplitCertChain (rl_pem (se_lib E)) (go_get s tsaCertChainOut) ''tsa''))
      (\<lambda>m. Ok (add_cert_files m (ke_order (se_kube E) m) [ctSecretKeyOut \<mapsto> go_get s ctSecretKeyOut,
         fulcioSecretKeyOut \<mapsto> go_get s fulcioSecretKeyOut, rekorSecretKeyOut \<mapsto> go_get s rekorSecretKeyOut])), d)"
    using assms(1,4) vol files out_names
    by (cases "SplitCertChain (rl_pem (se_lib E)) (go_get s tsaCertChainOut) ''tsa''")
       (simp_all add: io_bind.simps os_ReadDir_def quiet_read read_files_skip Let_def wrap_io_def io_map_out_def io_ret_def)
  with assms(5) show ?thesis by simp
qed

text \<open>The files of the map, their names and usages: the three keys as they are and the certificates trimmed.\<close>

lemma digit_slash: "d < 10 \<Longrightarrow> digit d \<noteq> CHR ''/''"
proof
  assume "d < 10" "digit d = CHR ''/''"
  then have "(of_char (digit d) :: nat) = of_char CHR ''/''" by simp
  with \<open>d < 10\<close> show False by (simp add: digit_def)
qed

lemma split_file_names:
  assumes "SplitCertChain L chain ''tsa'' = Ok m" and "k \<in> dom m"
  shows "getTargetUsage k = TSATarget" "normal k" "k \<notin> {''trusted_root.json'', ''signing_config.v0.2.json''}"
proof -
  have i: "CHR ''/'' \<notin> set (itoa i)" for i using itoa_digits [of "CHR ''/''" i] using digit_slash by metis
  show u: "getTargetUsage k = TSATarget"
    using split_names [OF assms] leaf_root_usage intermediate_usage by auto
  show "normal k"
    using split_names [OF assms] i by (auto simp: normal_def leaf_file_def root_file_def intermediate_file_def)
  have "getTargetUsage ''trusted_root.json'' \<noteq> TSATarget" "getTargetUsage ''signing_config.v0.2.json'' \<noteq> TSATarget"
    by code_simp+
  with u show "k \<notin> {''trusted_root.json'', ''signing_config.v0.2.json''}" by auto
qed

lemma mounted_files:
  assumes "kube_job (se_kube E) view" and "SplitCertChain (rl_pem (se_lib E)) t ''tsa'' = Ok m"
    and "files = add_cert_files m (ke_order (se_kube E) m) [ctSecretKeyOut \<mapsto> c, fulcioSecretKeyOut \<mapsto> f, rekorSecretKeyOut \<mapsto> r]"
  shows "dom files = {ctSecretKeyOut, fulcioSecretKeyOut, rekorSecretKeyOut} \<union> dom m"
    and "files ctSecretKeyOut = Some c" "files fulcioSecretKeyOut = Some f" "files rekorSecretKeyOut = Some r"
    and "\<And>k. k \<in> dom m \<Longrightarrow> files k = Some (TrimSpace (go_get m k))"
proof -
  obtain pems where "m = map_of (split_files ''tsa'' pems)" using SplitCertChain_Ok [OF assms(2)] by blast
  then have "range_order m (ke_order (se_kube E) m)"
    using kube_job.order [OF assms(1)] by (simp add: finite_dom_map_of)
  then have ks: "distinct (ke_order (se_kube E) m)" "set (ke_order (se_kube E) m) = dom m"
    by (auto simp: range_order_def)
  note usage = split_file_names(1) [OF assms(2)]
  have other: "ctSecretKeyOut \<notin> dom m" "fulcioSecretKeyOut \<notin> dom m" "rekorSecretKeyOut \<notin> dom m"
    using out_usages usage [of ctSecretKeyOut] usage [of fulcioSecretKeyOut] usage [of rekorSecretKeyOut]
    by (auto simp: target_kinds)
  note eq = assms(3) [unfolded add_cert_files_eq [OF ks(1)] ks(2)]
  show "dom files = {ctSecretKeyOut, fulcioSecretKeyOut, rekorSecretKeyOut} \<union> dom m"
    using other by (auto simp: eq dom_def)
  show "files ctSecretKeyOut = Some c" "files fulcioSecretKeyOut = Some f" "files rekorSecretKeyOut = Some r"
    using other by (simp_all add: eq tuf_secret_keys)
  show "files k = Some (TrimSpace (go_get m k))" if "k \<in> dom m" for k using that by (simp add: eq)
qed

text \<open>What an initialisation from a mounted secret published.\<close>

lemma init_publishes:
  assumes "kube_job (se_kube E) view" and "tuf_repository (se_store E) staged published"
    and "dk_faults (ho_disk h) = []" and "is_rooted dir" and "dir = TrimSuffix certsDir ''/''"
    and "fs_get (dk_root (ho_disk h)) (resolve (dk_cwd (ho_disk h)) dir) = Some (tuf_volume dots s)"
    and "\<forall>e \<in> set dots. HasPrefix (fst e) ''..''" and "sf_metadataTargets F"
    and "initTUFRepo E F certsDir targetDir repoSecret keysSecret h = (Ok (), h')"
  obtains m files repo d1 meta d2 c d3 disk0 where
    "SplitCertChain (rl_pem (se_lib E)) (go_get s tsaCertChainOut) ''tsa'' = Ok m"
    "files = add_cert_files m (ke_order (se_kube E) m) [ctSecretKeyOut \<mapsto> go_get s ctSecretKeyOut,
       fulcioSecretKeyOut \<mapsto> go_get s fulcioSecretKeyOut, rekorSecretKeyOut \<mapsto> go_get s rekorSecretKeyOut]"
    "CreateRepoWithOptions (se_lib E) (se_store E) files (ke_order (se_kube E) files) (server_options F) (ho_disk h)
       = (Ok repo, d1)"
    "\<And>k. k \<in> dom files \<Longrightarrow> published d1 repo k = Some (go_get files k, marshal_metadata
       \<lparr>cm_Usage = getTargetUsage k, cm_Status = ''Active'', cm_URI = []\<rparr>)"
    "dom (published d1 repo) = dom files
      \<union> (if sf_trustedRoot F then {''trusted_root.json''} else {})
      \<union> (if sf_signingConfig F then {''signing_config.v0.2.json''} else {})"
    "st_GetMeta (se_store E) repo d1 = (Ok meta, d2)" "compress_repo E repo d2 = (Ok c, d3)"
    "Uncompress (se_codec E) c targetDir disk0 = (Ok (), ho_disk h')"
proof -
  obtain d0 files d1 repo meta d2 c d3 disk0 where
    rd: "io_bind (os_ReadDir dir) (\<lambda>es. read_files E dir es Map.empty) (ho_disk h) = (Ok files, d0)"
    and create: "CreateRepoWithOptions (se_lib E) (se_store E) files (ke_order (se_kube E) files) (server_options F) d0
      = (Ok repo, d1)"
    and tail: "st_GetMeta (se_store E) repo d1 = (Ok meta, d2)" "compress_repo E repo d2 = (Ok c, d3)"
      "Uncompress (se_codec E) c targetDir disk0 = (Ok (), ho_disk h')"
  proof (rule initTUFRepo_built [OF assms(9), folded assms(5)], goal_cases)
    case (1 d0 files d1 repo meta rootJSON d2 d3 c)
    from 1(7) obtain disk0 where "Uncompress (se_codec E) c targetDir disk0 = (Ok (), ho_disk h')"
      by (auto simp: io_bind_Ok_conv on_disk_Ok)
    with 1 show thesis by blast
  qed
  have d0: "d0 = ho_disk h" using read_mounted [OF assms(3,4,6,7) rd] by (rule conjunct1)
  from sym [OF conjunct2 [OF read_mounted [OF assms(3,4,6,7) rd]]] obtain m where
    m: "SplitCertChain (rl_pem (se_lib E)) (go_get s tsaCertChainOut) ''tsa'' = Ok m"
    and files: "files = add_cert_files m (ke_order (se_kube E) m) [ctSecretKeyOut \<mapsto> go_get s ctSecretKeyOut,
       fulcioSecretKeyOut \<mapsto> go_get s fulcioSecretKeyOut, rekorSecretKeyOut \<mapsto> go_get s rekorSecretKeyOut]"
    by (auto simp: go_bind_Ok_conv)
  note fs = mounted_files [OF assms(1) m files]
  obtain pems where "m = map_of (split_files ''tsa'' pems)" using SplitCertChain_Ok [OF m] by blast
  then have "finite (dom files)" by (simp add: fs(1) finite_dom_map_of)
  then have order: "range_order files (ke_order (se_kube E) files)" by (rule kube_job.order [OF assms(1)])
  have names: "normal k \<and> k \<notin> {''trusted_root.json'', ''signing_config.v0.2.json''}" if "k \<in> dom files" for k
    using that split_file_names [OF m] out_names unfolding fs(1) by (auto simp: tuf_secret_keys)
  then have "\<forall>k \<in> dom files. normal k" by blast
  note pub = CreateRepoWithOptions_published(1,2) [OF assms(2) order this create]
  from pub names assms(8) tail show thesis
    by (intro that [OF m files create [unfolded d0]])
       (auto simp: server_options_def generated_names_def split: if_splits)
qed

text \<open>The same, target by target.\<close>

definition active_metadata :: "string \<Rightarrow> bytes" where
  "active_metadata usage = marshal_metadata \<lparr>cm_Usage = usage, cm_Status = ''Active'', cm_URI = []\<rparr>"

lemma init_publishes_targets:
  assumes "kube_job (se_kube E) view" and "tuf_repository (se_store E) staged published"
    and "dk_faults (ho_disk h) = []" and "is_rooted (TrimSuffix certsDir ''/'')"
    and "fs_get (dk_root (ho_disk h)) (resolve (dk_cwd (ho_disk h)) (TrimSuffix certsDir ''/'')) = Some (tuf_volume dots s)"
    and "\<forall>e \<in> set dots. HasPrefix (fst e) ''..''" and "sf_metadataTargets F"
    and "initTUFRepo E F certsDir targetDir repoSecret keysSecret h = (Ok (), h')"
  obtains m repo d1 meta d2 c d3 disk0 where
    "SplitCertChain (rl_pem (se_lib E)) (go_get s tsaCertChainOut) ''tsa'' = Ok m"
    "published d1 repo fulcioSecretKeyOut = Some (go_get s fulcioSecretKeyOut, active_metadata FulcioTarget)"
    "published d1 repo ctSecretKeyOut = Some (go_get s ctSecretKeyOut, active_metadata CTFETarget)"
    "published d1 repo rekorSecretKeyOut = Some (go_get s rekorSecretKeyOut, active_metadata RekorTarget)"
    "\<forall>k \<in> dom m. published d1 repo k = Some (TrimSpace (go_get m k), active_metadata TSATarget)"
    "dom (published d1 repo) = {fulcioSecretKeyOut, ctSecretKeyOut, rekorSecretKeyOut} \<union> dom m
        \<union> (if sf_trustedRoot F then {''trusted_root.json''} else {})
        \<union> (if sf_signingConfig F then {''signing_config.v0.2.json''} else {})"
    "st_GetMeta (se_store E) repo d1 = (Ok meta, d2)" "compress_repo E repo d2 = (Ok c, d3)"
    "Uncompress (se_codec E) c targetDir disk0 = (Ok (), ho_disk h')"
proof -
  obtain m files repo d1 meta d2 c d3 disk0 where
    m: "SplitCertChain (rl_pem (se_lib E)) (go_get s tsaCertChainOut) ''tsa'' = Ok m"
    and files: "files = add_cert_files m (ke_order (se_kube E) m) [ctSecretKeyOut \<mapsto> go_get s ctSecretKeyOut,
       fulcioSecretKeyOut \<mapsto> go_get s fulcioSecretKeyOut, rekorSecretKeyOut \<mapsto> go_get s rekorSecretKeyOut]"
    and pub: "\<And>k. k \<in> dom files \<Longrightarrow> published d1 repo k = Some (go_get files k, active_metadata (getTargetUsage k))"
    and dom: "dom (published d1 repo) = dom files
        \<union> (if sf_trustedRoot F then {''trusted_root.json''} else {})
        \<union> (if sf_signingConfig F then {''signing_config.v0.2.json''} else {})"
    and built: "st_GetMeta (se_store E) repo d1 = (Ok meta, d2)" "compress_repo E repo d2 = (Ok c, d3)"
      "Uncompress (se_codec E) c targetDir disk0 = (Ok (), ho_disk h')"
    by (rule init_publishes [OF assms(1-4) refl assms(5-8), folded active_metadata_def]) (rule that)
  note fs = mounted_files [OF assms(1) m files]
  have key: "published d1 repo k = Some (b, active_metadata (getTargetUsage k))" if "files k = Some b" for k b
    using pub [of k] that by (simp add: domI go_get_def)
  have tsa: "\<forall>k \<in> dom m. published d1 repo k = Some (TrimSpace (go_get m k), active_metadata TSATarget)"
    using key [OF fs(5)] split_file_names(1) [OF m] by simp
  note keys = key [OF fs(3), unfolded out_usages] key [OF fs(2), unfolded out_usages] key [OF fs(4), unfolded out_usages]
  have all: "dom (published d1 repo) = {fulcioSecretKeyOut, ctSecretKeyOut, rekorSecretKeyOut} \<union> dom m
        \<union> (if sf_trustedRoot F then {''trusted_root.json''} else {})
        \<union> (if sf_signingConfig F then {''signing_config.v0.2.json''} else {})"
    unfolding dom fs(1) by (simp only: insert_commute)
  show thesis by (rule that [OF m keys tsa all built])
qed

section \<open>A reference environment\<close>

definition server_on :: "cluster kube_env \<Rightarrow> (cluster, ref_cert, nat, nat) server_env" where
  "server_on K =
     \<lparr>se_kube = K, se_lib = ref_repo_lib, se_store = ref_store, se_walk = calm_walk,
      se_codec = ref_codec, se_MkdirTemp = (\<lambda>d. (Fail (NewErr ''no space''), d)),
      se_ListenAndServe = (\<lambda>dir w. (Fail (NewErr ''closed''), w))\<rparr>"

definition ref_server :: "(cluster, ref_cert, nat, nat) server_env" where
  "ref_server = server_on ref_kube"

lemmas ref_server_defs = ref_server_def server_on_def

text \<open>The same client with an order of its own that can be evaluated.\<close>

definition unordered_kube :: "cluster kube_env" where
  "unordered_kube = \<lparr>ke_NAMESPACE = ''ns'', ke_InClusterConfig = Ok (), ke_NewForConfig = Ok (),
     ke_secrets = mem_if False, ke_order = (\<lambda>_. [])\<rparr>"

text \<open>The secret createsecret makes from the example of its theory, mounted under \<^verbatim>\<open>/in\<close>.\<close>

definition example_tuf_secret :: gomap where
  "example_tuf_secret = [fulcioSecretKeyOut \<mapsto> ''F'', ctSecretKeyOut \<mapsto> ''C'', rekorSecretKeyOut \<mapsto> ''R'',
     tsaCertChainOut \<mapsto> example_chain]"

definition example_host :: "cluster host" where
  "example_host =
     \<lparr>ho_disk = \<lparr>dk_root = Dir [(''in'', tuf_volume [(''..data'', Dir [])] example_tuf_secret), (''srv'', Dir []), (''tmp'', Dir [])],
        dk_cwd = [], dk_faults = []\<rparr>,
      ho_kube = \<lparr>cl_store = Map.empty, cl_faults = []\<rparr>\<rparr>"

definition example_flags :: server_flags where
  "example_flags = server_default_flags\<lparr>sf_dir := ''/in'', sf_targetDir := ''/srv'',
     sf_trustedRoot := False, sf_signingConfig := False\<rparr>"

text \<open>The files of the example, and the disk after each step of an initialisation.\<close>

definition example_files :: "(string \<times> bytes) list" where
  "example_files = [(ctSecretKeyOut, ''C''), (fulcioSecretKeyOut, ''F''), (rekorSecretKeyOut, ''R''),
     (intermediate_file ''tsa'' 0, ref_der (2, True) @ '';''), (leaf_file ''tsa'', ref_der (1, False) @ '';''),
     (root_file ''tsa'', ref_der (3, True) @ '';'')]"

definition example_built :: bool where
  "example_built =
     (case CreateRepoWithOptions ref_repo_lib ref_store (map_of example_files) (map fst example_files)
             (server_options example_flags) (ho_disk example_host) of
        (Ok dir, d1) \<Rightarrow> dir = ''/tmp/tuf/'' \<and>
          (case st_GetMeta ref_store dir d1 of
             (Ok m, d2) \<Rightarrow> m ''root.json'' = Some ''root'' \<and> dk_faults d2 = [] \<and> dk_cwd d2 = []
               \<and> fs_get (dk_root d2) [''srv''] = Some (Dir [])
               \<and> (case fs_get (dk_root d2) [''tmp'', ''tuf'', ''repository''] of None \<Rightarrow> False | Some n \<Rightarrow> arch_tree n)
           | _ \<Rightarrow> False)
      | _ \<Rightarrow> False)"

lemma example_built: example_built
  by code_simp

lemma example_builtE:
  obtains d1 meta d2 n where "CreateRepoWithOptions ref_repo_lib ref_store (map_of example_files)
      (map fst example_files) (server_options example_flags) (ho_disk example_host) = (Ok ''/tmp/tuf/'', d1)"
    "st_GetMeta ref_store ''/tmp/tuf/'' d1 = (Ok meta, d2)" "meta ''root.json'' = Some ''root''"
    "dk_faults d2 = []" "dk_cwd d2 = []" "fs_get (dk_root d2) [''srv''] = Some (Dir [])"
    "fs_get (dk_root d2) [''tmp'', ''tuf'', ''repository''] = Some n" "arch_tree n"
proof -
  obtain r d1 where 1: "CreateRepoWithOptions ref_repo_lib ref_store (map_of example_files)
      (map fst example_files) (server_options example_flags) (ho_disk example_host) = (r, d1)"
    by (rule prod.exhaust)
  note built = example_built [unfolded example_built_def 1]
  obtain q d2 where 2: "st_GetMeta ref_store ''/tmp/tuf/'' d1 = (q, d2)" by (rule prod.exhaust)
  have r: "r = Ok ''/tmp/tuf/''" using built by (cases r) simp_all
  obtain meta where q: "q = Ok meta" using built by (cases q) (simp_all add: r 2)
  obtain n where "fs_get (dk_root d2) [''tmp'', ''tuf'', ''repository''] = Some n" "arch_tree n"
    using built by (simp add: r 2 q split: option.splits)
  with built show thesis
    by (intro that [OF 1 [unfolded r] 2 [unfolded q]]) (simp_all add: r 2 q)
qed

lemma example_names: "sorted (map fst example_files)" "distinct (map fst example_files)"
  by code_simp+

lemma example_sorted: "sorted_order (map_of example_files) = map fst example_files"
proof -
  have "sorted_list_of_set (set (map fst example_files)) = map fst example_files"
    by (rule sorted_list_of_set.idem_if_sorted_distinct [OF example_names])
  then show ?thesis by (simp add: sorted_order_def dom_map_of_conv_image_fst)
qed

lemma example_reads:
  "io_bind (os_ReadDir ''/in'') (\<lambda>es. read_files ref_server ''/in'' es Map.empty) (ho_disk example_host) =
     (Ok (map_of example_files), ho_disk example_host)"
proof -
  let ?d = "ho_disk example_host" and ?s = example_tuf_secret
  obtain m where m: "SplitCertChain ref_pem example_chain ''tsa'' = Ok m"
    and t: "trimmed_files m = set (map name_bytes example_targets)" using example_split by blast
  let ?files = "add_cert_files m (sorted_order m) [ctSecretKeyOut \<mapsto> ''C'', fulcioSecretKeyOut \<mapsto> ''F'', rekorSecretKeyOut \<mapsto> ''R'']"
  have sel: "se_kube ref_server = ref_kube" "rl_pem (se_lib ref_server) = ref_pem" "ke_order ref_kube = sorted_order"
    by (simp_all add: ref_server_defs ref_kube_def ref_repo_lib_def)
  have val: "go_get ?s ctSecretKeyOut = ''C''" "go_get ?s fulcioSecretKeyOut = ''F''"
    "go_get ?s rekorSecretKeyOut = ''R''" "go_get ?s tsaCertChainOut = example_chain"
    by (simp_all add: example_tuf_secret_def tuf_secret_keys)
  have vol: "fs_get (dk_root ?d) (resolve (dk_cwd ?d) ''/in'') = Some (tuf_volume [(''..data'', Dir [])] ?s)"
  proof -
    have "resolve [] ''/in'' = [''in'']" by code_simp
    then show ?thesis by (simp add: example_host_def)
  qed
  obtain r d' where run: "io_bind (os_ReadDir ''/in'') (\<lambda>es. read_files ref_server ''/in'' es Map.empty) ?d = (r, d')"
    by (metis prod.collapse)
  have "d' = ?d" "r = Ok ?files"
    using read_mounted [OF _ _ vol _ run] m val by (simp_all add: sel is_rooted_def) (simp_all add: example_host_def)
  moreover have "?files k = map_of example_files k" for k
  proof -
    have fs: "dom ?files = {ctSecretKeyOut, fulcioSecretKeyOut, rekorSecretKeyOut} \<union> dom m"
      "?files ctSecretKeyOut = Some ''C''" "?files fulcioSecretKeyOut = Some ''F''" "?files rekorSecretKeyOut = Some ''R''"
      "\<And>k. k \<in> dom m \<Longrightarrow> ?files k = Some (TrimSpace (go_get m k))"
      using mounted_files [of ref_server mem_view, unfolded sel, OF refkube.kube_job_axioms m refl] by auto
    have tm: "(k, TrimSpace (go_get m k)) \<in> set (map name_bytes example_targets)" if "k \<in> dom m" for k
      unfolding t [symmetric] using that by (auto simp: trimmed_files_def go_get_def)
    have dm: "dom m = fst ` set (map name_bytes example_targets)"
      unfolding t [symmetric] by (force simp: trimmed_files_def)
    have names: "map_of example_files x = Some y"
      if "(x, y) \<in> set (map name_bytes example_targets) \<union> {(ctSecretKeyOut, ''C''), (fulcioSecretKeyOut, ''F''), (rekorSecretKeyOut, ''R'')}" for x y
      using that example_names(2) by (intro map_of_is_SomeI) (auto simp: example_files_def example_targets_def name_bytes_def)
    have rest: "map_of example_files k = None" if "k \<notin> {ctSecretKeyOut, fulcioSecretKeyOut, rekorSecretKeyOut} \<union> dom m"
      using that unfolding dm by (auto simp: map_of_eq_None_iff example_files_def example_targets_def)
    consider "k \<in> dom m" | "k \<in> {ctSecretKeyOut, fulcioSecretKeyOut, rekorSecretKeyOut}" | "k \<notin> dom ?files"
      using fs(1) by blast
    then show ?thesis
    proof cases
      case 1
      then have "map_of example_files k = Some (TrimSpace (go_get m k))" by (intro names UnI1 tm)
      with fs(5) [OF 1] show ?thesis by simp
    next
      case 2
      moreover have "map_of example_files ctSecretKeyOut = Some ''C''" "map_of example_files fulcioSecretKeyOut = Some ''F''"
        "map_of example_files rekorSecretKeyOut = Some ''R''" by (simp_all add: names)
      ultimately show ?thesis using fs(2-4) by auto
    next
      case 3
      with rest fs(1) show ?thesis by (auto simp: domIff)
    qed
  qed
  ultimately show ?thesis using run by (simp add: fun_eq_iff)
qed

lemma example_init_runs:
  "\<exists>w'. initTUFRepo ref_server example_flags ''/in'' ''/srv'' ''tuf-root'' [] example_host = (Ok (), w')"
proof -
  let ?d = "ho_disk example_host"
  obtain d1 meta d2 n where create: "CreateRepoWithOptions ref_repo_lib ref_store (map_of example_files)
        (map fst example_files) (server_options example_flags) ?d = (Ok ''/tmp/tuf/'', d1)"
    and meta: "st_GetMeta ref_store ''/tmp/tuf/'' d1 = (Ok meta, d2)" "meta ''root.json'' = Some ''root''"
    and d2: "dk_faults d2 = []" "dk_cwd d2 = []" "fs_get (dk_root d2) [''srv''] = Some (Dir [])"
      "fs_get (dk_root d2) [''tmp'', ''tuf'', ''repository''] = Some n" "arch_tree n"
    by (rule example_builtE) (rule that)
  have path: "resolve [] ''/tmp/tuf/'' = [''tmp'', ''tuf'']" "resolve [] ''/srv'' = [''srv'']" "is_rooted ''/srv''"
    by code_simp+
  obtain fsys where fsys: "fs_get (dk_root d2) [''tmp'', ''tuf''] = Some fsys" "fs_get fsys [''repository''] = Some n"
    using d2(4) fs_get_append [of "dk_root d2" "[''tmp'', ''tuf'']" "[''repository'']"] by (auto split: option.splits)
  have "fs_kind (dk_root d2) [''srv''] = Some KDir" "fs_get (dk_root d2) [''srv'', ''repository''] = None"
    using d2(3) fs_get_append [of "dk_root d2" "[''srv'']" "[''repository'']"] by (simp_all add: fs_kind_def)
  with archive_unpacks [OF ref_tar.tar_gzip_axioms calm_walk_ok fsys(2) d2(5) _ path(3), of skipDirs d2] d2(1) path
  obtain es t where c: "CompressFS calm_walk skipDirs fsys = (Ok (), es)"
    and u: "Uncompress ref_codec (tc_write ref_codec es) ''/srv'' d2 = (Ok (), d2\<lparr>dk_root := t\<rparr>)"
    by (auto simp: skipDirs_def)
  obtain k where k: "kube_reconcile ref_kube ''tuf-root'' [''root'' \<mapsto> ''root'', ''repository'' \<mapsto> tc_write ref_codec es]
      (ho_kube example_host) = (Ok (), k)"
    using refkube.kube_reconcile_live [of "[''root'' \<mapsto> ''root'', ''repository'' \<mapsto> tc_write ref_codec es]" "ho_kube example_host"]
    by (auto simp: mem_view_def example_host_def)
  obtain es' da where rd: "os_ReadDir ''/in'' ?d = (Ok es', da)" "read_files ref_server ''/in'' es' Map.empty da = (Ok (map_of example_files), ?d)"
    using example_reads unfolding io_bind_Ok_conv by blast
  have sel: "se_kube ref_server = ref_kube" "se_lib ref_server = ref_repo_lib" "se_store ref_server = ref_store"
    "se_codec ref_server = ref_codec" "se_walk ref_server = calm_walk" "ke_order ref_kube = sorted_order"
    "sf_noK8s example_flags = False" "TrimSuffix ''/in'' ''/'' = ''/in''" "getNamespaceAndClientset ref_kube False = Ok (''ns'', True)"
    by (simp_all add: ref_server_defs ref_kube_def example_flags_def server_default_flags_def TrimSuffix_def
        HasSuffix_def getNamespaceAndClientset_def)
  have arch: "compress_repo ref_server ''/tmp/tuf/'' d2 = (Ok (tc_write ref_codec es), d2)"
    using c fsys(1) d2(2) path(1) by (simp add: compress_repo_def sel)
  show ?thesis
    using rd create meta arch k u
    by (simp add: initTUFRepo_def io_bind.simps io_ret_def on_disk_def on_kube_def wrap_io_def io_map_out_def
        store_keys_def Let_def sel example_sorted del: read_files.simps)
qed

section \<open>Properties\<close>

text \<open>
  C22. With the mode init-no-overwrite and a repository in the target directory the server does
  nothing: it returns, and neither the disk nor the cluster is touched, whatever the other flags
  and the environment are.
\<close>

theorem server_keeps_existing_repository:
  assumes "sf_mode F = ''init-no-overwrite''" and "sf_targetDir F \<noteq> []"
    and "dk_faults (ho_disk w) = []"
    and "fs_get (dk_root (ho_disk w)) (resolve (dk_cwd (ho_disk w))
           (Join [sf_targetDir F, ''repository'', ''root.json''])) \<noteq> None"
  shows "server_main E F w = (Ok (), w)"
  using assms
  by (auto simp: server_main_def server_mode_def server_target_dir_def server_init_def repo_exists_def
      on_disk_def io_map_out_def io_ret_def io_bind.simps os_Stat_def quiet_read)

theorem server_keeps_existing_repository_witness:
  "server_main ref_server (server_default_flags\<lparr>sf_mode := ''init-no-overwrite'', sf_targetDir := ''/srv''\<rparr>)
     \<lparr>ho_disk = \<lparr>dk_root = Dir [(''srv'', Dir [(''repository'', Dir [(''root.json'', File [])])])],
        dk_cwd = [], dk_faults = []\<rparr>, ho_kube = \<lparr>cl_store = Map.empty, cl_faults = []\<rparr>\<rparr> =
   (Ok (), \<lparr>ho_disk = \<lparr>dk_root = Dir [(''srv'', Dir [(''repository'', Dir [(''root.json'', File [])])])],
        dk_cwd = [], dk_faults = []\<rparr>, ho_kube = \<lparr>cl_store = Map.empty, cl_faults = []\<rparr>\<rparr>)"
proof -
  let ?d = "\<lparr>dk_root = Dir [(''srv'', Dir [(''repository'', Dir [(''root.json'', File [])])])], dk_cwd = [], dk_faults = []\<rparr>"
  have "fs_get (dk_root ?d) (resolve (dk_cwd ?d) (Join [''/srv'', ''repository'', ''root.json''])) \<noteq> None"
    by code_simp
  then show ?thesis by (intro server_keeps_existing_repository) (simp_all add: server_default_flags_def)
qed

text \<open>
  C19. After an initialisation inside the cluster that succeeded, the repository in the secret
  and the one that is served come from the same archive: the secret holds a root and the bytes
  of an archive \<open>CompressFS\<close> wrote, and the disk is what \<open>Uncompress\<close> made of these bytes in the
  target directory, so nothing was changed outside it by that last step.
\<close>

theorem server_secret_matches_served:
  assumes "kube_job (se_kube E) view" and "\<not> sf_noK8s F" and "keysSecret \<noteq> repoSecret" and "is_rooted targetDir"
    and "initTUFRepo E F certsDir targetDir repoSecret keysSecret w = (Ok (), w')"
  shows "\<exists>d es fsys disk0. view (ho_kube w') repoSecret = Some d
    \<and> CompressFS (se_walk E) skipDirs fsys = (Ok (), es)
    \<and> go_get d ''repository'' = tc_write (se_codec E) es
    \<and> Uncompress (se_codec E) (go_get d ''repository'') targetDir disk0 = (Ok (), ho_disk w')
    \<and> confined (resolve [] targetDir) (dk_root disk0) (dk_root (ho_disk w'))"
proof -
  obtain dir rootJSON es fsys d1 k2 w3 d4 where c: "CompressFS (se_walk E) skipDirs fsys = (Ok (), es)"
    and k: "kube_reconcile (se_kube E) repoSecret
       [''root'' \<mapsto> rootJSON, ''repository'' \<mapsto> tc_write (se_codec E) es] (ho_kube w) = (Ok (), k2)"
    and s: "store_keys E dir keysSecret (w\<lparr>ho_disk := d1, ho_kube := k2\<rparr>) = (Ok (), w3)"
    and u: "Uncompress (se_codec E) (tc_write (se_codec E) es) targetDir (ho_disk w3) = (Ok (), d4)"
    and w': "w' = w3\<lparr>ho_disk := d4\<rparr>"
    using initTUFRepo_OkE [OF assms(5,2)] .
  from kube_job.kube_reconcile_secret [OF assms(1) k] obtain d where
    d: "view k2 repoSecret = Some d" "go_get d ''repository'' = tc_write (se_codec E) es" by auto
  have "view (ho_kube w') repoSecret = Some d"
    using store_keys_kube [OF s assms(1,3)] d(1) w' by simp
  moreover have "confined (resolve [] targetDir) (dk_root (ho_disk w3)) (dk_root d4)"
    using unpacked_confined [OF assms(4) u] .
  ultimately show ?thesis
    using c d(2) u w' by (intro exI [of _ d] exI [of _ es] exI [of _ fsys] exI [of _ "ho_disk w3"]) simp
qed

theorem server_secret_matches_served_witness:
  "\<exists>w' d es fsys disk0. initTUFRepo ref_server example_flags ''/in'' ''/srv'' ''tuf-root'' [] example_host = (Ok (), w')
    \<and> mem_view (ho_kube w') ''tuf-root'' = Some d
    \<and> CompressFS calm_walk skipDirs fsys = (Ok (), es) \<and> go_get d ''repository'' = enc_entries es
    \<and> Uncompress ref_codec (go_get d ''repository'') ''/srv'' disk0 = (Ok (), ho_disk w')"
proof -
  obtain w' where run: "initTUFRepo ref_server example_flags ''/in'' ''/srv'' ''tuf-root'' [] example_host = (Ok (), w')"
    using example_init_runs by blast
  have "kube_job (se_kube ref_server) mem_view"
    using refkube.kube_job_axioms by (simp add: ref_server_defs)
  moreover have "\<not> sf_noK8s example_flags" "is_rooted ''/srv''"
    by (simp_all add: example_flags_def server_default_flags_def is_rooted_def)
  ultimately have "\<exists>d es fsys disk0. mem_view (ho_kube w') ''tuf-root'' = Some d
    \<and> CompressFS (se_walk ref_server) skipDirs fsys = (Ok (), es)
    \<and> go_get d ''repository'' = tc_write (se_codec ref_server) es
    \<and> Uncompress (se_codec ref_server) (go_get d ''repository'') ''/srv'' disk0 = (Ok (), ho_disk w')
    \<and> confined (resolve [] ''/srv'') (dk_root disk0) (dk_root (ho_disk w'))"
    using run by (intro server_secret_matches_served) auto
  with run show ?thesis by (simp add: ref_server_defs ref_codec_def) blast
qed

end
