(* ===== verification/Trillian_Schema.thy ===== *)
theory Trillian_Schema
  imports Go_Prelude
begin

text \<open>
  \<^verbatim>\<open>tools/trillian/cmd/trillian/createdb/main.go\<close>: the job that waits for the database and
  creates the tables and indexes of Trillian that are missing. The SQL texts are those of the
  source. The database is the record \<open>sql_db\<close>; the locale \<open>mysql\<close> says what its answers mean, in
  terms of the words of a statement, and \<open>mysql_live\<close> that it executes what it can execute: a
  table only after the tables it REFERENCES. The theorems are that the order of the list \<open>tables\<close>
  is right, that a run makes the schema complete, and that it does not touch a complete one.
\<close>

section \<open>The statements\<close>

definition indexCheck :: string where "indexCheck = ''
	select count(*) from information_schema.statistics where table_schema = ? and table_name=? and index_name=?;
	''"

definition createTableTrees :: string where "createTableTrees = ''
	CREATE TABLE IF NOT EXISTS Trees(
	  TreeId                BIGINT NOT NULL,
	  TreeState             ENUM('ACTIVE', 'FROZEN', 'DRAINING') NOT NULL,
	  TreeType              ENUM('LOG', 'MAP', 'PREORDERED_LOG') NOT NULL,
	  HashStrategy          ENUM('RFC6962_SHA256', 'TEST_MAP_HASHER', 'OBJECT_RFC6962_SHA256', 'CONIKS_SHA512_256', 'CONIKS_SHA256') NOT NULL,
	  HashAlgorithm         ENUM('SHA256') NOT NULL,
	  SignatureAlgorithm    ENUM('ECDSA', 'RSA', 'ED25519') NOT NULL,
	  DisplayName           VARCHAR(20),
	  Description           VARCHAR(200),
	  CreateTimeMillis      BIGINT NOT NULL,
	  UpdateTimeMillis      BIGINT NOT NULL,
	  MaxRootDurationMillis BIGINT NOT NULL,
	  PrivateKey            MEDIUMBLOB NOT NULL,
	  PublicKey             MEDIUMBLOB NOT NULL,
	  Deleted               BOOLEAN,
	  DeleteTimeMillis      BIGINT,
	  PRIMARY KEY(TreeId)
	);
''"

definition createTableTreeControl :: string where "createTableTreeControl = ''
	CREATE TABLE IF NOT EXISTS TreeControl(
	  TreeId                  BIGINT NOT NULL,
	  SigningEnabled          BOOLEAN NOT NULL,
	  SequencingEnabled       BOOLEAN NOT NULL,
	  SequenceIntervalSeconds INTEGER NOT NULL,
	  PRIMARY KEY(TreeId),
	  FOREIGN KEY(TreeId) REFERENCES Trees(TreeId) ON DELETE CASCADE
	);
''"

definition createTableSubtree :: string where "createTableSubtree = ''
CREATE TABLE IF NOT EXISTS Subtree(
	  TreeId               BIGINT NOT NULL,
	  SubtreeId            VARBINARY(255) NOT NULL,
	  Nodes                MEDIUMBLOB NOT NULL,
	  SubtreeRevision      INTEGER NOT NULL,
	  -- Key columns must be in ASC order in order to benefit from group-by/min-max
	  -- optimization in MySQL.
	  PRIMARY KEY(TreeId, SubtreeId, SubtreeRevision),
	  FOREIGN KEY(TreeId) REFERENCES Trees(TreeId) ON DELETE CASCADE
	);
''"

definition createTableTreeHead :: string where "createTableTreeHead = ''
CREATE TABLE IF NOT EXISTS TreeHead(
	  TreeId               BIGINT NOT NULL,
	  TreeHeadTimestamp    BIGINT,
	  TreeSize             BIGINT,
	  RootHash             VARBINARY(255) NOT NULL,
	  RootSignature        VARBINARY(1024) NOT NULL,
	  TreeRevision         BIGINT,
	  PRIMARY KEY(TreeId, TreeHeadTimestamp),
	  FOREIGN KEY(TreeId) REFERENCES Trees(TreeId) ON DELETE CASCADE
	);
''"

definition createIndexTreeHeadRevision :: string where "createIndexTreeHeadRevision = ''
	CREATE UNIQUE INDEX TreeHeadRevisionIdx
	  ON TreeHead(TreeId, TreeRevision);
''"

definition createTableLeafData :: string where "createTableLeafData = ''
	CREATE TABLE IF NOT EXISTS LeafData(
	  TreeId               BIGINT NOT NULL,
	  -- This is a personality specific has of some subset of the leaf data.
	  -- It's only purpose is to allow Trillian to identify duplicate entries in
	  -- the context of the personality.
	  LeafIdentityHash     VARBINARY(255) NOT NULL,
	  -- This is the data stored in the leaf for example in CT it contains a DER encoded
	  -- X.509 certificate but is application dependent
	  LeafValue            LONGBLOB NOT NULL,
	  -- This is extra data that the application can associate with the leaf should it wish to.
	  -- This data is not included in signing and hashing.
	  ExtraData            LONGBLOB,
	  -- The timestamp from when this leaf data was first queued for inclusion.
	  QueueTimestampNanos  BIGINT NOT NULL,
	  PRIMARY KEY(TreeId, LeafIdentityHash),
	  FOREIGN KEY(TreeId) REFERENCES Trees(TreeId) ON DELETE CASCADE
	);
''"

definition createTableSequencedLeafData :: string where "createTableSequencedLeafData = ''
CREATE TABLE IF NOT EXISTS SequencedLeafData(
	  TreeId               BIGINT NOT NULL,
	  SequenceNumber       BIGINT UNSIGNED NOT NULL,
	  -- This is a personality specific has of some subset of the leaf data.
	  -- It's only purpose is to allow Trillian to identify duplicate entries in
	  -- the context of the personality.
	  LeafIdentityHash     VARBINARY(255) NOT NULL,
	  -- This is a MerkleLeafHash as defined by the treehasher that the log uses. For example for
	  -- CT this hash will include the leaf prefix byte as well as the leaf data.
	  MerkleLeafHash       VARBINARY(255) NOT NULL,
	  IntegrateTimestampNanos BIGINT NOT NULL,
	  PRIMARY KEY(TreeId, SequenceNumber),
	  FOREIGN KEY(TreeId) REFERENCES Trees(TreeId) ON DELETE CASCADE,
	  FOREIGN KEY(TreeId, LeafIdentityHash) REFERENCES LeafData(TreeId, LeafIdentityHash) ON DELETE CASCADE
	);
''"

definition createIndexSequencedLeafMerkle :: string where "createIndexSequencedLeafMerkle = ''
	CREATE INDEX SequencedLeafMerkleIdx
	  ON SequencedLeafData(TreeId, MerkleLeafHash);
''"

definition createTableUnsequenced :: string where "createTableUnsequenced = ''
	CREATE TABLE IF NOT EXISTS Unsequenced(
	  TreeId               BIGINT NOT NULL,
	  -- The bucket field is to allow the use of time based ring bucketed schemes if desired. If
	  -- unused this should be set to zero for all entries.
	  Bucket               INTEGER NOT NULL,
	  -- This is a personality specific hash of some subset of the leaf data.
	  -- It's only purpose is to allow Trillian to identify duplicate entries in
	  -- the context of the personality.
	  LeafIdentityHash     VARBINARY(255) NOT NULL,
	  -- This is a MerkleLeafHash as defined by the treehasher that the log uses. For example for
	  -- CT this hash will include the leaf prefix byte as well as the leaf data.
	  MerkleLeafHash       VARBINARY(255) NOT NULL,
	  QueueTimestampNanos  BIGINT NOT NULL,
	  -- This is a SHA256 hash of the TreeID, LeafIdentityHash and QueueTimestampNanos. It is used
	  -- for batched deletes from the table when trillian_log_server and trillian_log_signer are
	  -- built with the batched_queue tag.
	  QueueID VARBINARY(32) DEFAULT NULL UNIQUE,
	  PRIMARY KEY (TreeId, Bucket, QueueTimestampNanos, LeafIdentityHash)
	);
''"

text \<open>The words of a statement without its comments, and what the statement creates.\<close>

definition sql_separator :: "char \<Rightarrow> bool" where
  "sql_separator c \<longleftrightarrow> c = CHR '' '' \<or> c = CHR ''	'' \<or> c = CHR ''
'' \<or> c = CHR ''('' \<or> c = CHR '')''
     \<or> c = CHR '','' \<or> c = CHR '';''"

fun sql_split :: "bool \<Rightarrow> string \<Rightarrow> string \<Rightarrow> string list" where
  "sql_split comment cur [] = [rev cur]"
| "sql_split comment cur (c # s) =
     (if comment then sql_split (c \<noteq> CHR ''
'') [] s
      else if c = CHR ''-'' \<and> cur = ''-'' then sql_split True [] s
      else if sql_separator c then rev cur # sql_split False [] s
      else sql_split False (c # cur) s)"

definition sql_words :: "string \<Rightarrow> string list" where
  "sql_words s = filter (\<lambda>x. x \<noteq> []) (sql_split False [] s)"

fun sql_references :: "string list \<Rightarrow> string list" where
  "sql_references (a # b # ws) =
     (if a = ''REFERENCES'' then b # sql_references ws else sql_references (b # ws))"
| "sql_references ws = []"

datatype sql_stmt =
    CreateTable string "string list"   \<comment> \<open>the table and the tables its foreign keys refer to\<close>
  | CreateIndex string string          \<comment> \<open>the index and its table\<close>
  | OtherStmt

definition sql_parse :: "string \<Rightarrow> sql_stmt" where
  "sql_parse s =
     (let ws = sql_words s in
      if take 5 ws = [''CREATE'', ''TABLE'', ''IF'', ''NOT'', ''EXISTS'']
      then (case drop 5 ws of [] \<Rightarrow> OtherStmt | t # rest \<Rightarrow> CreateTable t (sql_references rest))
      else (let vs = filter (\<lambda>x. x \<noteq> ''UNIQUE'') ws in
        case vs of
          a # b # i # c # t # _ \<Rightarrow>
            if a = ''CREATE'' \<and> b = ''INDEX'' \<and> c = ''ON'' then CreateIndex i t else OtherStmt
        | _ \<Rightarrow> OtherStmt))"

section \<open>The lists of tables and indexes\<close>

definition tables :: "string list" where
  "tables = [''Trees'', ''TreeControl'', ''Subtree'', ''TreeHead'', ''LeafData'', ''SequencedLeafData'',
     ''Unsequenced'']"

definition createTables :: "string \<rightharpoonup> string" where
  "createTables =
     [''Trees'' \<mapsto> createTableTrees, ''TreeControl'' \<mapsto> createTableTreeControl,
      ''Subtree'' \<mapsto> createTableSubtree, ''TreeHead'' \<mapsto> createTableTreeHead,
      ''LeafData'' \<mapsto> createTableLeafData, ''SequencedLeafData'' \<mapsto> createTableSequencedLeafData,
      ''Unsequenced'' \<mapsto> createTableUnsequenced]"

record indexCreate =
  ic_tableName :: string
  ic_createStr :: string

definition createIndices :: "string \<rightharpoonup> indexCreate" where
  "createIndices =
     [''TreeHeadRevisionIdx'' \<mapsto> \<lparr>ic_tableName = ''TreeHead'', ic_createStr = createIndexTreeHeadRevision\<rparr>,
      ''SequencedLeafMerkleIdx'' \<mapsto>
        \<lparr>ic_tableName = ''SequencedLeafData'', ic_createStr = createIndexSequencedLeafMerkle\<rparr>]"

section \<open>The database\<close>

text \<open>A row is a list of columns, NULL or a text; \<open>Scan\<close> fails on NULL and on the wrong number of columns.\<close>

type_synonym row = "string option list"

text \<open>
  The result of a query: the rows \<open>Next\<close> and \<open>Scan\<close> give one after the other, and what \<open>Err\<close> gives
  after the last one: an error when the connection broke before the end. The code never asks for it.
\<close>

record rows =
  rs_Rows :: "row list"
  rs_Err :: "goerr option"

record 'w sql_db =
  db_Open :: "string \<Rightarrow> 'w \<Rightarrow> goerr option \<times> 'w"
  db_Ping :: "'w \<Rightarrow> goerr option \<times> 'w"
  db_Sleep :: "nat \<Rightarrow> 'w \<Rightarrow> 'w"
  db_Query :: "string \<Rightarrow> string list \<Rightarrow> 'w \<Rightarrow> (goerr + rows) \<times> 'w"
  db_Exec :: "string \<Rightarrow> 'w \<Rightarrow> goerr option \<times> 'w"
  db_Exit :: "'w \<Rightarrow> 'w"   \<comment> \<open>\<open>exitdir.Exit\<close>\<close>

definition scan_string :: "row \<Rightarrow> string go" where
  "scan_string r = (case r of [Some s] \<Rightarrow> Ok s | _ \<Rightarrow> Fail (NewErr ''sql: Scan error''))"

definition scan_int64 :: "row \<Rightarrow> int go" where
  "scan_int64 r = (case r of [Some s] \<Rightarrow> ParseInt s | _ \<Rightarrow> Fail (NewErr ''sql: Scan error''))"

section \<open>main\<close>

text \<open>\<open>for i := 0; i < 5; i++\<close>: stop at the first ping that succeeds, else sleep two seconds.\<close>

fun wait_ping :: "'w sql_db \<Rightarrow> nat \<Rightarrow> 'w \<Rightarrow> 'w" where
  "wait_ping D 0 w = w"
| "wait_ping D (Suc n) w =
     (case db_Ping D w of
        (None, w1) \<Rightarrow> w1
      | (Some _, w1) \<Rightarrow> wait_ping D n (db_Sleep D 2 w1))"

text \<open>A row that cannot be scanned leaves the variable empty, and the empty name is recorded.\<close>

fun existing_tables :: "row list \<Rightarrow> (string \<Rightarrow> bool) \<Rightarrow> string \<Rightarrow> bool" where
  "existing_tables [] existing = existing"
| "existing_tables (r # rs) existing =
     existing_tables rs (existing((case scan_string r of Ok s \<Rightarrow> s | _ \<Rightarrow> []) := True))"

text \<open>An error of a CREATE statement is logged and the loop goes on.\<close>

fun create_tables :: "'w sql_db \<Rightarrow> (string \<Rightarrow> bool) \<Rightarrow> string list \<Rightarrow> 'w \<Rightarrow> 'w" where
  "create_tables D existing [] w = w"
| "create_tables D existing (t # ts) w =
     (if existing t then create_tables D existing ts w
      else create_tables D existing ts (snd (db_Exec D (go_get createTables t) w)))"

fun scan_counts :: "row list \<Rightarrow> int \<Rightarrow> int" where
  "scan_counts [] n = n"
| "scan_counts (r # rs) n = scan_counts rs (case scan_int64 r of Ok i \<Rightarrow> i | _ \<Rightarrow> n)"

definition indexExists :: "'w sql_db \<Rightarrow> string \<Rightarrow> string \<Rightarrow> string \<Rightarrow> ('w, bool) io" where
  "indexExists D dbName indexName table w =
     (case db_Query D indexCheck [dbName, table, indexName] w of
        (Inl e, w1) \<Rightarrow> (Panic (''checking for index failed: '' @ Error e), w1)
      | (Inr tableRows, w1) \<Rightarrow> (Ok (scan_counts (rs_Rows tableRows) 0 > 0), w1))"

text \<open>The loop over the map \<open>createIndices\<close>, in the order of its keys the runtime chose.\<close>

fun create_indices :: "'w sql_db \<Rightarrow> string \<Rightarrow> string list \<Rightarrow> ('w, unit) io" where
  "create_indices D dbName [] = io_ret (Ok ())"
| "create_indices D dbName (i # is) =
     (case createIndices i of
        None \<Rightarrow> create_indices D dbName is
      | Some tc \<Rightarrow>
          io_bind (io_map_out (\<lambda>r. on_fail r (\<lambda>e. Panic (''Failed to check '' @ Quote i @ '' on ''
                       @ Quote (ic_tableName tc) @ '' for existence'')))
                     (indexExists D dbName i (ic_tableName tc))) (\<lambda>found w.
            if found then create_indices D dbName is w
            else create_indices D dbName is (snd (db_Exec D (ic_createStr tc) w))))"

record createdb_flags =
  df_dbName :: string
  df_mysqlURI :: string

definition createdb_defaults :: createdb_flags where
  "createdb_defaults = \<lparr>df_dbName = ''trillian'', df_mysqlURI = []\<rparr>"

text \<open>The body of \<open>main\<close>, up to its end or its panic.\<close>

definition createdb_body :: "'w sql_db \<Rightarrow> string list \<Rightarrow> createdb_flags \<Rightarrow> ('w, unit) io" where
  "createdb_body D order F w =
     (if df_mysqlURI F = [] then (Panic ''Need to specify mysql_uri to know where to connect to'', w)
      else if df_dbName F = [] then (Panic ''Need to specify database name'', w)
      else case db_Open D (TrimSuffix (df_mysqlURI F) ''/'' @ ''/'' @ df_dbName F) w of
        (Some e, w1) \<Rightarrow> (Panic (''failed to open db connection: '' @ Error e), w1)
      | (None, w1) \<Rightarrow>
          (case db_Ping D (wait_ping D 5 w1) of
             (Some e, w2) \<Rightarrow> (Panic (''failed to ping db: '' @ Error e), w2)
           | (None, w2) \<Rightarrow>
               (case db_Query D ''show tables'' [] w2 of
                  (Inl e, w3) \<Rightarrow> (Panic (''show tables failed: '' @ Error e), w3)
                | (Inr tableRows, w3) \<Rightarrow>
                    create_indices D (df_dbName F) order
                      (create_tables D (existing_tables (rs_Rows tableRows) (\<lambda>_. False)) tables w3))))"

text \<open>The deferred call tells the other containers of the pod that the job is over, after a panic too.\<close>

definition createdb_main :: "'w sql_db \<Rightarrow> string list \<Rightarrow> createdb_flags \<Rightarrow> ('w, unit) io" where
  "createdb_main D order F w = (let (r, w') = createdb_body D order F w in (r, db_Exit D w'))"

section \<open>What the statements of the source create\<close>

text \<open>Each table comes after the tables its foreign keys refer to.\<close>

fun order_ok :: "string list \<Rightarrow> string list \<Rightarrow> bool" where
  "order_ok known [] \<longleftrightarrow> True"
| "order_ok known (t # ts) \<longleftrightarrow>
     (case sql_parse (go_get createTables t) of
        CreateTable t' refs \<Rightarrow> t' = t \<and> list_all (\<lambda>r. r \<in> set known) refs
      | _ \<Rightarrow> False) \<and> order_ok (t # known) ts"

definition index_ok :: "string \<Rightarrow> bool" where
  "index_ok i \<longleftrightarrow> (case createIndices i of None \<Rightarrow> False
     | Some tc \<Rightarrow> sql_parse (ic_createStr tc) = CreateIndex i (ic_tableName tc) \<and> ic_tableName tc \<in> set tables)"

definition index_names :: "string list" where
  "index_names = [''TreeHeadRevisionIdx'', ''SequencedLeafMerkleIdx'']"

text \<open>The pairs of table and index.\<close>

definition index_pairs :: "string list \<Rightarrow> (string \<times> string) set" where
  "index_pairs is = {(ic_tableName tc, i) | i tc. i \<in> set is \<and> createIndices i = Some tc}"

lemma parse_Trees: "sql_parse createTableTrees = CreateTable ''Trees'' []"
  by code_simp

lemma parse_TreeControl: "sql_parse createTableTreeControl = CreateTable ''TreeControl'' [''Trees'']"
  by code_simp

lemma parse_Subtree: "sql_parse createTableSubtree = CreateTable ''Subtree'' [''Trees'']"
  by code_simp

lemma parse_TreeHead: "sql_parse createTableTreeHead = CreateTable ''TreeHead'' [''Trees'']"
  by code_simp

lemma parse_LeafData: "sql_parse createTableLeafData = CreateTable ''LeafData'' [''Trees'']"
  by code_simp

lemma parse_SequencedLeafData:
  "sql_parse createTableSequencedLeafData = CreateTable ''SequencedLeafData'' [''Trees'', ''LeafData'']"
  by code_simp

lemma parse_Unsequenced: "sql_parse createTableUnsequenced = CreateTable ''Unsequenced'' []"
  by code_simp

lemma parse_TreeHeadRevision:
  "sql_parse createIndexTreeHeadRevision = CreateIndex ''TreeHeadRevisionIdx'' ''TreeHead''"
  by code_simp

lemma parse_SequencedLeafMerkle:
  "sql_parse createIndexSequencedLeafMerkle = CreateIndex ''SequencedLeafMerkleIdx'' ''SequencedLeafData''"
  by code_simp

lemmas parse_simps = parse_Trees parse_TreeControl parse_Subtree parse_TreeHead parse_LeafData
  parse_SequencedLeafData parse_Unsequenced parse_TreeHeadRevision parse_SequencedLeafMerkle

lemma tables_order_ok: "order_ok [] tables"
  by (simp add: tables_def createTables_def go_get_def parse_simps)

lemma indices_ok: "list_all index_ok index_names"
  by (simp add: index_names_def index_ok_def createIndices_def parse_simps tables_def)

lemma createIndices_dom: "dom createIndices = set index_names"
  by (auto simp: createIndices_def index_names_def)

section \<open>What is relied on of the database\<close>

record schema =
  sc_tables :: "string set"
  sc_indexes :: "(string \<times> string) set"

definition sql_effect :: "sql_stmt \<Rightarrow> schema \<Rightarrow> schema" where
  "sql_effect s sc =
     (case s of
        CreateTable t refs \<Rightarrow> sc\<lparr>sc_tables := insert t (sc_tables sc)\<rparr>
      | CreateIndex i t \<Rightarrow> sc\<lparr>sc_indexes := insert (t, i) (sc_indexes sc)\<rparr>
      | OtherStmt \<Rightarrow> sc)"

text \<open>The statements of the source that a run may execute.\<close>

definition creates :: "string set" where
  "creates = ran createTables \<union> ic_createStr ` ran createIndices"

text \<open>
  \<open>view\<close> is the schema of the database and \<open>log\<close> the statements it was given to execute. A
  statement that fails changes nothing. A result that breaks off holds some of the rows of the
  whole one.
\<close>

locale mysql =
  fixes D :: "'w sql_db" and dbName :: string and view :: "'w \<Rightarrow> schema" and log :: "'w \<Rightarrow> string list"
  assumes open_frame: "db_Open D c w = (r, w') \<Longrightarrow> view w' = view w \<and> log w' = log w"
    and ping_frame: "db_Ping D w = (r', w') \<Longrightarrow> view w' = view w \<and> log w' = log w"
    and sleep_frame: "view (db_Sleep D n w) = view w \<and> log (db_Sleep D n w) = log w"
    and query_frame: "db_Query D q args w = (qr, w') \<Longrightarrow> view w' = view w \<and> log w' = log w"
    and exit_frame: "view (db_Exit D w) = view w \<and> log (db_Exit D w) = log w"
    and show_tables: "db_Query D ''show tables'' [] w = (Inr rs, w') \<Longrightarrow>
      set (rs_Rows rs) \<subseteq> (\<lambda>t. [Some t]) ` sc_tables (view w)
      \<and> (rs_Err rs = None \<longrightarrow> set (rs_Rows rs) = (\<lambda>t. [Some t]) ` sc_tables (view w))"
    and count_index: "db_Query D indexCheck [dbName, t, i] w = (Inr rs, w') \<Longrightarrow>
      \<exists>n. int64_range n \<and> (0 < n \<longleftrightarrow> (t, i) \<in> sc_indexes (view w))
        \<and> (rs_Rows rs = [[Some (itoa_int n)]] \<or> rs_Err rs \<noteq> None \<and> rs_Rows rs = [])"
    and exec_log: "db_Exec D s w = (e, w') \<Longrightarrow> log w' = log w @ [s]"
    and exec_view: "db_Exec D s w = (e, w') \<Longrightarrow> sql_parse s \<noteq> OtherStmt \<Longrightarrow>
      view w' = (case e of None \<Rightarrow> sql_effect (sql_parse s) (view w) | Some _ \<Rightarrow> view w)"
begin

lemma wait_ping_frame: "view (wait_ping D n w) = view w \<and> log (wait_ping D n w) = log w"
proof (induction n arbitrary: w)
  case (Suc n)
  obtain r w1 where p: "db_Ping D w = (r, w1)" by (metis prod.collapse)
  with Suc.IH [of "db_Sleep D 2 w1"] ping_frame [OF p] sleep_frame [of 2 w1] show ?case
    by (auto split: option.splits)
qed simp

lemma existing_rows: "existing_tables rows ex t \<longleftrightarrow>
    ex t \<or> (\<exists>r \<in> set rows. t = (case scan_string r of Ok s \<Rightarrow> s | _ \<Rightarrow> []))"
  by (induction rows arbitrary: ex) auto

lemma existing_iff:
  assumes "db_Query D ''show tables'' [] w = (Inr rs, w')"
  shows "existing_tables (rs_Rows rs) (\<lambda>_. False) t \<Longrightarrow> t \<in> sc_tables (view w)"
    and "rs_Err rs = None \<Longrightarrow> existing_tables (rs_Rows rs) (\<lambda>_. False) t \<longleftrightarrow> t \<in> sc_tables (view w)"
proof -
  note rows = show_tables [OF assms]
  show "existing_tables (rs_Rows rs) (\<lambda>_. False) t \<Longrightarrow> t \<in> sc_tables (view w)"
    using rows unfolding existing_rows by (fastforce simp: scan_string_def)
  assume "rs_Err rs = None"
  with rows have "set (rs_Rows rs) = (\<lambda>t. [Some t]) ` sc_tables (view w)" by blast
  then show "existing_tables (rs_Rows rs) (\<lambda>_. False) t \<longleftrightarrow> t \<in> sc_tables (view w)"
    unfolding existing_rows by (auto simp: scan_string_def)
qed

lemma indexExists_cases:
  assumes "indexExists D dbName i t w = (r, w')"
  shows "view w' = view w \<and> log w' = log w
    \<and> ((\<exists>e. r = Panic (''checking for index failed: '' @ Error e))
      \<or> (\<exists>rs. db_Query D indexCheck [dbName, t, i] w = (Inr rs, w')
           \<and> (r = Ok ((t, i) \<in> sc_indexes (view w)) \<or> rs_Err rs \<noteq> None \<and> r = Ok False)))"
proof -
  obtain q w1 where q: "db_Query D indexCheck [dbName, t, i] w = (q, w1)" by (metis prod.collapse)
  show ?thesis
  proof (cases q)
    case (Inl e)
    with q query_frame [OF q] assms show ?thesis by (auto simp: indexExists_def)
  next
    case (Inr rs)
    then obtain n where n: "int64_range n" "0 < n \<longleftrightarrow> (t, i) \<in> sc_indexes (view w)"
      "rs_Rows rs = [[Some (itoa_int n)]] \<or> rs_Err rs \<noteq> None \<and> rs_Rows rs = []"
      using count_index q by blast
    from n(1) have "ParseInt (itoa_int n) = Ok n" by (rule ParseInt_itoa_int)
    with n q Inr query_frame [OF q] assms show ?thesis by (auto simp: indexExists_def scan_int64_def)
  qed
qed

text \<open>None of the statements changes a schema that has what it creates.\<close>

lemma exec_existing_table:
  assumes "t \<in> set tables" and "t \<in> sc_tables (view w)"
  shows "view (snd (db_Exec D (go_get createTables t) w)) = view w
    \<and> log (snd (db_Exec D (go_get createTables t) w)) = log w @ [go_get createTables t]
    \<and> go_get createTables t \<in> creates"
proof -
  obtain e w' where x: "db_Exec D (go_get createTables t) w = (e, w')" by (metis prod.collapse)
  from assms(1) obtain s refs where s: "createTables t = Some s" "sql_parse s = CreateTable t refs"
    by (auto simp: tables_def createTables_def parse_simps)
  then have g: "go_get createTables t = s" by (simp add: go_get_def)
  have "view w' = view w"
    using exec_view [OF x] s(2) assms(2) unfolding g
    by (simp add: sql_effect_def insert_absorb split: option.splits)
  moreover have "log w' = log w @ [s]" using exec_log [OF x] unfolding g .
  moreover have "s \<in> creates" using s(1) by (auto simp: creates_def ran_def)
  ultimately show ?thesis by (simp add: x [unfolded g] g)
qed

lemma exec_existing_index:
  assumes "createIndices i = Some tc" and "(ic_tableName tc, i) \<in> sc_indexes (view w)"
  shows "view (snd (db_Exec D (ic_createStr tc) w)) = view w
    \<and> log (snd (db_Exec D (ic_createStr tc) w)) = log w @ [ic_createStr tc] \<and> ic_createStr tc \<in> creates"
proof -
  obtain e w' where x: "db_Exec D (ic_createStr tc) w = (e, w')" by (metis prod.collapse)
  have "sql_parse (ic_createStr tc) = CreateIndex i (ic_tableName tc)"
    using assms(1) by (auto simp: createIndices_def parse_simps split: if_splits)
  with exec_view [OF x] assms(2) have "view w' = view w"
    by (simp add: sql_effect_def insert_absorb split: option.splits)
  moreover have "ic_createStr tc \<in> creates" using assms(1) by (auto simp: creates_def ran_def)
  ultimately show ?thesis using exec_log [OF x] by (simp add: x)
qed

lemma create_tables_schema:
  assumes "set ts \<subseteq> set tables" and "set ts \<subseteq> sc_tables (view w)"
  shows "view (create_tables D existing ts w) = view w
    \<and> (\<exists>ss. log (create_tables D existing ts w) = log w @ ss \<and> set ss \<subseteq> creates)"
  using assms
proof (induction ts arbitrary: w)
  case (Cons t ts)
  let ?w = "snd (db_Exec D (go_get createTables t) w)"
  show ?case
  proof (cases "existing t")
    case False
    have one: "view ?w = view w \<and> log ?w = log w @ [go_get createTables t] \<and> go_get createTables t \<in> creates"
      using Cons.prems by (intro exec_existing_table) auto
    with Cons.IH [of ?w] Cons.prems obtain ss where
      "view (create_tables D existing ts ?w) = view w" "log (create_tables D existing ts ?w) = log ?w @ ss" "set ss \<subseteq> creates"
      by auto
    with one False show ?thesis by (auto intro!: exI [of _ "go_get createTables t # ss"])
  qed (use Cons in auto)
qed simp

text \<open>Nothing is executed for tables and indexes that exist.\<close>

lemma create_tables_existing: "\<forall>t \<in> set ts. existing t \<Longrightarrow> create_tables D existing ts w = w"
  by (induction ts) auto

text \<open>A run over indexes that exist, with results that may break off.\<close>

lemma create_indices_schema:
  assumes "index_pairs is \<subseteq> sc_indexes (view w)" and "create_indices D dbName is w = (r, w')"
  shows "view w' = view w \<and> (\<exists>ss. log w' = log w @ ss \<and> set ss \<subseteq> creates
    \<and> ((\<forall>q args v rs v'. db_Query D q args v = (Inr rs, v') \<longrightarrow> rs_Err rs = None) \<longrightarrow> ss = []))"
    (is "?R w")
  using assms
proof (induction "is" arbitrary: w)
  case Nil
  then show ?case by (simp add: io_ret_def)
next
  case (Cons i "is")
  have sub: "index_pairs is \<subseteq> sc_indexes (view w)"
    using Cons.prems(1) by (auto simp: index_pairs_def)
  show ?case
  proof (cases "createIndices i")
    case None
    with Cons sub show ?thesis by simp
  next
    case (Some tc)
    obtain x w1 where x: "indexExists D dbName i (ic_tableName tc) w = (x, w1)" by (metis prod.collapse)
    note c = indexExists_cases [OF x]
    have ex: "(ic_tableName tc, i) \<in> sc_indexes (view w)"
      using Cons.prems(1) Some by (auto simp: index_pairs_def)
    let ?w = "snd (db_Exec D (ic_createStr tc) w1)"
    consider (panic) e where "x = Panic e" | (found) "x = Ok True"
      | (brk) rs where "db_Query D indexCheck [dbName, ic_tableName tc, i] w = (Inr rs, w1)" "rs_Err rs \<noteq> None" "x = Ok False"
      using c ex by auto
    then show ?thesis
    proof cases
      case panic
      with Cons.prems(2) Some x have "w' = w1" by (auto simp: io_map_out_def)
      with c show ?thesis by auto
    next
      case found
      with Cons.prems(2) Some x have "create_indices D dbName is w1 = (r, w')" by (simp add: io_map_out_def)
      with Cons.IH [of w1] c sub show ?thesis by simp
    next
      case brk
      with Cons.prems(2) Some x have "create_indices D dbName is ?w = (r, w')" by (simp add: io_map_out_def)
      moreover have one: "view ?w = view w" "log ?w = log w @ [ic_createStr tc]" "ic_createStr tc \<in> creates"
        using exec_existing_index [OF Some, of w1] ex c by auto
      ultimately obtain ss where "view w' = view w" "log w' = log ?w @ ss" "set ss \<subseteq> creates"
        using Cons.IH [of ?w] sub by auto
      moreover have "\<not> (\<forall>q args v rs v'. db_Query D q args v = (Inr rs, v') \<longrightarrow> rs_Err rs = None)"
        using brk(1,2) by metis
      ultimately show ?thesis using one by (auto intro!: exI [of _ "ic_createStr tc # ss"])
    qed
  qed
qed

end

text \<open>
  The database of a cluster that is coming up: \<open>down\<close> is the number of seconds until it answers.
  From then on it executes every statement that creates a missing index of an existing table or a
  table whose foreign keys refer to existing tables. \<open>exited\<close> is the signal that the job is over.
\<close>

locale mysql_live = mysql +
  fixes down :: "'w \<Rightarrow> nat" and exited :: "'w \<Rightarrow> bool"
  assumes live_exit: "exited (db_Exit D w)"
    and live_open: "fst (db_Open D c w) = None \<and> down (snd (db_Open D c w)) = down w"
    and live_ping: "(fst (db_Ping D w) = None \<longleftrightarrow> down w = 0) \<and> down (snd (db_Ping D w)) = down w"
    and live_sleep: "down (db_Sleep D n w) = down w - n"
    and live_query: "down w = 0 \<Longrightarrow> (\<exists>rs. fst (db_Query D q args w) = Inr rs \<and> rs_Err rs = None) \<and> down (snd (db_Query D q args w)) = 0"
    and live_exec: "down w = 0 \<Longrightarrow> down (snd (db_Exec D s w)) = 0"
    and live_table: "down w = 0 \<Longrightarrow> sql_parse s = CreateTable t refs \<Longrightarrow> set refs \<subseteq> sc_tables (view w) \<Longrightarrow>
      fst (db_Exec D s w) = None"
    and live_index: "down w = 0 \<Longrightarrow> sql_parse s = CreateIndex i t \<Longrightarrow> t \<in> sc_tables (view w) \<Longrightarrow>
      (t, i) \<notin> sc_indexes (view w) \<Longrightarrow> fst (db_Exec D s w) = None"
begin

lemma wait_ping_down: "down (wait_ping D n w) = down w - 2 * n"
proof (induction n arbitrary: w)
  case (Suc n)
  obtain e w1 where p: "db_Ping D w = (e, w1)" "e = None \<longleftrightarrow> down w = 0" "down w1 = down w"
    using live_ping [of w] by (cases "db_Ping D w") auto
  show ?case
  proof (cases e)
    case None
    with p show ?thesis by simp
  next
    case (Some x)
    with p Suc.IH [of "db_Sleep D 2 w1"] show ?thesis by (simp add: live_sleep)
  qed
qed simp

lemma exec_ok:
  assumes "down w = 0" and "fst (db_Exec D s w) = None" and "sql_parse s \<noteq> OtherStmt"
  shows "view (snd (db_Exec D s w)) = sql_effect (sql_parse s) (view w) \<and> down (snd (db_Exec D s w)) = 0"
proof -
  obtain w' where e: "db_Exec D s w = (None, w')" using assms(2) by (metis prod.collapse)
  with exec_view [OF e assms(3)] live_exec [OF assms(1), of s] show ?thesis by simp
qed

lemma create_tables_live:
  assumes "order_ok known ts" and "down w = 0" and "set known \<subseteq> sc_tables (view w)"
    and "\<forall>t \<in> set ts. existing t \<longrightarrow> t \<in> sc_tables (view w)"
  shows "view (create_tables D existing ts w) = (view w)\<lparr>sc_tables := sc_tables (view w) \<union> set ts\<rparr>
    \<and> down (create_tables D existing ts w) = 0"
  using assms
proof (induction ts arbitrary: known w)
  case Nil
  then show ?case by simp
next
  case (Cons t ts)
  let ?s = "go_get createTables t"
  from Cons.prems(1) obtain refs where p: "sql_parse ?s = CreateTable t refs" "set refs \<subseteq> set known"
    and rest: "order_ok (t # known) ts"
    by (auto simp: list_all_iff split: sql_stmt.splits)
  show ?case
  proof (cases "existing t")
    case True
    with Cons.prems(4) have t: "t \<in> sc_tables (view w)" by simp
    have "view (create_tables D existing ts w) = (view w)\<lparr>sc_tables := sc_tables (view w) \<union> set ts\<rparr>
        \<and> down (create_tables D existing ts w) = 0"
      by (rule Cons.IH [OF rest]) (use Cons.prems t in auto)
    with True t show ?thesis by (simp add: insert_absorb)
  next
    case False
    let ?w = "snd (db_Exec D ?s w)"
    have "fst (db_Exec D ?s w) = None"
      using live_table [OF Cons.prems(2) p(1)] p(2) Cons.prems(3) by auto
    from exec_ok [OF Cons.prems(2) this] p(1)
    have v: "view ?w = (view w)\<lparr>sc_tables := insert t (sc_tables (view w))\<rparr>" "down ?w = 0"
      by (auto simp: sql_effect_def)
    have "view (create_tables D existing ts ?w) = (view ?w)\<lparr>sc_tables := sc_tables (view ?w) \<union> set ts\<rparr>
        \<and> down (create_tables D existing ts ?w) = 0"
      by (rule Cons.IH [OF rest]) (use Cons.prems v in auto)
    with False v(1) show ?thesis by simp
  qed
qed

lemma indexExists_live:
  assumes "down w = 0"
  obtains w1 where "indexExists D dbName i t w = (Ok ((t, i) \<in> sc_indexes (view w)), w1)"
    "view w1 = view w" "down w1 = 0"
proof -
  obtain rs w1 where q: "db_Query D indexCheck [dbName, t, i] w = (Inr rs, w1)" "rs_Err rs = None" "down w1 = 0"
    using live_query [OF assms, of indexCheck "[dbName, t, i]"]
    by (cases "db_Query D indexCheck [dbName, t, i] w") auto
  then have e: "indexExists D dbName i t w = (Ok (scan_counts (rs_Rows rs) 0 > 0), w1)"
    by (simp add: indexExists_def)
  with indexExists_cases [OF e] q that show thesis by auto
qed

lemma create_indices_live:
  assumes "list_all index_ok is" and "down w = 0" and "set tables \<subseteq> sc_tables (view w)"
  shows "\<exists>w'. create_indices D dbName is w = (Ok (), w')
    \<and> view w' = (view w)\<lparr>sc_indexes := sc_indexes (view w) \<union> index_pairs is\<rparr>"
  using assms
proof (induction "is" arbitrary: w)
  case Nil
  then show ?case by (simp add: io_ret_def index_pairs_def)
next
  case (Cons i "is")
  from Cons.prems(1) obtain tc where tc: "createIndices i = Some tc"
    "sql_parse (ic_createStr tc) = CreateIndex i (ic_tableName tc)" "ic_tableName tc \<in> set tables"
    by (auto simp: index_ok_def split: option.splits)
  have pairs: "index_pairs (i # is) = insert (ic_tableName tc, i) (index_pairs is)"
    using tc(1) by (auto simp: index_pairs_def)
  obtain w1 where x: "indexExists D dbName i (ic_tableName tc) w = (Ok ((ic_tableName tc, i) \<in> sc_indexes (view w)), w1)"
    and w1: "view w1 = view w" "down w1 = 0"
    using indexExists_live [OF Cons.prems(2)] by blast
  show ?case
  proof (cases "(ic_tableName tc, i) \<in> sc_indexes (view w)")
    case True
    with x tc(1) have "create_indices D dbName (i # is) w = create_indices D dbName is w1"
      by (simp add: io_map_out_def)
    with Cons.IH [of w1] Cons.prems w1 pairs True show ?thesis by (auto simp: insert_absorb)
  next
    case False
    let ?w = "snd (db_Exec D (ic_createStr tc) w1)"
    have "fst (db_Exec D (ic_createStr tc) w1) = None"
      using live_index [OF w1(2) tc(2)] tc(3) Cons.prems(3) w1(1) False by auto
    from exec_ok [OF w1(2) this] tc(2) w1(1)
    have v: "view ?w = (view w)\<lparr>sc_indexes := insert (ic_tableName tc, i) (sc_indexes (view w))\<rparr>" "down ?w = 0"
      by (auto simp: sql_effect_def)
    have "create_indices D dbName (i # is) w = create_indices D dbName is ?w"
      using x tc(1) False by (simp add: io_map_out_def)
    with Cons.IH [of ?w] Cons.prems v pairs show ?thesis by auto
  qed
qed

end

section \<open>A database in memory\<close>

record mem_db =
  md_tables :: "string list"
  md_indexes :: "(string \<times> string) list"
  md_log :: "string list"
  md_down :: nat
  md_exited :: bool

definition md_schema :: "mem_db \<Rightarrow> schema" where
  "md_schema m = \<lparr>sc_tables = set (md_tables m), sc_indexes = set (md_indexes m)\<rparr>"

definition md_exec :: "string \<Rightarrow> mem_db \<Rightarrow> goerr option \<times> mem_db" where
  "md_exec s m =
     (let m1 = m\<lparr>md_log := md_log m @ [s]\<rparr> in
      if md_down m > 0 then (Some (NewErr ''connection refused''), m1)
      else case sql_parse s of
        CreateTable t refs \<Rightarrow>
          if set refs \<subseteq> set (md_tables m) then (None, m1\<lparr>md_tables := md_tables m @ [t]\<rparr>)
          else (Some (NewErr ''Failed to open the referenced table''), m1)
      | CreateIndex i t \<Rightarrow>
          if t \<in> set (md_tables m) \<and> (t, i) \<notin> set (md_indexes m)
          then (None, m1\<lparr>md_indexes := md_indexes m @ [(t, i)]\<rparr>)
          else (Some (NewErr ''Duplicate key name''), m1)
      | OtherStmt \<Rightarrow> (Some (NewErr ''syntax error''), m1))"

text \<open>With \<open>brk\<close> a connection that breaks after so many rows of each result.\<close>

definition md_result :: "nat option \<Rightarrow> row list \<Rightarrow> rows" where
  "md_result brk rs =
     (case brk of
        None \<Rightarrow> \<lparr>rs_Rows = rs, rs_Err = None\<rparr>
      | Some n \<Rightarrow> \<lparr>rs_Rows = take n rs, rs_Err = Some (NewErr ''invalid connection'')\<rparr>)"

definition md_query :: "nat option \<Rightarrow> string \<Rightarrow> string list \<Rightarrow> mem_db \<Rightarrow> (goerr + rows) \<times> mem_db" where
  "md_query brk q args m =
     (if md_down m > 0 then Inl (NewErr ''connection refused'')
      else Inr (md_result brk
        (if q = ''show tables'' then map (\<lambda>t. [Some t]) (md_tables m)
         else case args of
             [db, t, i] \<Rightarrow> [[Some (itoa_int (if (t, i) \<in> set (md_indexes m) then 1 else 0))]]
           | _ \<Rightarrow> [])), m)"

definition mem_sql :: "nat option \<Rightarrow> mem_db sql_db" where
  "mem_sql brk =
     \<lparr>db_Open = (\<lambda>c m. (None, m)),
      db_Ping = (\<lambda>m. (if md_down m > 0 then Some (NewErr ''connection refused'') else None, m)),
      db_Sleep = (\<lambda>n m. m\<lparr>md_down := md_down m - n\<rparr>), db_Query = md_query brk, db_Exec = md_exec,
      db_Exit = (\<lambda>m. m\<lparr>md_exited := True\<rparr>)\<rparr>"

lemmas mem_sql_defs = mem_sql_def md_query_def md_result_def md_exec_def md_schema_def

lemma indexCheck_not_show: "indexCheck \<noteq> ''show tables''"
  by (simp add: indexCheck_def)

lemma md_exec_frame:
  "md_log (snd (md_exec s m)) = md_log m @ [s] \<and> md_down (snd (md_exec s m)) = md_down m"
  by (simp add: md_exec_def Let_def split: sql_stmt.split)

lemma md_exec_schema:
  "sql_parse s \<noteq> OtherStmt \<Longrightarrow> md_schema (snd (md_exec s m)) =
     (case fst (md_exec s m) of None \<Rightarrow> sql_effect (sql_parse s) (md_schema m) | Some _ \<Rightarrow> md_schema m)"
  by (simp add: md_exec_def md_schema_def sql_effect_def Let_def split: sql_stmt.split)

lemma md_index_count: "\<exists>n. itoa_int (if b then 1 else 0) = itoa_int n \<and> int64_range n \<and> (0 < n) = b"
  by (intro exI [of _ "if b then 1 else 0"]) (simp add: int64_range_def)

lemma take_one_row: "take n [x] = [x] \<or> take n [x] = []"
  by (cases n) auto

text \<open>Whether its results break off or not, it is a database.\<close>

interpretation anydb: mysql "mem_sql brk" "''trillian''" md_schema md_log for brk
proof unfold_locales
  fix t i w rs w'
  assume "db_Query (mem_sql brk) indexCheck [''trillian'', t, i] w = (Inr rs, w')"
  then have "rs = md_result brk [[Some (itoa_int (if (t, i) \<in> set (md_indexes w) then 1 else 0))]]"
    using indexCheck_not_show by (simp add: mem_sql_def md_query_def split: if_split_asm)
  with md_index_count [of "(t, i) \<in> set (md_indexes w)"] take_one_row
  show "\<exists>n. int64_range n \<and> (0 < n \<longleftrightarrow> (t, i) \<in> sc_indexes (md_schema w))
      \<and> (rs_Rows rs = [[Some (itoa_int n)]] \<or> rs_Err rs \<noteq> None \<and> rs_Rows rs = [])"
    by (cases brk) (auto simp: md_schema_def md_result_def)
next
  fix s w e w'
  assume "db_Exec (mem_sql brk) s w = (e, w')" "sql_parse s \<noteq> OtherStmt"
  with md_exec_schema [of s w]
  show "md_schema w' = (case e of None \<Rightarrow> sql_effect (sql_parse s) (md_schema w) | Some _ \<Rightarrow> md_schema w)"
    by (simp add: mem_sql_def)
next
  fix s w e w'
  assume "db_Exec (mem_sql brk) s w = (e, w')"
  with md_exec_frame [of s w] show "md_log w' = md_log w @ [s]" by (simp add: mem_sql_def)
next
  fix rs w w'
  assume "db_Query (mem_sql brk) ''show tables'' [] w = (Inr rs, w')"
  then show "set (rs_Rows rs) \<subseteq> (\<lambda>t. [Some t]) ` sc_tables (md_schema w)
      \<and> (rs_Err rs = None \<longrightarrow> set (rs_Rows rs) = (\<lambda>t. [Some t]) ` sc_tables (md_schema w))"
    by (auto simp: mem_sql_def md_query_def md_result_def md_schema_def take_map split: if_splits option.splits)
      (blast dest: in_set_takeD)
qed (auto simp: mem_sql_def md_query_def md_schema_def md_exec_frame)

text \<open>With whole results it is one that comes up.\<close>

interpretation memdb: mysql_live "mem_sql None" "''trillian''" md_schema md_log md_down md_exited
proof unfold_locales
  fix s t refs w
  assume "md_down w = 0" "sql_parse s = CreateTable t refs" "set refs \<subseteq> sc_tables (md_schema w)"
  then show "fst (db_Exec (mem_sql None) s w) = None" by (simp add: mem_sql_defs)
next
  fix s t i w
  assume "md_down w = 0" "sql_parse s = CreateIndex i t" "t \<in> sc_tables (md_schema w)"
    "(t, i) \<notin> sc_indexes (md_schema w)"
  then show "fst (db_Exec (mem_sql None) s w) = None" by (simp add: mem_sql_defs)
qed (auto simp: mem_sql_def md_query_def md_result_def md_schema_def md_exec_frame)

section \<open>Properties\<close>

lemma index_pairs_all:
  assumes "range_order createIndices order"
  shows "index_pairs order =
    {(''TreeHead'', ''TreeHeadRevisionIdx''), (''SequencedLeafData'', ''SequencedLeafMerkleIdx'')}"
proof -
  have "index_pairs order = (\<lambda>i. (ic_tableName (the (createIndices i)), i)) ` (set order \<inter> dom createIndices)"
    by (force simp: index_pairs_def)
  also have "set order \<inter> dom createIndices = {''TreeHeadRevisionIdx'', ''SequencedLeafMerkleIdx''}"
    using assms unfolding range_order_def createIndices_dom by (simp add: index_names_def)
  finally show ?thesis by (simp add: createIndices_def)
qed

text \<open>
  C17. With a database that comes up within ten seconds createdb returns and leaves all seven
  tables and both indexes next to what was there, in whatever order the map of indexes is visited;
  with a database that needs longer it panics and has executed nothing. In both cases the end of
  the job has been signalled to the containers that wait for it.
\<close>

theorem createdb_completes:
  assumes "mysql_live D (df_dbName F) view log down exited" and "range_order createIndices order"
    and "df_mysqlURI F \<noteq> []" and "df_dbName F \<noteq> []"
  shows "if down w \<le> 10
    then \<exists>w'. createdb_main D order F w = (Ok (), w') \<and> exited w'
      \<and> sc_tables (view w') = sc_tables (view w) \<union> {''Trees'', ''TreeControl'', ''Subtree'', ''TreeHead'',
          ''LeafData'', ''SequencedLeafData'', ''Unsequenced''}
      \<and> sc_indexes (view w') = sc_indexes (view w) \<union> {(''TreeHead'', ''TreeHeadRevisionIdx''),
          (''SequencedLeafData'', ''SequencedLeafMerkleIdx'')}
    else \<exists>e w'. createdb_main D order F w = (Panic (''failed to ping db: '' @ Error e), w') \<and> exited w'
      \<and> view w' = view w \<and> log w' = log w"
proof -
  note base = mysql_live.axioms(1) [OF assms(1)]
  note exit = mysql_live.live_exit [OF assms(1)] mysql.exit_frame [OF base]
  obtain w1 where o: "db_Open D (TrimSuffix (df_mysqlURI F) ''/'' @ ''/'' @ df_dbName F) w = (None, w1)" "down w1 = down w"
    using mysql_live.live_open [OF assms(1)] by (metis prod.collapse)
  let ?w = "wait_ping D 5 w1"
  obtain e w2 where p: "db_Ping D ?w = (e, w2)" "e = None \<longleftrightarrow> down ?w = 0" "down w2 = down ?w"
    using mysql_live.live_ping [OF assms(1)] by (metis prod.collapse)
  have d: "down ?w = down w - 10" using mysql_live.wait_ping_down [OF assms(1), of 5 w1] o(2) by simp
  have v: "view w2 = view w" "log w2 = log w"
    using mysql.open_frame [OF base o(1)] mysql.wait_ping_frame [OF base, of 5 w1] mysql.ping_frame [OF base p(1)]
    by simp_all
  show ?thesis
  proof (cases "down w \<le> 10")
    case True
    with p d have e: "e = None" "down w2 = 0" by auto
    obtain rows w3 where q: "db_Query D ''show tables'' [] w2 = (Inr rows, w3)" "rs_Err rows = None" "down w3 = 0"
      using mysql_live.live_query [OF assms(1) e(2)] by (metis prod.collapse)
    have v3: "view w3 = view w" using mysql.query_frame [OF base q(1)] v by simp
    let ?ex = "existing_tables (rs_Rows rows) (\<lambda>_. False)"
    let ?w4 = "create_tables D ?ex tables w3"
    have "\<forall>t \<in> set tables. ?ex t \<longrightarrow> t \<in> sc_tables (view w3)"
      using mysql.existing_iff(1) [OF base q(1)] v v3 by simp
    from mysql_live.create_tables_live [OF assms(1) tables_order_ok q(3) _ this]
    have w4: "view ?w4 = (view w)\<lparr>sc_tables := sc_tables (view w) \<union> set tables\<rparr>" "down ?w4 = 0"
      using v3 by auto
    have "list_all index_ok order"
      using assms(2) indices_ok unfolding range_order_def createIndices_dom list_all_iff by blast
    from mysql_live.create_indices_live [OF assms(1) this w4(2)] w4(1) obtain w5 where
      "create_indices D (df_dbName F) order ?w4 = (Ok (), w5)"
      "view w5 = (view ?w4)\<lparr>sc_indexes := sc_indexes (view ?w4) \<union> index_pairs order\<rparr>" by auto
    moreover have "createdb_body D order F w = create_indices D (df_dbName F) order ?w4"
      using o p(1) e(1) q(1) assms(3,4) by (simp add: createdb_body_def)
    moreover have "set tables = {''Trees'', ''TreeControl'', ''Subtree'', ''TreeHead'',
          ''LeafData'', ''SequencedLeafData'', ''Unsequenced''}" by (simp add: tables_def)
    ultimately show ?thesis using True w4(1) index_pairs_all [OF assms(2)] exit by (simp add: createdb_main_def)
  next
    case False
    with p d have "e \<noteq> None" by simp
    with False o p(1) assms(3,4) v exit show ?thesis by (auto simp: createdb_main_def createdb_body_def)
  qed
qed

theorem createdb_completes_witness:
  "\<exists>w'. createdb_main (mem_sql None) index_names (createdb_defaults\<lparr>df_mysqlURI := ''root@tcp(db:3306)/''\<rparr>)
      \<lparr>md_tables = [''Trees'', ''Other''], md_indexes = [], md_log = [], md_down = 9, md_exited = False\<rparr> = (Ok (), w')
    \<and> sc_tables (md_schema w') = {''Other'', ''Trees'', ''TreeControl'', ''Subtree'', ''TreeHead'',
          ''LeafData'', ''SequencedLeafData'', ''Unsequenced''}"
proof -
  have o: "range_order createIndices index_names"
    unfolding range_order_def createIndices_dom by (simp add: index_names_def)
  show ?thesis
    using createdb_completes [of "mem_sql None" "createdb_defaults\<lparr>df_mysqlURI := ''root@tcp(db:3306)/''\<rparr>", OF _ o, of md_schema
      md_log md_down md_exited "\<lparr>md_tables = [''Trees'', ''Other''], md_indexes = [], md_log = [], md_down = 9, md_exited = False\<rparr>"]
    by (auto simp: createdb_defaults_def memdb.mysql_live_axioms md_schema_def insert_commute)
qed

text \<open>
  C37. createdb leaves a complete schema alone: whatever the outcome of the run, a database that
  has the tables and the indexes has the same schema afterwards. If no result of a query breaks off
  then no statement is executed at all. The code does not look for such a break, so that a run may
  execute CREATE statements of the source for tables and indexes that are there; these change
  nothing.
\<close>

theorem createdb_leaves_schema_alone:
  assumes "mysql D (df_dbName F) view log" and "set tables \<subseteq> sc_tables (view w)"
    and "{(''TreeHead'', ''TreeHeadRevisionIdx''), (''SequencedLeafData'', ''SequencedLeafMerkleIdx'')}
      \<subseteq> sc_indexes (view w)"
    and "range_order createIndices order"
    and "createdb_main D order F w = (r, w')"
  shows "view w' = view w \<and> (\<exists>ss. log w' = log w @ ss
    \<and> set ss \<subseteq> ran createTables \<union> ic_createStr ` ran createIndices
    \<and> ((\<forall>q args v rs v'. db_Query D q args v = (Inr rs, v') \<longrightarrow> rs_Err rs = None) \<longrightarrow> ss = []))"
    (is "_ \<and> (\<exists>ss. _ \<and> _ \<and> (?quiet \<longrightarrow> _))")
proof -
  note base = assms(1)
  obtain w0 where run: "createdb_body D order F w = (r, w0)" and w0: "view w' = view w0" "log w' = log w0"
    using assms(5) mysql.exit_frame [OF base] by (auto simp: createdb_main_def split: prod.splits)
  obtain e1 w1 where o: "db_Open D (TrimSuffix (df_mysqlURI F) ''/'' @ ''/'' @ df_dbName F) w = (e1, w1)" by (metis prod.collapse)
  obtain e2 w2 where p: "db_Ping D (wait_ping D 5 w1) = (e2, w2)" by (metis prod.collapse)
  obtain q w3 where q: "db_Query D ''show tables'' [] w2 = (q, w3)" by (metis prod.collapse)
  note f1 = mysql.open_frame [OF base o]
  note f2 = mysql.ping_frame [OF base p, unfolded mysql.wait_ping_frame [OF base, THEN conjunct1]
      mysql.wait_ping_frame [OF base, THEN conjunct2]]
  note f3 = mysql.query_frame [OF base q]
  show ?thesis
  proof (cases "\<exists>rs. df_mysqlURI F \<noteq> [] \<and> df_dbName F \<noteq> [] \<and> e1 = None \<and> e2 = None \<and> q = Inr rs")
    case True
    then obtain rs where ok: "df_mysqlURI F \<noteq> []" "df_dbName F \<noteq> []" "e1 = None" "e2 = None" "q = Inr rs" by blast
    let ?ex = "existing_tables (rs_Rows rs) (\<lambda>_. False)"
    let ?w4 = "create_tables D ?ex tables w3"
    from mysql.create_tables_schema [OF base subset_refl, of w3 ?ex] f1 f2 f3 assms(2) obtain ss where
      t: "view ?w4 = view w" "log ?w4 = log w @ ss" "set ss \<subseteq> creates" by auto
    have whole: "?w4 = w3" if "rs_Err rs = None"
      using mysql.existing_iff(2) [OF base q [unfolded ok(5)] that] f1 f2 assms(2)
      by (intro mysql.create_tables_existing [OF base]) auto
    have rest: "create_indices D (df_dbName F) order ?w4 = (r, w0)"
      using run o p q ok by (simp add: createdb_body_def)
    have "index_pairs order \<subseteq> sc_indexes (view ?w4)" using index_pairs_all [OF assms(4)] assms(3) t(1) by simp
    note ci = mysql.create_indices_schema [OF base this rest]
    from conjunct1 [OF ci] conjunct2 [OF ci] t(1) obtain us where
      u: "view w0 = view w" "log w0 = log ?w4 @ us" "set us \<subseteq> creates"
        "?quiet \<longrightarrow> us = []" by (elim exE conjE) simp
    have "ss = []" if ?quiet
    proof -
      have "rs_Err rs = None" using that q ok(5) by blast
      with whole t(2) f1 f2 f3 show ?thesis by simp
    qed
    then have "?quiet \<longrightarrow> ss @ us = []" using u(4) by blast
    moreover have "log w' = log w @ (ss @ us)" "set (ss @ us) \<subseteq> creates" using t u w0 by simp_all
    ultimately show ?thesis
      unfolding creates_def w0(1) u(1) by (intro conjI refl exI [of _ "ss @ us"])
  next
    case no: False
    have "view w0 = view w \<and> log w0 = log w"
    proof (cases "df_mysqlURI F = [] \<or> df_dbName F = []")
      case True
      with run show ?thesis by (auto simp: createdb_body_def split: if_splits)
    next
      case False
      with no run o p q f1 f2 f3 show ?thesis
        by (cases e1; cases e2; cases q) (auto simp: createdb_body_def)
    qed
    then show ?thesis using w0 by simp
  qed
qed

theorem createdb_leaves_schema_alone_witness:
  "\<exists>r w'. createdb_main (mem_sql (Some 3)) index_names (createdb_defaults\<lparr>df_mysqlURI := ''root@tcp(db:3306)''\<rparr>)
      \<lparr>md_tables = tables, md_indexes = [(''SequencedLeafData'', ''SequencedLeafMerkleIdx''),
        (''TreeHead'', ''TreeHeadRevisionIdx'')], md_log = [''x''], md_down = 4, md_exited = False\<rparr> = (r, w')
    \<and> sc_tables (md_schema w') = set tables"
proof -
  let ?F = "createdb_defaults\<lparr>df_mysqlURI := ''root@tcp(db:3306)''\<rparr>"
  let ?w = "\<lparr>md_tables = tables, md_indexes = [(''SequencedLeafData'', ''SequencedLeafMerkleIdx''),
        (''TreeHead'', ''TreeHeadRevisionIdx'')], md_log = [''x''], md_down = 4, md_exited = False\<rparr>"
  have o: "range_order createIndices index_names"
    unfolding range_order_def createIndices_dom by (simp add: index_names_def)
  have m: "mysql (mem_sql (Some 3)) (df_dbName ?F) md_schema md_log"
    using anydb.mysql_axioms by (simp add: createdb_defaults_def)
  obtain r w' where run: "createdb_main (mem_sql (Some 3)) index_names ?F ?w = (r, w')" by (metis prod.collapse)
  have "md_schema w' = md_schema ?w"
    using createdb_leaves_schema_alone [OF m _ _ o run] by (auto simp: md_schema_def)
  with run show ?thesis by (auto simp: md_schema_def)
qed

end
