(* ===== verification/Trillian_Tree.thy ===== *)
theory Trillian_Tree
  imports Kube_Job
begin

text \<open>
  The two jobs around a Trillian tree: \<^verbatim>\<open>tools/trillian/cmd/trillian/createtree/main.go\<close>, which
  creates a tree and notes its id in a config map, and
  \<^verbatim>\<open>tools/trillian/cmd/trillian/updatetree/main.go\<close>, which changes the state or the type of a tree
  and tries again while the server is unavailable. The gRPC clients, the generated enumerations
  and the config map client are parameters. The retry loop is a partial function, and that it ends
  is a theorem.
\<close>

section \<open>Trees\<close>

record tree =
  TreeId :: int
  TreeState :: int
  TreeType :: int
  DisplayName :: string
  Description :: string
  MaxRootDuration :: int

definition zero_tree :: tree where
  "zero_tree = \<lparr>TreeId = 0, TreeState = 0, TreeType = 0, DisplayName = [], Description = [], MaxRootDuration = 0\<rparr>"

section \<open>createtree\<close>

definition treeKey :: string where "treeKey = ''treeID''"

record createtree_flags =
  cf_ns :: string
  cf_cmname :: string
  cf_adminServerAddr :: string
  cf_treeState :: string
  cf_treeType :: string
  cf_displayName :: string
  cf_description :: string
  cf_maxRootDuration :: int   \<comment> \<open>nanoseconds\<close>
  cf_force :: bool

definition createtree_defaults :: createtree_flags where
  "createtree_defaults =
     \<lparr>cf_ns = ''rekor-system'', cf_cmname = ''rekor-config'',
      cf_adminServerAddr = ''log-server.trillian-system.svc:80'', cf_treeState = ''ACTIVE'',
      cf_treeType = ''LOG'', cf_displayName = [], cf_description = [],
      cf_maxRootDuration = 3600 * 10 ^ 9, cf_force = False\<rparr>"

record 'w createtree_env =
  cv_InClusterConfig :: "unit go"
  cv_NewForConfig :: "unit go"
  cv_ConfigMapGet :: "string \<Rightarrow> string \<Rightarrow> ('w, configmap) io"
  cv_ConfigMapUpdate :: "string \<Rightarrow> string \<Rightarrow> configmap \<Rightarrow> ('w, configmap) io"
  cv_TreeState_value :: "string \<rightharpoonup> int"
  cv_TreeType_value :: "string \<rightharpoonup> int"
  cv_DialOptions :: "unit go"
  cv_NewClient :: "string \<Rightarrow> unit go"
  cv_CreateAndInitTree :: "tree \<Rightarrow> ('w, tree) io"

definition newRequest :: "'w createtree_env \<Rightarrow> createtree_flags \<Rightarrow> tree go" where
  "newRequest E F =
     (case cv_TreeState_value E (cf_treeState F) of
        None \<Rightarrow> Fail (NewErr (''unknown TreeState: '' @ cf_treeState F))
      | Some ts \<Rightarrow>
          (case cv_TreeType_value E (cf_treeType F) of
             None \<Rightarrow> Fail (NewErr (''unknown TreeType: '' @ cf_treeType F))
           | Some tt \<Rightarrow>
               Ok (zero_tree\<lparr>TreeState := ts, TreeType := tt, DisplayName := cf_displayName F,
                 Description := cf_description F, MaxRootDuration := cf_maxRootDuration F\<rparr>)))"

definition createTree :: "'w createtree_env \<Rightarrow> createtree_flags \<Rightarrow> ('w, tree) io" where
  "createTree E F =
     io_bind (io_ret (newRequest E F)) (\<lambda>req.
     io_bind (io_ret (wrapf ''failed to determine dial options'' (cv_DialOptions E))) (\<lambda>_.
     io_bind (io_ret (wrapf ''failed to dial'' (cv_NewClient E (cf_adminServerAddr F)))) (\<lambda>_.
     cv_CreateAndInitTree E req)))"

definition createtree_main :: "'w createtree_env \<Rightarrow> createtree_flags \<Rightarrow> ('w, unit) io" where
  "createtree_main E F =
     io_bind (io_ret (or_fatal (cv_InClusterConfig E))) (\<lambda>_.
     io_bind (io_ret (or_fatal (cv_NewForConfig E))) (\<lambda>_.
     io_bind (io_map_out or_fatal (cv_ConfigMapGet E (cf_ns F) (cf_cmname F))) (\<lambda>cm.
     let data = nil_map (cm_Data cm) in
     if data treeKey \<noteq> None \<and> \<not> cf_force F then io_ret (Ok ())
     else io_bind (io_map_out or_fatal (createTree E F)) (\<lambda>t.
       io_bind (io_map_out or_fatal (cv_ConfigMapUpdate E (cf_ns F) (cf_cmname F)
         (cm\<lparr>cm_Data := Some (data(treeKey \<mapsto> itoa_int (TreeId t)))\<rparr>))) (\<lambda>_.
       io_ret (Ok ()))))))"

section \<open>updatetree\<close>

record updatetree_flags =
  uf_adminServerAddr :: string
  uf_rpcDeadline :: int   \<comment> \<open>nanoseconds\<close>
  uf_treeState :: string
  uf_treeID :: int
  uf_treeType :: string
  uf_printTree :: bool

definition updatetree_defaults :: updatetree_flags where
  "updatetree_defaults =
     \<lparr>uf_adminServerAddr = ''trillian-logserver.trillian-system.svc:8090'', uf_rpcDeadline = 10 * 10 ^ 9,
      uf_treeState = ''FROZEN'', uf_treeID = 0, uf_treeType = [], uf_printTree = True\<rparr>"

text \<open>An error of a gRPC call: the code \<open>status.FromError\<close> finds, if any, and the error itself.\<close>

record rpc_error =
  re_Code :: "nat option"
  re_err :: goerr

definition codes_Unavailable :: nat where "codes_Unavailable = 14"

record 'w updatetree_env =
  uv_FindEnumByName :: "string \<Rightarrow> (string \<rightharpoonup> int) go"
  uv_DialOptions :: "unit go"
  uv_NewClient :: "string \<Rightarrow> unit go"
  uv_UpdateTree :: "tree \<Rightarrow> string list \<Rightarrow> 'w \<Rightarrow> (rpc_error + tree) \<times> 'w"
  uv_FormatReq :: "tree \<Rightarrow> string list \<Rightarrow> string"   \<comment> \<open>\<open>%+v\<close> of the request\<close>
  uv_TypeName :: "rpc_error \<Rightarrow> string"   \<comment> \<open>\<open>%T\<close> of the error\<close>
  uv_WithTimeout :: "int \<Rightarrow> 'w \<Rightarrow> 'w"   \<comment> \<open>nanoseconds\<close>
  uv_Sleep :: "nat \<Rightarrow> 'w \<Rightarrow> 'w"   \<comment> \<open>nanoseconds\<close>
  uv_Format :: "tree \<Rightarrow> string"
  uv_StateName :: "int \<Rightarrow> string"

text \<open>The tree with the fields to set, and the names of those fields.\<close>

definition ask_state :: "'w updatetree_env \<Rightarrow> updatetree_flags \<Rightarrow> tree \<times> string list \<Rightarrow> (tree \<times> string list) go" where
  "ask_state E F = (\<lambda>(t, paths).
     if length (uf_treeState F) > 0
     then go_bind (wrapf ''can't find enum value map for states'' (uv_FindEnumByName E ''trillian.TreeState'')) (\<lambda>m.
       case m (uf_treeState F) of
         None \<Rightarrow> Fail (NewErr (''invalid tree state: '' @ uf_treeState F))
       | Some n \<Rightarrow> Ok (t\<lparr>TreeState := n\<rparr>, paths @ [''tree_state'']))
     else Ok (t, paths))"

definition ask_type :: "'w updatetree_env \<Rightarrow> updatetree_flags \<Rightarrow> tree \<times> string list \<Rightarrow> (tree \<times> string list) go" where
  "ask_type E F = (\<lambda>(t, paths).
     if length (uf_treeType F) > 0
     then go_bind (wrapf ''can't find enum value map for types'' (uv_FindEnumByName E ''trillian.TreeType'')) (\<lambda>m.
       case m (uf_treeType F) of
         None \<Rightarrow> Fail (NewErr (''invalid tree type: '' @ uf_treeType F))
       | Some n \<Rightarrow> Ok (t\<lparr>TreeType := n\<rparr>, paths @ [''tree_type'']))
     else Ok (t, paths))"

text \<open>\<open>time.Sleep(100 * time.Millisecond)\<close>\<close>

definition retry_pause :: nat where "retry_pause = 100 * 10 ^ 6"

text \<open>The loop over \<open>UpdateTree\<close>. The text of the error is of the format \<^verbatim>\<open>failed to UpdateTree(%+v): %T %w\<close>.\<close>

partial_function (option) update_loop ::
  "'w updatetree_env \<Rightarrow> tree \<Rightarrow> string list \<Rightarrow> 'w \<Rightarrow> (tree go \<times> 'w) option" where
  "update_loop E t paths w =
     (case uv_UpdateTree E t paths w of
        (Inr t', w1) \<Rightarrow> Some (Ok t', w1)
      | (Inl e, w1) \<Rightarrow>
          if re_Code e = Some codes_Unavailable then update_loop E t paths (uv_Sleep E retry_pause w1)
          else Some (Fail (NewErr (''failed to UpdateTree('' @ uv_FormatReq E t paths @ ''): '' @ uv_TypeName E e
                 @ '' '' @ Error (re_err e))), w1))"

text \<open>Everything before the loop: the request and the connection.\<close>

definition update_request :: "'w updatetree_env \<Rightarrow> updatetree_flags \<Rightarrow> (tree \<times> string list) go" where
  "update_request E F =
     (if uf_adminServerAddr F = []
      then Fail (NewErr ''empty --admin_server, please provide the Admin server host:port'')
      else go_bind (ask_state E F (zero_tree\<lparr>TreeId := uf_treeID F\<rparr>, [])) (\<lambda>a.
        go_bind (ask_type E F a) (\<lambda>(t, paths).
        if length paths = 0 then Fail (NewErr ''nothing to change'')
        else go_bind (wrapf ''failed to determine dial options'' (uv_DialOptions E)) (\<lambda>_.
          go_bind (wrapf (''failed to dial '' @ uf_adminServerAddr F) (uv_NewClient E (uf_adminServerAddr F))) (\<lambda>_.
          Ok (t, paths))))))"

definition updateTree :: "'w updatetree_env \<Rightarrow> updatetree_flags \<Rightarrow> 'w \<Rightarrow> (tree go \<times> 'w) option" where
  "updateTree E F w =
     (case update_request E F of
        Ok (t, paths) \<Rightarrow> update_loop E t paths w
      | Fail e \<Rightarrow> Some (Fail e, w)
      | Panic p \<Rightarrow> Some (Panic p, w)
      | Exit c \<Rightarrow> Some (Exit c, w))"

text \<open>
  The deadline starts to run before the id is looked at. The result of a run that returns is the
  list of the lines it prints.
\<close>

definition updatetree_main :: "'w updatetree_env \<Rightarrow> updatetree_flags \<Rightarrow> 'w \<Rightarrow> (string list go \<times> 'w) option" where
  "updatetree_main E F w =
     (let w0 = uv_WithTimeout E (uf_rpcDeadline F) w in
      if uf_treeID F = 0 then Some (Ok [''No tree ID passed in, returning''], w0)
      else map_option (\<lambda>(r, w'). (go_bind (or_fatal r) (\<lambda>t.
          Ok [if uf_printTree F then uv_Format E t else uv_StateName E (TreeState t),
              ''Completed successfully'']), w'))
        (updateTree E F w0))"

section \<open>Config maps\<close>

declare io_bind.simps [simp del]

locale config_maps =
  fixes E :: "'w createtree_env" and cmview :: "'w \<Rightarrow> string \<Rightarrow> string \<Rightarrow> configmap option"
  assumes cm_get: "cv_ConfigMapGet E ns n w = (Ok cm, w') \<Longrightarrow> cmview w ns n = Some cm"
    and cm_get_frame: "cv_ConfigMapGet E ns n w = (r, w') \<Longrightarrow> cmview w' = cmview w"
    and cm_update: "cv_ConfigMapUpdate E ns n cm w = (Ok cm', w') \<Longrightarrow>
      cmview w' = (\<lambda>ns' n'. if ns' = ns \<and> n' = n then Some cm else cmview w ns' n')"
    and create_frame: "cv_CreateAndInitTree E req w = (t, w') \<Longrightarrow> cmview w' = cmview w"
    and create_id: "cv_CreateAndInitTree E req w = (Ok tr, w') \<Longrightarrow> int64_range (TreeId tr)"
begin

lemma createTree_Ok:
  assumes "createTree E F w = (Ok t, w')"
  shows "cmview w' = cmview w \<and> int64_range (TreeId t)"
  using assms unfolding createTree_def by (auto simp: io_bind_Ok_conv dest: create_frame create_id)

text \<open>A run that returned has kept the tree of the config map or noted the one it created.\<close>

lemma createtree_OkE:
  assumes "createtree_main E F w = (Ok (), w')"
  obtains cm tid where "cmview w (cf_ns F) (cf_cmname F) = Some cm" "nil_map (cm_Data cm) treeKey = Some tid"
      "\<not> cf_force F" "cmview w' = cmview w"
  | cm t w1 w2 where "cmview w (cf_ns F) (cf_cmname F) = Some cm" "nil_map (cm_Data cm) treeKey = None \<or> cf_force F"
      "createTree E F w1 = (Ok t, w2)"
      "cmview w' = (\<lambda>ns' n'. if ns' = cf_ns F \<and> n' = cf_cmname F
         then Some (cm\<lparr>cm_Data := Some ((nil_map (cm_Data cm))(treeKey \<mapsto> itoa_int (TreeId t)))\<rparr>) else cmview w ns' n')"
proof -
  from assms obtain cm w1 where get: "cv_ConfigMapGet E (cf_ns F) (cf_cmname F) w = (Ok cm, w1)"
    and rest: "(if nil_map (cm_Data cm) treeKey \<noteq> None \<and> \<not> cf_force F then io_ret (Ok ())
       else io_bind (io_map_out or_fatal (createTree E F)) (\<lambda>t.
         io_bind (io_map_out or_fatal (cv_ConfigMapUpdate E (cf_ns F) (cf_cmname F)
           (cm\<lparr>cm_Data := Some ((nil_map (cm_Data cm))(treeKey \<mapsto> itoa_int (TreeId t)))\<rparr>))) (\<lambda>_.
         io_ret (Ok ())))) w1 = (Ok (), w')"
    by (auto simp: createtree_main_def io_bind_Ok_conv Let_def)
  note cm = cm_get [OF get] and frame = cm_get_frame [OF get]
  show thesis
  proof (cases "nil_map (cm_Data cm) treeKey \<noteq> None \<and> \<not> cf_force F")
    case True
    with rest have "w' = w1" by simp
    with True cm frame that(1) show thesis by auto
  next
    case False
    with rest obtain t w2 cm' where t: "createTree E F w1 = (Ok t, w2)"
      "cv_ConfigMapUpdate E (cf_ns F) (cf_cmname F)
         (cm\<lparr>cm_Data := Some ((nil_map (cm_Data cm))(treeKey \<mapsto> itoa_int (TreeId t)))\<rparr>) w2 = (Ok cm', w')"
      by (auto simp: io_bind_Ok_conv)
    have "cmview w2 = cmview w" using createTree_Ok [OF t(1)] frame by simp
    note upd = cm_update [OF t(2), unfolded this]
    from False have "nil_map (cm_Data cm) treeKey = None \<or> cf_force F" by blast
    from that(2) [OF cm this t(1) upd] show thesis .
  qed
qed

end

section \<open>The admin server\<close>

text \<open>The fields a request names are set, the others are kept.\<close>

definition masked :: "string list \<Rightarrow> tree \<Rightarrow> tree \<Rightarrow> tree" where
  "masked paths new old =
     old\<lparr>TreeState := if ''tree_state'' \<in> set paths then TreeState new else TreeState old,
         TreeType := if ''tree_type'' \<in> set paths then TreeType new else TreeType old\<rparr>"

lemma masked_idem [simp]: "masked paths new (masked paths new old) = masked paths new old"
  by (simp add: masked_def)

lemma masked_id [simp]: "TreeId (masked paths new old) = TreeId old"
  by (simp add: masked_def)

text \<open>The number of calls a loop makes that pauses after each and stops at the first after \<open>n\<close> nanoseconds.\<close>

definition attempts :: "nat \<Rightarrow> nat" where
  "attempts n = Suc ((n + (retry_pause - 1)) div retry_pause)"

lemma attempts_step:
  assumes "0 < n" "m \<le> n - retry_pause" shows "Suc (attempts m) \<le> attempts n"
proof -
  have pos: "0 < retry_pause" by (simp add: retry_pause_def)
  show ?thesis
  proof (cases "retry_pause \<le> n")
    case True
    with assms(2) have "(m + (retry_pause - 1) + retry_pause) div retry_pause \<le> (n + (retry_pause - 1)) div retry_pause"
      by (intro div_le_mono) simp
    with pos show ?thesis unfolding attempts_def by (simp only: div_add_self2)
  next
    case False
    with assms pos show ?thesis by (simp add: attempts_def Suc_le_eq div_greater_zero_iff)
  qed
qed

text \<open>
  \<open>trees\<close> are the trees of the server, \<open>left\<close> the nanoseconds until the deadline of the context
  and \<open>calls\<close> counts the requests: a call after the deadline does not end with Unavailable, and a
  call that fails may have been carried out.
\<close>

locale tree_admin =
  fixes E :: "'w updatetree_env" and trees :: "'w \<Rightarrow> int \<rightharpoonup> tree" and left :: "'w \<Rightarrow> nat"
    and calls :: "'w \<Rightarrow> nat"
  assumes deadline: "left (uv_WithTimeout E d w) = nat d"
    and deadline_frame: "trees (uv_WithTimeout E d w) = trees w \<and> calls (uv_WithTimeout E d w) = calls w"
    and expired: "left w = 0 \<Longrightarrow> uv_UpdateTree E t paths w = (Inl e, w') \<Longrightarrow> re_Code e \<noteq> Some codes_Unavailable"
    and call_time: "uv_UpdateTree E t paths w = (r, w') \<Longrightarrow> left w' \<le> left w"
    and call_count: "uv_UpdateTree E t paths w = (r, w') \<Longrightarrow> calls w' = Suc (calls w)"
    and sleep_time: "left (uv_Sleep E n w) = left w - n"
    and sleep_trees: "trees (uv_Sleep E n w) = trees w"
    and sleep_calls: "calls (uv_Sleep E n w) = calls w"
    and update_ok: "uv_UpdateTree E t paths w = (Inr t', w') \<Longrightarrow>
      \<exists>old. trees w (TreeId t) = Some old \<and> t' = masked paths t old \<and> trees w' = (trees w)(TreeId t \<mapsto> t')"
    and update_err: "uv_UpdateTree E t paths w = (Inl e, w') \<Longrightarrow>
      trees w' = trees w \<or> (\<exists>old. trees w (TreeId t) = Some old \<and> trees w' = (trees w)(TreeId t \<mapsto> masked paths t old))"
begin

text \<open>The loop ends, after one call for each pause that fits before the deadline and one more.\<close>

lemma update_loop_ends:
  "\<exists>r w'. update_loop E t paths w = Some (r, w')
    \<and> calls w' \<le> calls w + attempts (left w)
    \<and> (trees w' = trees w \<or>
        (\<exists>old. trees w (TreeId t) = Some old \<and> trees w' = (trees w)(TreeId t \<mapsto> masked paths t old)))
    \<and> (\<forall>t'. r = Ok t' \<longrightarrow> (\<exists>old. trees w (TreeId t) = Some old \<and> t' = masked paths t old
          \<and> trees w' = (trees w)(TreeId t \<mapsto> t')))"
proof (induction "left w" arbitrary: w rule: less_induct)
  case less
  obtain x w1 where u: "uv_UpdateTree E t paths w = (x, w1)" by (metis prod.collapse)
  show ?case
  proof (cases x)
    case (Inr t')
    with u update_ok [of t paths w t' w1] call_count [OF u] show ?thesis
      by (auto simp: update_loop.simps attempts_def)
  next
    case (Inl e)
    note err = update_err [OF u [unfolded Inl]]
    show ?thesis
    proof (cases "re_Code e = Some codes_Unavailable")
      case False
      with u Inl err call_count [OF u] show ?thesis by (auto simp: update_loop.simps attempts_def)
    next
      case True
      let ?w = "uv_Sleep E retry_pause w1"
      have "left w \<noteq> 0" using expired u Inl True by blast
      moreover have "left ?w \<le> left w - retry_pause" using call_time [OF u] by (simp add: sleep_time)
      ultimately have "left ?w < left w" and count: "Suc (attempts (left ?w)) \<le> attempts (left w)"
        using attempts_step [of "left w" "left ?w"] by (auto simp: retry_pause_def)
      from less [OF this(1)] obtain r w' where loop: "update_loop E t paths ?w = Some (r, w')"
        and calls: "calls w' \<le> calls ?w + attempts (left ?w)"
        and tr: "trees w' = trees ?w \<or>
            (\<exists>old. trees ?w (TreeId t) = Some old \<and> trees w' = (trees ?w)(TreeId t \<mapsto> masked paths t old))"
        and ok: "\<forall>t'. r = Ok t' \<longrightarrow> (\<exists>old. trees ?w (TreeId t) = Some old \<and> t' = masked paths t old
            \<and> trees w' = (trees ?w)(TreeId t \<mapsto> t'))" by blast
      have "update_loop E t paths w = Some (r, w')"
        using u Inl True loop by (subst update_loop.simps) simp
      moreover have "calls w' \<le> calls w + attempts (left w)"
        using calls count call_count [OF u] by (simp add: sleep_calls)
      moreover have "trees w' = trees w \<or>
          (\<exists>old. trees w (TreeId t) = Some old \<and> trees w' = (trees w)(TreeId t \<mapsto> masked paths t old))"
        using tr err by (auto simp: sleep_trees)
      moreover have "\<exists>old. trees w (TreeId t) = Some old \<and> t' = masked paths t old
          \<and> trees w' = (trees w)(TreeId t \<mapsto> t')" if "r = Ok t'" for t'
        using ok that err by (auto simp: sleep_trees)
      ultimately show ?thesis by blast
    qed
  qed
qed

end

lemma update_request_Ok:
  assumes "update_request E F = Ok (t, paths)"
  shows "TreeId t = uf_treeID F
    \<and> (uf_treeState F \<noteq> [] \<longrightarrow> ''tree_state'' \<in> set paths
        \<and> (\<exists>m. uv_FindEnumByName E ''trillian.TreeState'' = Ok m \<and> m (uf_treeState F) = Some (TreeState t)))
    \<and> (uf_treeState F = [] \<longrightarrow> ''tree_state'' \<notin> set paths)
    \<and> (uf_treeType F \<noteq> [] \<longrightarrow> ''tree_type'' \<in> set paths
        \<and> (\<exists>m. uv_FindEnumByName E ''trillian.TreeType'' = Ok m \<and> m (uf_treeType F) = Some (TreeType t)))
    \<and> (uf_treeType F = [] \<longrightarrow> ''tree_type'' \<notin> set paths)"
  using assms
  by (auto simp: update_request_def ask_state_def ask_type_def go_bind_Ok_conv
      split: if_splits option.splits)

section \<open>A server and a cluster in memory\<close>

record admin =
  ad_trees :: "int \<rightharpoonup> tree"
  ad_left :: nat
  ad_calls :: nat
  ad_busy :: nat

definition ad_UpdateTree :: "tree \<Rightarrow> string list \<Rightarrow> admin \<Rightarrow> (rpc_error + tree) \<times> admin" where
  "ad_UpdateTree t paths a0 =
     (let a = a0\<lparr>ad_calls := Suc (ad_calls a0)\<rparr> in
      if ad_left a = 0 then (Inl \<lparr>re_Code = Some 4, re_err = NewErr ''deadline exceeded''\<rparr>, a)
      else if ad_busy a > 0
      then (Inl \<lparr>re_Code = Some codes_Unavailable, re_err = NewErr ''unavailable''\<rparr>, a\<lparr>ad_busy := ad_busy a - 1\<rparr>)
      else case ad_trees a (TreeId t) of
        None \<Rightarrow> (Inl \<lparr>re_Code = Some 5, re_err = NewErr ''not found''\<rparr>, a)
      | Some old \<Rightarrow>
          (Inr (masked paths t old), a\<lparr>ad_trees := (ad_trees a)(TreeId t \<mapsto> masked paths t old)\<rparr>))"

definition mem_admin :: "admin updatetree_env" where
  "mem_admin =
     \<lparr>uv_FindEnumByName = (\<lambda>n. Ok (if n = ''trillian.TreeState'' then [''ACTIVE'' \<mapsto> 1, ''FROZEN'' \<mapsto> 2]
        else [''LOG'' \<mapsto> 1, ''PREORDERED_LOG'' \<mapsto> 3])),
      uv_DialOptions = Ok (), uv_NewClient = (\<lambda>_. Ok ()), uv_UpdateTree = ad_UpdateTree,
      uv_FormatReq = (\<lambda>t paths. ''tree:{...}''), uv_TypeName = (\<lambda>_. ''*status.Error''),
      uv_WithTimeout = (\<lambda>d a. a\<lparr>ad_left := nat d\<rparr>), uv_Sleep = (\<lambda>n a. a\<lparr>ad_left := ad_left a - n\<rparr>), uv_Format = (\<lambda>_. ''tree''),
      uv_StateName = (\<lambda>n. if n = 2 then ''FROZEN'' else ''ACTIVE'')\<rparr>"

interpretation memadmin: tree_admin mem_admin ad_trees ad_left ad_calls
  by unfold_locales
     (auto simp: mem_admin_def ad_UpdateTree_def Let_def codes_Unavailable_def split: if_splits option.splits)

record treeworld =
  tw_cms :: "string \<Rightarrow> string \<Rightarrow> configmap option"
  tw_next :: int

definition mem_createtree :: "treeworld createtree_env" where
  "mem_createtree =
     \<lparr>cv_InClusterConfig = Ok (), cv_NewForConfig = Ok (),
      cv_ConfigMapGet = (\<lambda>ns n w. (case tw_cms w ns n of None \<Rightarrow> Fail (NewErr ''not found'') | Some cm \<Rightarrow> Ok cm, w)),
      cv_ConfigMapUpdate = (\<lambda>ns n cm w. (Ok cm,
        w\<lparr>tw_cms := (\<lambda>ns' n'. if ns' = ns \<and> n' = n then Some cm else tw_cms w ns' n')\<rparr>)),
      cv_TreeState_value = [''ACTIVE'' \<mapsto> 1, ''FROZEN'' \<mapsto> 2], cv_TreeType_value = [''LOG'' \<mapsto> 1],
      cv_DialOptions = Ok (), cv_NewClient = (\<lambda>_. Ok ()),
      cv_CreateAndInitTree = (\<lambda>req w. if int64_range (tw_next w)
        then (Ok (req\<lparr>TreeId := tw_next w\<rparr>), w\<lparr>tw_next := tw_next w + 1\<rparr>)
        else (Fail (NewErr ''no more ids''), w))\<rparr>"

interpretation memcm: config_maps mem_createtree tw_cms
  by unfold_locales (auto simp: mem_createtree_def split: if_splits option.splits)

section \<open>Properties\<close>

text \<open>
  C20. updatetree comes to an end, however often the server is unavailable, because the deadline
  of its context passes: it calls the server at most once for each tenth of a second of the flag
  rpc_deadline and once more. It changes no other tree, and when it returns without an error the tree
  has the state and the type that were asked for, with a field that was not asked for as before.
\<close>

theorem updatetree_ends:
  assumes "tree_admin E trees left calls"
  shows "\<exists>r w'. updatetree_main E F w = Some (r, w')
    \<and> calls w' \<le> calls w + (nat (uf_rpcDeadline F) + (10 ^ 8 - 1)) div 10 ^ 8 + 1
    \<and> (\<forall>i. i \<noteq> uf_treeID F \<longrightarrow> trees w' i = trees w i)
    \<and> (\<forall>out. r = Ok out \<and> uf_treeID F \<noteq> 0 \<longrightarrow>
        (\<exists>old s ty. trees w (uf_treeID F) = Some old
          \<and> trees w' (uf_treeID F) = Some (old\<lparr>TreeState := s, TreeType := ty\<rparr>)
          \<and> (if uf_treeState F = [] then s = TreeState old
             else \<exists>m. uv_FindEnumByName E ''trillian.TreeState'' = Ok m \<and> m (uf_treeState F) = Some s)
          \<and> (if uf_treeType F = [] then ty = TreeType old
             else \<exists>m. uv_FindEnumByName E ''trillian.TreeType'' = Ok m \<and> m (uf_treeType F) = Some ty)))"
proof (cases "uf_treeID F = 0 \<or> (\<forall>q. update_request E F \<noteq> Ok q)")
  case True
  then show ?thesis using tree_admin.deadline_frame [OF assms]
    by (cases "update_request E F") (auto simp: updatetree_main_def updateTree_def or_fatal_def Let_def)
next
  case False
  then obtain t paths where req: "update_request E F = Ok (t, paths)" and nz: "uf_treeID F \<noteq> 0"
    by (metis prod.collapse)
  note q = update_request_Ok [OF req]
  let ?w = "uv_WithTimeout E (uf_rpcDeadline F) w"
  note fr = tree_admin.deadline_frame [OF assms, of "uf_rpcDeadline F" w]
  obtain r w' where loop: "update_loop E t paths ?w = Some (r, w')"
    and count: "calls w' \<le> calls ?w + attempts (left ?w)"
    and others: "trees w' = trees w \<or> (\<exists>old. trees w (TreeId t) = Some old \<and>
        trees w' = (trees w)(TreeId t \<mapsto> masked paths t old))"
    and ok: "\<forall>t'. r = Ok t' \<longrightarrow> (\<exists>old. trees w (TreeId t) = Some old \<and> t' = masked paths t old
        \<and> trees w' = (trees w)(TreeId t \<mapsto> t'))"
    using tree_admin.update_loop_ends [OF assms, of t paths ?w] fr by auto
  let ?r = "go_bind (or_fatal r) (\<lambda>t. Ok [if uf_printTree F then uv_Format E t else uv_StateName E (TreeState t),
      ''Completed successfully''])"
  have main: "updatetree_main E F w = Some (?r, w')"
    using loop req nz by (simp add: updatetree_main_def updateTree_def)
  have bound: "calls w' \<le> calls w + (nat (uf_rpcDeadline F) + (10 ^ 8 - 1)) div 10 ^ 8 + 1"
    using count fr tree_admin.deadline [OF assms, of "uf_rpcDeadline F" w]
    by (simp add: attempts_def retry_pause_def)
  have frame: "\<forall>i. i \<noteq> uf_treeID F \<longrightarrow> trees w' i = trees w i"
    using others q by auto
  have "\<exists>old s ty. trees w (uf_treeID F) = Some old
          \<and> trees w' (uf_treeID F) = Some (old\<lparr>TreeState := s, TreeType := ty\<rparr>)
          \<and> (if uf_treeState F = [] then s = TreeState old
             else \<exists>m. uv_FindEnumByName E ''trillian.TreeState'' = Ok m \<and> m (uf_treeState F) = Some s)
          \<and> (if uf_treeType F = [] then ty = TreeType old
             else \<exists>m. uv_FindEnumByName E ''trillian.TreeType'' = Ok m \<and> m (uf_treeType F) = Some ty)"
    if "?r = Ok out" for out
  proof -
    from that ok obtain old where old: "trees w (TreeId t) = Some old"
      "trees w' (TreeId t) = Some (masked paths t old)" by fastforce
    then show ?thesis using q
      by (intro exI [of _ old] exI [of _ "TreeState (masked paths t old)"] exI [of _ "TreeType (masked paths t old)"])
         (simp add: masked_def)
  qed
  with main bound frame show ?thesis by blast
qed

theorem updatetree_ends_witness:
  "\<exists>r a'. updatetree_main mem_admin (updatetree_defaults\<lparr>uf_treeID := 7\<rparr>)
      \<lparr>ad_trees = [7 \<mapsto> zero_tree\<lparr>TreeId := 7, TreeState := 1, TreeType := 1\<rparr>, 8 \<mapsto> zero_tree],
       ad_left = 0, ad_calls = 0, ad_busy = 3\<rparr> = Some (r, a')
    \<and> ad_trees a' 8 = Some zero_tree \<and> ad_calls a' \<le> 101"
  using updatetree_ends [OF memadmin.tree_admin_axioms, of "updatetree_defaults\<lparr>uf_treeID := 7\<rparr>"
    "\<lparr>ad_trees = [7 \<mapsto> zero_tree\<lparr>TreeId := 7, TreeState := 1, TreeType := 1\<rparr>, 8 \<mapsto> zero_tree],
       ad_left = 0, ad_calls = 0, ad_busy = 3\<rparr>"]
  by (fastforce simp: updatetree_defaults_def)

end
