(* ===== verification/Deployment.thy ===== *)
theory Deployment
  imports CTLog_Job Key_Jobs
begin

text \<open>
  The jobs of a deployment together: createcerts, rekor-createsecret, createcertchain,
  createctconfig and createsecret work on the secrets of one cluster, are started again when they
  fail and when the deployment is applied again, and every run makes keys of its own. A step of
  the relation \<open>job_run\<close> is one run of one job with any outcome, the failed ones included; a
  history of the deployment is a sequence of steps. The theorem is the one an operator relies on:
  no history replaces the keys of the transparency log and of the time stamping authority.
\<close>

section \<open>Steps\<close>

record ('w, 'priv, 'pub, 'chain, 'cert, 'lpriv, 'lpub, 'any) deployment =
  dp_kube :: "'w kube_env"
  dp_keys :: "('priv, 'pub, 'chain) key_lib set"
  dp_ct :: "('w, 'cert, 'lpriv, 'lpub, 'any) ct_env set"
  dp_fulcio :: fulcio_flags
  dp_rekor :: rekor_flags
  dp_tsa :: string
  dp_ctlog :: ct_flags
  dp_tuf :: tuf_secret_flags

inductive job_run ::
  "('w, 'priv, 'pub, 'chain, 'cert, 'lpriv, 'lpub, 'any) deployment \<Rightarrow> 'w \<Rightarrow> 'w \<Rightarrow> bool"
  for P where
  run_fulcio: "L \<in> dp_keys P \<Longrightarrow> createcerts_main (dp_kube P) L (dp_fulcio P) w = (r, w') \<Longrightarrow> job_run P w w'"
| run_rekor: "L \<in> dp_keys P \<Longrightarrow> rekor_main (dp_kube P) L (dp_rekor P) w = (r, w') \<Longrightarrow> job_run P w w'"
| run_tsa: "L \<in> dp_keys P \<Longrightarrow> createcertchain_main (dp_kube P) L (dp_tsa P) w = (r, w') \<Longrightarrow> job_run P w w'"
| run_ctlog: "E \<in> dp_ct P \<Longrightarrow> createctconfig_main E (dp_ctlog P) w = (r, w') \<Longrightarrow> job_run P w w'"
| run_tuf: "createsecret_main (dp_kube P) (dp_tuf P) w = (r, w') \<Longrightarrow> job_run P w w'"

definition history ::
  "('w, 'priv, 'pub, 'chain, 'cert, 'lpriv, 'lpub, 'any) deployment \<Rightarrow> 'w \<Rightarrow> 'w \<Rightarrow> bool" where
  "history P = (job_run P)\<^sup>*\<^sup>*"

inductive_cases job_runE: "job_run P w w'"

text \<open>The names that no other job than the one that owns them writes: the secrets with lasting keys and the public key of the log.\<close>

definition names_apart :: "('w, 'priv, 'pub, 'chain, 'cert, 'lpriv, 'lpub, 'any) deployment \<Rightarrow> bool" where
  "names_apart P \<longleftrightarrow>
     distinct [fl_secretName (dp_ctlog P), fl_pubKeySecretName (dp_ctlog P), dp_tsa P]
   \<and> (\<forall>n \<in> {fl_secretName (dp_ctlog P), fl_pubKeySecretName (dp_ctlog P), dp_tsa P}.
        n \<notin> {ff_secretName (dp_fulcio P), ff_pubkeySecretName (dp_fulcio P), rf_signingSecretName (dp_rekor P),
             rf_secretName (dp_rekor P), tf_secretName (dp_tuf P)})"

section \<open>What a run with any outcome keeps\<close>

locale total_job = kube_job +
  assumes total: "secret_api_total (ke_secrets K) view"
begin

lemma kube_reconcile_keeps:
  "finite (dom data) \<Longrightarrow> n \<noteq> name \<Longrightarrow> stable (\<lambda>w. Q (view w n)) (kube_reconcile K name data)"
  unfolding kube_reconcile_def by (rule secret_api_total.reconcile_keeps_other [OF total order])

lemma kube_client_keeps: "stable p (kube_client h K)"
  unfolding kube_client_def by (intro stable_rules)

lemma fetch_key_keeps: "stable (\<lambda>w. Q (view w n)) (fetch_key K kind what name key)"
proof (rule stableI)
  fix w r w'
  assume q: "Q (view w n)" and run: "fetch_key K kind what name key w = (r, w')"
  obtain a w1 where get: "si_Get (ke_secrets K) name w = (a, w1)" by (metis prod.collapse)
  with run have "w' = w1"
    by (auto simp: fetch_key_def Let_def split: prod.splits option.splits if_splits)
  with secret_api.get_view [OF api get] q show "Q (view w' n)" by simp
qed

lemmas job_keeps = kube_client_keeps fetch_key_keeps stable_rules kube_reconcile_keeps finite_dom_upd finite_dom_empty

lemma createcerts_keeps:
  "n \<notin> {ff_secretName F, ff_pubkeySecretName F} \<Longrightarrow> stable (\<lambda>w. Q (view w n)) (createcerts_main K L F)"
  unfolding createcerts_main_def by (rule job_keeps | blast)+

lemma rekor_keeps:
  "n \<notin> {rf_signingSecretName F, rf_secretName F} \<Longrightarrow> stable (\<lambda>w. Q (view w n)) (rekor_main K L F)"
  unfolding rekor_main_def by (rule job_keeps | blast)+

lemma createsecret_keeps:
  "n \<noteq> tf_secretName F \<Longrightarrow> stable (\<lambda>w. Q (view w n)) (createsecret_main K F)"
  unfolding createsecret_main_def by (rule job_keeps | blast)+

lemma tsa_new_data_finite: "tsa_new_data L = Ok m \<Longrightarrow> finite (dom m)"
  by (auto simp: tsa_new_data_def go_bind_Ok_conv Let_def split: option.splits)

lemma createcertchain_keeps:
  assumes "n \<noteq> name"
  shows "stable (\<lambda>w. Q (view w n)) (createcertchain_main K L name)"
proof -
  have new: "stable (\<lambda>w. Q (view w n)) (io_bind (io_ret (tsa_new_data L)) (\<lambda>secretData.
      io_map_out or_fatal (kube_reconcile K name secretData)))"
    by (rule stable_bind_ret, rule stable_map_out, rule kube_reconcile_keeps) (use assms tsa_new_data_finite in auto)
  have "stable (\<lambda>w. Q (view w n)) (\<lambda>w. case si_Get (ke_secrets K) name w of
      ((existing, err), w1) \<Rightarrow>
        if (case err of None \<Rightarrow> False | Some e \<Rightarrow> \<not> si_IsNotFound (ke_secrets K) e) then (Exit 1, w1)
        else (case existing of
            None \<Rightarrow> (Panic ''nil pointer dereference'', w1)
          | Some s \<Rightarrow>
              if tsa_complete (nil_map (sec_Data s)) then (Ok (), w1)
              else io_bind (io_ret (tsa_new_data L)) (\<lambda>secretData.
                io_map_out or_fatal (kube_reconcile K name secretData)) w1))"
  proof (rule stableI, goal_cases)
    case (1 w r w')
    obtain ex e w1 where get: "si_Get (ke_secrets K) name w = ((ex, e), w1)" by (metis prod.collapse)
    have "Q (view w1 n)" using 1(1) secret_api.get_view [OF api get] by simp
    with 1(2) get stableD [OF new] show ?case by (auto split: if_splits option.splits)
  qed
  then show ?thesis unfolding createcertchain_main_def by (intro stable_if stable_ret stable_bind kube_client_keeps)
qed

end

section \<open>Runs of createctconfig with any outcome\<close>

text \<open>The secret of the log has the key pair and a configuration.\<close>

definition has_keys :: "bytes \<Rightarrow> bytes \<Rightarrow> gomap option \<Rightarrow> bool" where
  "has_keys priv pub v \<longleftrightarrow>
     (\<exists>d. v = Some d \<and> d PrivateKey = Some priv \<and> d PublicKey = Some pub \<and> d ConfigKey \<noteq> None)"

lemma has_keys_None [simp]: "\<not> has_keys priv pub None"
  by (simp add: has_keys_def)

lemma has_keys_reconciled:
  "has_keys priv pub (Some d) \<Longrightarrow>
     has_keys priv pub (Some (reconciled d (m(PrivateKey := None, PublicKey := None))))"
  by (auto simp: has_keys_def reconciled_def)

text \<open>A secret hands out a public key.\<close>

definition has_public :: "bytes \<Rightarrow> gomap option \<Rightarrow> bool" where
  "has_public pub v \<longleftrightarrow> (\<exists>d. v = Some d \<and> go_get d PublicKey = pub)"

lemma has_public_None [simp]: "\<not> has_public pub None"
  by (simp add: has_public_def)

locale total_ct = ct_job +
  assumes total: "secret_api_total (ev_secrets E) view"
begin

lemma reconcile_job_keeps_other:
  "finite (dom data) \<Longrightarrow> n \<noteq> name \<Longrightarrow> stable (\<lambda>w. Q (view w n)) (reconcile_job E name data)"
  unfolding reconcile_job_def by (rule secret_api_total.reconcile_keeps_other [OF total order])

lemma reconcile_job_keeps:
  assumes "finite (dom data)" and "\<And>d. Q (Some d) \<Longrightarrow> Q (Some (reconciled d data))" and "\<not> Q None"
  shows "stable (\<lambda>w. Q (view w name)) (reconcile_job E name data)"
  unfolding reconcile_job_def
  using secret_api_total.reconcile_keeps [OF total order [OF assms(1)] assms(2,3)] .

lemma cm_keeps: "stable (\<lambda>w. Q (view w n)) (ev_ConfigMapGet E c)"
  by (rule stableI) (auto dest: cm_view)

lemma root_keeps: "stable (\<lambda>w. Q (view w n)) (ev_RootCert E u)"
  by (rule stableI) (auto dest: root_view)

lemma existing_keeps: "stable (\<lambda>w. Q (view w n)) (createConfigFromExistingSecret E F name)"
proof (rule stableI)
  fix w r w'
  assume q: "Q (view w n)" and run: "createConfigFromExistingSecret E F name w = (r, w')"
  obtain a w1 where get: "si_Get (ev_secrets E) name w = (a, w1)" by (metis prod.collapse)
  with run have "w' = w1"
    by (auto simp: createConfigFromExistingSecret_def Let_def split: prod.splits option.splits if_splits)
  with secret_api.get_view [OF api get] q show "Q (view w' n)" by simp
qed

lemmas ct_keeps = cm_keeps root_keeps existing_keeps stable_rules reconcile_job_keeps_other
  finite_dom_upd finite_dom_empty

lemma read_inputs_keeps: "stable (\<lambda>w. Q (view w n)) (read_inputs E F)"
  unfolding read_inputs_def by (rule ct_keeps)+

lemma marshal_finite:
  "or_fatal (MarshalConfig (ev_lib E) rnd c) = Ok m \<Longrightarrow> finite (dom m)"
  using MarshalConfig_dom [of "ev_lib E" rnd c m] by simp

lemma marshal_finite_del:
  "or_fatal (MarshalConfig (ev_lib E) rnd c) = Ok m \<Longrightarrow> finite (dom (m(PrivateKey := None, PublicKey := None)))"
  using marshal_finite [of rnd c m] by simp

lemma create_keeps:
  "n \<notin> {fl_secretName F, fl_pubKeySecretName F} \<Longrightarrow>
     stable (\<lambda>w. Q (view w n)) (create_configuration E F treeID chain)"
  unfolding create_configuration_def create_steps_def
  by (rule ct_keeps | erule marshal_finite | blast)+

lemma update_keeps:
  "n \<notin> {fl_secretName F, fl_pubKeySecretName F} \<Longrightarrow>
     stable (\<lambda>w. Q (view w n)) (update_configuration E F d cmc chain)"
  unfolding update_configuration_def
  by (rule ct_keeps | erule marshal_finite_del | blast)+

text \<open>An update of the configuration keeps the key pair in the secret.\<close>

lemma update_keeps_keys:
  assumes "fl_secretName F \<noteq> fl_pubKeySecretName F"
  shows "stable (\<lambda>w. has_keys priv pub (view w (fl_secretName F))) (update_configuration E F d cmc chain)"
proof -
  have own: "stable (\<lambda>w. has_keys priv pub (view w (fl_secretName F)))
      (reconcile_job E (fl_secretName F) (m(PrivateKey := None, PublicKey := None)))"
    if "or_fatal (MarshalConfig (ev_lib E) rnd c) = Ok m" for rnd c m
    by (rule reconcile_job_keeps [OF marshal_finite_del [OF that]]) (simp_all add: has_keys_reconciled)
  show ?thesis
    unfolding update_configuration_def by (rule stable_rules | erule own | rule ct_keeps assms)+
qed

text \<open>It hands out the public key of the data it was given.\<close>

lemma update_keeps_public:
  assumes "fl_secretName F \<noteq> fl_pubKeySecretName F" and "d PublicKey = Some pub"
  shows "stable (\<lambda>w. has_public pub (view w (fl_pubKeySecretName F))) (update_configuration E F d cmc chain)"
proof -
  let ?inm = "if d ConfigKey \<noteq> None then d else d(ConfigKey := cmc)"
  have pub: "go_get ?inm PublicKey = pub" using assms(2) by (simp add: go_get_def)
  have other: "fl_pubKeySecretName F \<noteq> fl_secretName F" using assms(1) by simp
  have own: "stable (\<lambda>w. has_public pub (view w (fl_pubKeySecretName F)))
      (reconcile_job E (fl_pubKeySecretName F) [PublicKey \<mapsto> go_get ?inm PublicKey])"
    unfolding pub
    by (rule reconcile_job_keeps [OF finite_dom_upd [OF finite_dom_empty]])
       (auto simp: has_public_def reconciled_def go_get_def)
  show ?thesis
    unfolding update_configuration_def Let_def
    by (rule stable_rules own | rule ct_keeps other | erule marshal_finite_del)+
qed

text \<open>A whole run, by what it found in the secret.\<close>

lemma main_cases:
  assumes "createctconfig_main E F w = (r, w')"
  obtains (same) "view w' = view w"
  | (create) treeID chain w1 where "view w1 = view w" "\<And>priv pub. \<not> has_keys priv pub (view w (fl_secretName F))"
      "create_configuration E F treeID chain w1 = (r, w')"
  | (update) d chain cmc w1 where "view w1 = view w" "view w (fl_secretName F) = Some d"
      "update_configuration E F d cmc chain w1 = (r, w')"
proof -
  obtain x w0 where ri: "read_inputs E F w = (x, w0)" by (metis prod.collapse)
  have v0: "view w0 = view w"
    using stableD [OF read_inputs_keeps [of "\<lambda>v. v = view w n" n for n], OF refl ri] by (rule ext)
  obtain ex err w1 where get: "si_Get (ev_secrets E) (fl_secretName F) w0 = ((ex, err), w1)" by (metis prod.collapse)
  have v1: "view w1 = view w" using secret_api.get_view [OF api get] v0 by simp
  show thesis
  proof (cases "w' = w \<or> w' = w0 \<or> w' = w1")
    case True
    with same v0 v1 show thesis by auto
  next
    case False
    with assms ri get obtain treeID chain cmc s where x: "x = Ok (treeID, chain, cmc)" and s: "ex = Some s"
      and nf: "\<And>e. err = Some e \<Longrightarrow> si_IsNotFound (ev_secrets E) e"
      and run: "(if nil_map (sec_Data s) PrivateKey = None \<or> nil_map (sec_Data s) PublicKey = None
                    \<or> nil_map (sec_Data s) ConfigKey = None \<and> cmc = None
                 then create_configuration E F treeID chain w1
                 else update_configuration E F (nil_map (sec_Data s)) cmc chain w1) = (r, w')"
      by (auto simp: createctconfig_main_def io_bind.simps Let_def split: if_splits go.splits option.splits)
    have ok: "err = None \<longrightarrow> view w (fl_secretName F) = Some (nil_map (sec_Data s))"
      using secret_api.get_ok [OF api, of "fl_secretName F" w0 ex w1] get s v0 by auto
    have missing: "view w (fl_secretName F) = None" if "err = Some e" for e
      using secret_api.get_not_found [OF api, of "fl_secretName F" w0 ex e w1] get nf [OF that] that v0 by simp
    have keys: "\<not> has_keys priv pub (view w (fl_secretName F))"
      if "nil_map (sec_Data s) PrivateKey = None \<or> nil_map (sec_Data s) PublicKey = None
        \<or> nil_map (sec_Data s) ConfigKey = None \<and> cmc = None" for priv pub
      using ok missing that by (cases err) (auto simp: has_keys_def)
    show thesis
    proof (cases "nil_map (sec_Data s) PrivateKey = None \<or> nil_map (sec_Data s) PublicKey = None
        \<or> nil_map (sec_Data s) ConfigKey = None \<and> cmc = None")
      case True
      with run have "create_configuration E F treeID chain w1 = (r, w')" by simp
      then show thesis by (rule create [OF v1 keys [OF True]])
    next
      case False
      with run have "update_configuration E F (nil_map (sec_Data s)) cmc chain w1 = (r, w')" by simp
      moreover have "err = None"
        using False get secret_api.get_error_zero [OF api, of "fl_secretName F" w0 s] s by (cases err) auto
      ultimately show thesis using update [OF v1] ok by blast
    qed
  qed
qed

lemma main_keeps_other:
  assumes "n \<notin> {fl_secretName F, fl_pubKeySecretName F}"
  shows "stable (\<lambda>w. Q (view w n)) (createctconfig_main E F)"
proof (rule stableI)
  fix w r w'
  assume q: "Q (view w n)" and run: "createctconfig_main E F w = (r, w')"
  from run show "Q (view w' n)"
  proof (cases rule: main_cases)
    case same
    with q show ?thesis by simp
  next
    case (create treeID chain w1)
    with q stableD [OF create_keeps [OF assms, of Q], of w1] show ?thesis by simp
  next
    case (update d chain cmc w1)
    with q stableD [OF update_keeps [OF assms, of Q], of w1] show ?thesis by simp
  qed
qed

lemma main_keeps_keys:
  assumes "fl_secretName F \<noteq> fl_pubKeySecretName F"
  shows "stable (\<lambda>w. has_keys priv pub (view w (fl_secretName F))) (createctconfig_main E F)"
proof (rule stableI)
  fix w r w'
  assume q: "has_keys priv pub (view w (fl_secretName F))" and run: "createctconfig_main E F w = (r, w')"
  from run show "has_keys priv pub (view w' (fl_secretName F))"
  proof (cases rule: main_cases)
    case same
    with q show ?thesis by simp
  next
    case (create treeID chain w1)
    with q show ?thesis by simp
  next
    case (update d chain cmc w1)
    with q stableD [OF update_keeps_keys [OF assms], of priv pub w1] show ?thesis by simp
  qed
qed

text \<open>A run that makes the configuration makes a key pair and hands out its public key.\<close>

lemma create_makes_keys:
  assumes "create_steps E F treeID chain w = (Ok (), w')" and "view w (fl_secretName F) = None"
    and "fl_secretName F \<noteq> fl_pubKeySecretName F"
  obtains priv pub where "has_keys priv pub (view w' (fl_secretName F))" "has_public pub (view w' (fl_pubKeySecretName F))"
proof (rule create_steps_new [OF assms], goal_cases)
  case (1 m p)
  then obtain priv pub where "m PrivateKey = Some priv" "m PublicKey = Some pub" by auto
  with 1 show thesis by (intro that [of priv pub]) (auto simp: has_keys_def has_public_def go_get_def)
qed

text \<open>The log and the secret with its public key go on to belong together.\<close>

lemma main_keeps_public:
  assumes names: "fl_secretName F \<noteq> fl_pubKeySecretName F"
    and run: "createctconfig_main E F w = (r, w')"
    and inv: "has_keys priv pub (view w (fl_secretName F))" "has_public pub (view w (fl_pubKeySecretName F))"
  shows "has_public pub (view w' (fl_pubKeySecretName F))"
  using run
proof (cases rule: main_cases)
  case same
  with inv show ?thesis by simp
next
  case (create treeID chain w1)
  with inv show ?thesis by simp
next
  case (update d chain cmc w1)
  from inv(1) update(2) have d: "d PublicKey = Some pub" by (auto simp: has_keys_def)
  show ?thesis
    by (rule stableD [OF update_keeps_public [where d = d, OF names d] _ update(3)]) (simp add: update(1) inv(2))
qed

end

section \<open>Histories\<close>

locale deployment_api =
  fixes P :: "('w, 'priv, 'pub, 'chain, 'cert, 'lpriv, 'lpub, 'any) deployment"
    and view :: "'w \<Rightarrow> string \<Rightarrow> gomap option"
  assumes kube: "total_job (dp_kube P) view"
    and ct: "E \<in> dp_ct P \<Longrightarrow> total_ct E view"
    and apart: "names_apart P"
begin

lemma names:
  "fl_secretName (dp_ctlog P) \<noteq> dp_tsa P"
  "fl_secretName (dp_ctlog P) \<noteq> fl_pubKeySecretName (dp_ctlog P)"
  "fl_pubKeySecretName (dp_ctlog P) \<noteq> dp_tsa P"
  "n \<in> {fl_secretName (dp_ctlog P), fl_pubKeySecretName (dp_ctlog P), dp_tsa P} \<Longrightarrow>
     n \<notin> {ff_secretName (dp_fulcio P), ff_pubkeySecretName (dp_fulcio P)}"
  "n \<in> {fl_secretName (dp_ctlog P), fl_pubKeySecretName (dp_ctlog P), dp_tsa P} \<Longrightarrow>
     n \<notin> {rf_signingSecretName (dp_rekor P), rf_secretName (dp_rekor P)}"
  "n \<in> {fl_secretName (dp_ctlog P), fl_pubKeySecretName (dp_ctlog P), dp_tsa P} \<Longrightarrow> n \<noteq> tf_secretName (dp_tuf P)"
  using apart unfolding names_apart_def by auto

text \<open>A step keeps what holds of one of the three secrets when the runs of its owner keep it.\<close>

lemma run_keeps_owned:
  assumes "job_run P w w'" and q: "Q (view w n)"
    and n: "n \<in> {fl_secretName (dp_ctlog P), fl_pubKeySecretName (dp_ctlog P), dp_tsa P}"
    and tsa: "\<And>L r. L \<in> dp_keys P \<Longrightarrow> createcertchain_main (dp_kube P) L (dp_tsa P) w = (r, w') \<Longrightarrow> Q (view w' n)"
    and ctlog: "\<And>E r. E \<in> dp_ct P \<Longrightarrow> createctconfig_main E (dp_ctlog P) w = (r, w') \<Longrightarrow> Q (view w' n)"
  shows "Q (view w' n)"
  using assms(1)
proof (rule job_runE)
  fix L r
  assume "createcerts_main (dp_kube P) L (dp_fulcio P) w = (r, w')"
  with stableD [OF total_job.createcerts_keeps [OF kube names(4) [OF n], of Q], OF q] show ?thesis by blast
next
  fix L r
  assume "rekor_main (dp_kube P) L (dp_rekor P) w = (r, w')"
  with stableD [OF total_job.rekor_keeps [OF kube names(5) [OF n], of Q], OF q] show ?thesis by blast
next
  fix r
  assume "createsecret_main (dp_kube P) (dp_tuf P) w = (r, w')"
  with stableD [OF total_job.createsecret_keeps [OF kube names(6) [OF n], of Q], OF q] show ?thesis by blast
qed (rule tsa ctlog; assumption)+

lemma tsa_run_keeps:
  "n \<noteq> dp_tsa P \<Longrightarrow> Q (view w n) \<Longrightarrow> createcertchain_main (dp_kube P) L (dp_tsa P) w = (r, w') \<Longrightarrow> Q (view w' n)"
  by (rule stableD [OF total_job.createcertchain_keeps [OF kube]])

text \<open>The three invariants of a step.\<close>

lemma run_keeps_keys:
  assumes "job_run P w w'" and keys: "has_keys priv pub (view w (fl_secretName (dp_ctlog P)))"
  shows "has_keys priv pub (view w' (fl_secretName (dp_ctlog P)))"
  using assms(1) keys
proof (rule run_keeps_owned)
  fix E r
  assume "E \<in> dp_ct P" and "createctconfig_main E (dp_ctlog P) w = (r, w')"
  with stableD [OF total_ct.main_keeps_keys [OF ct names(2)] keys]
  show "has_keys priv pub (view w' (fl_secretName (dp_ctlog P)))" by blast
qed (simp, rule tsa_run_keeps [where Q = "has_keys priv pub", OF names(1) keys])

lemma run_keeps_tsa:
  assumes "job_run P w w'" and tsa: "view w (dp_tsa P) = Some tsa" "tsa_complete tsa"
  shows "view w' (dp_tsa P) = Some tsa"
  using assms(1) tsa(1)
proof (rule run_keeps_owned [where Q = "\<lambda>v. v = Some tsa"])
  fix L r
  assume "L \<in> dp_keys P" and "createcertchain_main (dp_kube P) L (dp_tsa P) w = (r, w')"
  with tsa_complete_run [OF total_job.axioms(1) [OF kube] tsa] have "view w' = view w" by blast
  with tsa(1) show "view w' (dp_tsa P) = Some tsa" by simp
next
  fix E r
  assume E: "E \<in> dp_ct P" and run: "createctconfig_main E (dp_ctlog P) w = (r, w')"
  have "dp_tsa P \<notin> {fl_secretName (dp_ctlog P), fl_pubKeySecretName (dp_ctlog P)}" using names(1,3) by auto
  from stableD [OF total_ct.main_keeps_other [OF ct [OF E] this, where Q = "\<lambda>v. v = Some tsa"] tsa(1) run]
  show "view w' (dp_tsa P) = Some tsa" .
qed simp

lemma run_keeps_public:
  assumes "job_run P w w'" and keys: "has_keys priv pub (view w (fl_secretName (dp_ctlog P)))"
    and public: "has_public pub (view w (fl_pubKeySecretName (dp_ctlog P)))"
  shows "has_public pub (view w' (fl_pubKeySecretName (dp_ctlog P)))"
  using assms(1) public
proof (rule run_keeps_owned)
  fix E r
  assume "E \<in> dp_ct P" and "createctconfig_main E (dp_ctlog P) w = (r, w')"
  with total_ct.main_keeps_public [OF ct names(2) _ keys public]
  show "has_public pub (view w' (fl_pubKeySecretName (dp_ctlog P)))" by blast
qed (simp, rule tsa_run_keeps [where Q = "has_public pub", OF names(3) public])

lemma history_keeps_keys:
  "history P w w' \<Longrightarrow> has_keys priv pub (view w (fl_secretName (dp_ctlog P))) \<Longrightarrow>
     has_keys priv pub (view w' (fl_secretName (dp_ctlog P)))"
  unfolding history_def by (induction rule: rtranclp_induct) (auto intro: run_keeps_keys)

lemma history_keeps_tsa:
  "history P w w' \<Longrightarrow> view w (dp_tsa P) = Some tsa \<Longrightarrow> tsa_complete tsa \<Longrightarrow> view w' (dp_tsa P) = Some tsa"
  unfolding history_def by (induction rule: rtranclp_induct) (auto intro: run_keeps_tsa)

lemma history_keeps_public:
  assumes "history P w w'" and "has_keys priv pub (view w (fl_secretName (dp_ctlog P)))"
    and "has_public pub (view w (fl_pubKeySecretName (dp_ctlog P)))"
  shows "has_public pub (view w' (fl_pubKeySecretName (dp_ctlog P)))"
  using assms unfolding history_def
proof (induction rule: rtranclp_induct)
  case (step y z)
  from history_keeps_keys [unfolded history_def, OF step(1) step.prems(1)] have "has_keys priv pub (view y (fl_secretName (dp_ctlog P)))" .
  with step show ?case by (blast intro: run_keeps_public)
qed

end

section \<open>The deployment in memory\<close>

interpretation reftotal: total_job ref_kube mem_view
  by (intro total_job.intro total_job_axioms.intro refkube.kube_job_axioms)
     (simp add: ref_kube_def faulty.secret_api_total_axioms)

lemma mem_total_ct:
  "ct_job E mem_view \<Longrightarrow> ev_secrets E = mem_if b \<Longrightarrow> total_ct E mem_view"
  by (intro total_ct.intro total_ct_axioms.intro) (simp_all add: faulty.secret_api_total_axioms)

interpretation reftotal_ct: total_ct ref_env mem_view
  by (rule mem_total_ct [OF refjob.ct_job_axioms]) (simp add: ref_env_def)

definition ref_deployment ::
  "(cluster, string, string, string, bytes, bytes, bytes, PEMKeyFile) deployment" where
  "ref_deployment =
     \<lparr>dp_kube = ref_kube, dp_keys = {ref_keys, ref_keys\<lparr>kl_uuid := ''v''\<rparr>}, dp_ct = {ref_env},
      dp_fulcio = fulcio_defaults, dp_rekor = rekor_defaults, dp_tsa = tsa_default_secret,
      dp_ctlog = ct_default_flags, dp_tuf = tuf_secret_defaults\<rparr>"

interpretation refdeploy: deployment_api ref_deployment mem_view
proof (rule deployment_api.intro)
  show "names_apart ref_deployment"
    by (simp add: names_apart_def ref_deployment_def fulcio_defaults_def rekor_defaults_def
        ct_default_flags_def tuf_secret_defaults_def tsa_default_secret_def)
qed (simp_all add: ref_deployment_def reftotal.total_job_axioms reftotal_ct.total_ct_axioms)

definition example_deployed :: cluster where
  "example_deployed = \<lparr>cl_store =
     [''ctlog-secrets'' \<mapsto> Some [PrivateKey \<mapsto> ''p'', PublicKey \<mapsto> ''q'', ConfigKey \<mapsto> ''c''],
      ''ctlog-public-key'' \<mapsto> Some [PublicKey \<mapsto> ''q''],
      ''tsa-cert-chain'' \<mapsto> Some [certChainKey \<mapsto> ''c'', signingKeySecretKey \<mapsto> ''s'', signingKeySecretPasswordKey \<mapsto> ''w'']],
     cl_faults = []\<rparr>"

section \<open>Properties\<close>

text \<open>
  C2. No history of the deployment replaces the lasting keys. Whatever runs of the five jobs
  follow each other, each with its own outcome and its own generated keys, and even when a write
  that reported an error was carried out: once the secret of the transparency log holds a key pair
  and a configuration, it holds the same key pair ever after, the secret that hands out its
  public key goes on to do so, and once the secret of the time stamping authority is complete, it
  stays exactly as it is.
\<close>

theorem deployment_keeps_keys:
  assumes "deployment_api P view" and "history P w w'"
    and "has_keys priv pub (view w (fl_secretName (dp_ctlog P)))"
    and "view w (dp_tsa P) = Some tsa" and "tsa_complete tsa"
  shows "has_keys priv pub (view w' (fl_secretName (dp_ctlog P))) \<and> view w' (dp_tsa P) = Some tsa
    \<and> (has_public pub (view w (fl_pubKeySecretName (dp_ctlog P))) \<longrightarrow> has_public pub (view w' (fl_pubKeySecretName (dp_ctlog P))))"
  using deployment_api.history_keeps_keys [OF assms(1-3)] deployment_api.history_keeps_tsa [OF assms(1,2,4,5)]
    deployment_api.history_keeps_public [OF assms(1-3)] by blast

theorem deployment_keeps_keys_witness:
  "\<exists>r1 w1 r2 w2. createcerts_main ref_kube ref_keys fulcio_defaults example_deployed = (r1, w1)
    \<and> createctconfig_main ref_env ct_default_flags w1 = (r2, w2)
    \<and> has_keys ''p'' ''q'' (mem_view w2 ''ctlog-secrets'') \<and> has_public ''q'' (mem_view w2 ''ctlog-public-key'')"
proof -
  let ?P = ref_deployment
  obtain r1 w1 where 1: "createcerts_main ref_kube ref_keys fulcio_defaults example_deployed = (r1, w1)"
    by (metis prod.collapse)
  obtain r2 w2 where 2: "createctconfig_main ref_env ct_default_flags w1 = (r2, w2)" by (metis prod.collapse)
  have "job_run ?P example_deployed w1"
    by (rule run_fulcio [where L = ref_keys and r = r1]) (use 1 in \<open>simp_all add: ref_deployment_def\<close>)
  moreover have "job_run ?P w1 w2"
    by (rule run_ctlog [where E = ref_env and r = r2]) (use 2 in \<open>simp_all add: ref_deployment_def\<close>)
  ultimately have h: "history ?P example_deployed w2"
    unfolding history_def by simp
  have "has_keys ''p'' ''q'' (mem_view example_deployed (fl_secretName (dp_ctlog ?P)))"
    "mem_view example_deployed (dp_tsa ?P) =
       Some [certChainKey \<mapsto> ''c'', signingKeySecretKey \<mapsto> ''s'', signingKeySecretPasswordKey \<mapsto> ''w'']"
    "tsa_complete [certChainKey \<mapsto> ''c'', signingKeySecretKey \<mapsto> ''s'', signingKeySecretPasswordKey \<mapsto> ''w'']"
    by (simp_all add: has_keys_def mem_view_def example_deployed_def ref_deployment_def ct_default_flags_def
        tsa_complete_def tsa_default_secret_def)
  moreover have "has_public ''q'' (mem_view example_deployed (fl_pubKeySecretName (dp_ctlog ?P)))"
    by (simp add: has_public_def mem_view_def example_deployed_def ref_deployment_def ct_default_flags_def go_get_def)
  ultimately show ?thesis using deployment_keeps_keys [OF refdeploy.deployment_api_axioms h] 1 2
    by (auto simp: ref_deployment_def ct_default_flags_def)
qed

end
