(* ===== verification/Base64.thy ===== *)
theory Base64
  imports Go_Prelude
begin

text \<open>
  \<^verbatim>\<open>base64.StdEncoding.EncodeToString\<close> of the standard library, with the decoder it is the inverse of.
\<close>

definition b64_alphabet :: string where
  "b64_alphabet = ''ABCDEFGHIJKLMNOPQRSTUVWXYZabcdefghijklmnopqrstuvwxyz0123456789+/''"

definition b64_digit :: "nat \<Rightarrow> char" where
  "b64_digit n = b64_alphabet ! n"

definition byte :: "char \<Rightarrow> nat" where
  "byte c = of_char c"

text \<open>Groups of three bytes give four digits; one or two bytes at the end are padded.\<close>

definition b64_group :: "nat \<Rightarrow> string" where
  "b64_group v = [b64_digit (v div 262144), b64_digit (v div 4096 mod 64), b64_digit (v div 64 mod 64),
     b64_digit (v mod 64)]"

fun base64 :: "bytes \<Rightarrow> string" where
  "base64 [] = []"
| "base64 [a] = take 2 (b64_group (65536 * byte a)) @ ''==''"
| "base64 [a, b] = take 3 (b64_group (65536 * byte a + 256 * byte b)) @ ''=''"
| "base64 (a # b # c # s) = b64_group (65536 * byte a + 256 * byte b + byte c) @ base64 s"

section \<open>Decoding\<close>

fun index_of :: "'a \<Rightarrow> 'a list \<Rightarrow> nat option" where
  "index_of x [] = None"
| "index_of x (y # ys) = (if x = y then Some 0 else map_option Suc (index_of x ys))"

definition b64_val :: "char \<Rightarrow> nat option" where
  "b64_val c = index_of c b64_alphabet"

definition b64_num :: "char \<Rightarrow> char \<Rightarrow> char \<Rightarrow> char \<Rightarrow> nat option" where
  "b64_num w x y z =
     (case (b64_val w, b64_val x, b64_val y, b64_val z) of
        (Some a, Some b, Some c, Some d) \<Rightarrow> Some (262144 * a + 4096 * b + 64 * c + d)
      | _ \<Rightarrow> None)"

definition three_bytes :: "nat \<Rightarrow> bytes" where
  "three_bytes v = [char_of (v div 65536), char_of (v div 256 mod 256), char_of (v mod 256)]"

fun unbase64 :: "string \<Rightarrow> bytes option" where
  "unbase64 [] = Some []"
| "unbase64 (w # x # y # z # s) =
     (if z = CHR ''='' \<and> y = CHR ''='' \<and> s = []
      then map_option (\<lambda>v. take 1 (three_bytes v)) (b64_num w x CHR ''A'' CHR ''A'')
      else if z = CHR ''='' \<and> s = []
      then map_option (\<lambda>v. take 2 (three_bytes v)) (b64_num w x y CHR ''A'')
      else (case (b64_num w x y z, unbase64 s) of
          (Some v, Some t) \<Rightarrow> Some (three_bytes v @ t) | _ \<Rightarrow> None))"
| "unbase64 s = None"

section \<open>The round trip\<close>

lemma alphabet_ok:
  "list_all (\<lambda>n. b64_val (b64_digit n) = Some n \<and> b64_digit n \<noteq> CHR ''='') [0..<64]"
  by code_simp

lemma b64_val_digit: "n < 64 \<Longrightarrow> b64_val (b64_digit n) = Some n"
  and b64_digit_pad: "n < 64 \<Longrightarrow> b64_digit n \<noteq> CHR ''=''"
  using alphabet_ok by (auto simp: list_all_iff)

lemma b64_val_A: "b64_val CHR ''A'' = Some 0"
  by (simp add: b64_val_def b64_alphabet_def)

lemma byte_less: "byte c < 256"
  by (simp add: byte_def)

lemma char_of_byte [simp]: "char_of (byte c) = c"
  by (simp add: byte_def)

lemma b64_num_group:
  assumes "v < 16777216"
  shows "b64_num (b64_digit (v div 262144)) (b64_digit (v div 4096 mod 64)) (b64_digit (v div 64 mod 64))
    (b64_digit (v mod 64)) = Some v"
proof -
  have "v div 262144 < 64" using assms by (simp add: less_mult_imp_div_less)
  moreover have "262144 * (v div 262144) + 4096 * (v div 4096 mod 64) + 64 * (v div 64 mod 64) + v mod 64 = v"
  proof -
    let ?b = "v div 64 div 64"
    have d: "v div 4096 = ?b" "v div 262144 = ?b div 64"
      using div_mult2_eq [of v 64 64] div_mult2_eq [of v 4096 64] by simp_all
    have "64 * (v div 64) + v mod 64 = v" "64 * ?b + v div 64 mod 64 = v div 64" "64 * (?b div 64) + ?b mod 64 = ?b"
      by (simp_all only: mult_div_mod_eq)
    then show ?thesis unfolding d by linarith
  qed
  ultimately show ?thesis by (simp add: b64_num_def b64_val_digit)
qed

lemma three_bytes_of:
  assumes "a < 256" and "b < 256" and "c < 256"
  shows "(65536 * a + 256 * b + c) div 65536 = a" "(65536 * a + 256 * b + c) div 256 mod 256 = b"
    "(65536 * a + 256 * b + c) mod 256 = (c :: nat)"
proof -
  let ?v = "65536 * a + 256 * b + c"
  show "?v div 65536 = a" by (rule div_nat_eqI) (use assms in simp_all)
  have "?v div 256 = b + 256 * a" by (rule div_nat_eqI) (use assms in simp_all)
  then show "?v div 256 mod 256 = b" using assms by simp
  have "?v = c + 256 * (256 * a + b)" by simp
  then show "?v mod 256 = c" using assms by (simp only: mod_mult_self2) simp
qed

text \<open>The digits of the padding.\<close>

lemma pad_zero: "65536 * x div 64 mod 64 = (0 :: nat)" "(65536 * x + 256 * y) mod 64 = (0 :: nat)"
proof -
  have "65536 * x div 64 = 64 * (16 * x)" by (rule div_nat_eqI) simp_all
  then show "65536 * x div 64 mod 64 = 0" by (simp only: mod_mult_self1_is_0)
  have "65536 * x + 256 * y = 64 * (1024 * x + 4 * y)" by simp
  then show "(65536 * x + 256 * y) mod 64 = 0" by (simp only: mod_mult_self1_is_0)
qed

lemma unbase64_base64: "unbase64 (base64 s) = Some s"
proof (induction s rule: base64.induct)
  case (2 a)
  let ?v = "65536 * byte a"
  have v: "?v < 16777216" using byte_less [of a] by simp
  have "?v div 64 mod 64 = 0" "?v mod 64 = 0" using pad_zero(1) [of "byte a"] pad_zero(2) [of "byte a" 0] by simp_all
  with b64_num_group [OF v] have
    "b64_num (b64_digit (?v div 262144)) (b64_digit (?v div 4096 mod 64)) CHR ''A'' CHR ''A'' = Some ?v"
    by (simp add: b64_digit_def b64_alphabet_def)
  then show ?case by (simp add: b64_group_def three_bytes_def)
next
  case (3 a b)
  let ?v = "65536 * byte a + 256 * byte b"
  have v: "?v < 16777216" using byte_less [of a] byte_less [of b] by simp
  have "?v mod 64 = 0" by (rule pad_zero)
  with b64_num_group [OF v] have
    n: "b64_num (b64_digit (?v div 262144)) (b64_digit (?v div 4096 mod 64)) (b64_digit (?v div 64 mod 64))
      CHR ''A'' = Some ?v"
    by (simp add: b64_digit_def b64_alphabet_def)
  have "b64_digit (?v div 64 mod 64) \<noteq> CHR ''=''" by (rule b64_digit_pad) simp
  with n three_bytes_of [of "byte a" "byte b" 0] byte_less [of a] byte_less [of b] show ?case
    by (simp add: b64_group_def three_bytes_def del: char_of_mod_256)
next
  case (4 a b c s)
  let ?v = "65536 * byte a + 256 * byte b + byte c"
  have v: "?v < 16777216" using byte_less [of a] byte_less [of b] byte_less [of c] by simp
  have "b64_digit (?v mod 64) \<noteq> CHR ''=''" by (rule b64_digit_pad) simp
  with b64_num_group [OF v] 4 three_bytes_of [of "byte a" "byte b" "byte c"] byte_less show ?case
    by (simp add: b64_group_def three_bytes_def del: char_of_mod_256)
qed simp

end
