(* ===== verification/Tink_Keyset.thy ===== *)
theory Tink_Keyset
  imports Go_OS Base64
begin

text \<open>
  \<^verbatim>\<open>tools/create-tink-keyset/cmd/create-tink-keyset/app/root.go\<close>: the command that makes a Tink
  keyset for signing checkpoints, encrypted with a key of a key management service, and writes
  the keyset, the public key and the key id of the log. Tink, the service, x509 and the hash of
  the note format are the record \<open>tink_lib\<close>; the files are those of the model of the file system.
  The theorems say that the three files belong to one key and that no key template leads to
  a call on a missing curve.
\<close>

section \<open>Flags and tables\<close>

record tink_flags =
  kf_key_template :: string
  kf_origin :: string
  kf_key_encryption_key_uri :: string
  kf_out :: string
  kf_public_key_out :: string
  kf_key_id_out :: string

text \<open>The flags as they are declared: all are empty.\<close>

definition tink_declared_flags :: tink_flags where
  "tink_declared_flags =
     \<lparr>kf_key_template = [], kf_origin = [], kf_key_encryption_key_uri = [], kf_out = [],
      kf_public_key_out = [], kf_key_id_out = []\<rparr>"

datatype key_template = ED25519KeyTemplate | ECDSAP256KeyTemplate | ECDSAP384SHA384KeyTemplate | ECDSAP521KeyTemplate

datatype ecdh_curve = EcdhP256 | EcdhP384 | EcdhP521

definition algToKeyTemplate :: "string \<rightharpoonup> key_template" where
  "algToKeyTemplate =
     [''ED25519'' \<mapsto> ED25519KeyTemplate, ''ECDSA_P256'' \<mapsto> ECDSAP256KeyTemplate,
      ''ECDSA_P384_SHA384'' \<mapsto> ECDSAP384SHA384KeyTemplate, ''ECDSA_P521'' \<mapsto> ECDSAP521KeyTemplate]"

definition algToCurve :: "string \<rightharpoonup> ecdh_curve" where
  "algToCurve = [''ECDSA_P256'' \<mapsto> EcdhP256, ''ECDSA_P384_SHA384'' \<mapsto> EcdhP384, ''ECDSA_P521'' \<mapsto> EcdhP521]"

section \<open>Tink\<close>

text \<open>The dynamic type of a key: the two types of the switch, and any other.\<close>

datatype tink_key = TinkEd25519 bytes | TinkEcdsa bytes | TinkOther

text \<open>\<open>crypto.PublicKey\<close> as an option: the variable is nil when no case of the switch applies.\<close>

record ('aead, 'handle, 'pub) tink_lib =
  tk_NewClient :: "string \<Rightarrow> unit go"
  tk_GetAEAD :: "string \<Rightarrow> 'aead go"
  tk_NewHandle :: "key_template \<Rightarrow> 'handle go"
  tk_Write :: "'handle \<Rightarrow> 'aead \<Rightarrow> bytes go"
  tk_Public :: "'handle \<Rightarrow> 'handle go"
  tk_Primary :: "'handle \<Rightarrow> tink_key go"
  tk_ed25519 :: "bytes \<Rightarrow> 'pub"
  tk_NewPublicKey :: "ecdh_curve \<Rightarrow> bytes \<Rightarrow> 'pub go"
  tk_MarshalPKIXPublicKey :: "'pub option \<Rightarrow> bytes go"
  tk_KeyHash :: "string \<Rightarrow> 'pub option \<Rightarrow> (nat \<times> bytes) go"

section \<open>The command\<close>

text \<open>\<open>must\<close> logs an error and exits with 1.\<close>

definition must :: "'a go \<Rightarrow> 'a go" where
  "must r = on_fail r (\<lambda>_. Exit 1)"

lemma must_or_fatal [simp]: "must = or_fatal"
  by (simp add: fun_eq_iff must_def or_fatal_def)

definition public_key :: "('aead, 'handle, 'pub) tink_lib \<Rightarrow> tink_flags \<Rightarrow> tink_key \<Rightarrow> 'pub option go" where
  "public_key L F k =
     (case k of
        TinkEd25519 b \<Rightarrow> Ok (Some (tk_ed25519 L b))
      | TinkEcdsa p \<Rightarrow>
          (case algToCurve (kf_key_template F) of
             None \<Rightarrow> Panic ''nil pointer dereference''
           | Some curve \<Rightarrow> go_bind (must (tk_NewPublicKey L curve p)) (\<lambda>pk. Ok (Some pk)))
      | TinkOther \<Rightarrow> Ok None)"

text \<open>\<open>os.Create\<close> and one \<open>Write\<close>.\<close>

definition create_file :: "string \<Rightarrow> bytes \<Rightarrow> (disk, unit) io" where
  "create_file name b =
     io_bind (io_map_out must (os_OpenTrunc name)) (\<lambda>_. io_map_out must (os_Append name b))"

text \<open>A deferred \<open>Close\<close>, whose error is dropped.\<close>

definition close_quietly :: "string \<Rightarrow> (disk, unit) io" where
  "close_quietly name = io_map_out (\<lambda>_. Ok ()) (os_Close name)"

definition flags_given :: "tink_flags \<Rightarrow> bool" where
  "flags_given F \<longleftrightarrow> kf_key_template F \<noteq> [] \<and> kf_origin F \<noteq> [] \<and> kf_key_encryption_key_uri F \<noteq> []
     \<and> HasPrefix (kf_key_encryption_key_uri F) ''gcp-kms://'' \<and> kf_out F \<noteq> [] \<and> kf_public_key_out F \<noteq> []
     \<and> kf_key_id_out F \<noteq> []"

definition create_tink_keyset :: "('aead, 'handle, 'pub) tink_lib \<Rightarrow> tink_flags \<Rightarrow> (disk, unit) io" where
  "create_tink_keyset L F =
     (if \<not> flags_given F then io_ret (Exit 1)
      else io_bind (io_ret (must (tk_NewClient L (kf_key_encryption_key_uri F)))) (\<lambda>_.
        io_bind (io_ret (must (tk_GetAEAD L (kf_key_encryption_key_uri F)))) (\<lambda>kekAEAD.
        case algToKeyTemplate (kf_key_template F) of
          None \<Rightarrow> io_ret (Exit 1)
        | Some keyTemplate \<Rightarrow>
            io_bind (io_ret (must (tk_NewHandle L keyTemplate))) (\<lambda>newHandle.
            io_bind (io_ret (must (tk_Write L newHandle kekAEAD))) (\<lambda>buf.
            io_bind (create_file (kf_out F) buf) (\<lambda>_.
            io_bind (io_ret (must (tk_Public L newHandle))) (\<lambda>publicHandle.
            io_bind (io_ret (must (tk_Primary L publicHandle))) (\<lambda>key.
            io_bind (io_ret (public_key L F key)) (\<lambda>pubKey.
            io_bind (io_ret (must (tk_MarshalPKIXPublicKey L pubKey))) (\<lambda>pkixPubKey.
            io_bind (create_file (kf_public_key_out F) (base64 pkixPubKey)) (\<lambda>_.
            io_bind (io_ret (must (tk_KeyHash L (kf_origin F) pubKey))) (\<lambda>(_, logID).
            io_bind (create_file (kf_key_id_out F) (base64 logID)) (\<lambda>_.
            io_bind (close_quietly (kf_key_id_out F)) (\<lambda>_.
            io_bind (close_quietly (kf_public_key_out F)) (\<lambda>_.
            close_quietly (kf_out F))))))))))))))))"

text \<open>
  The program: the initialiser of the package binds the flags to viper, then cobra reads the
  command line into them. It gives None for a call that only asks for the help text; on an error
  of either the program ends with 1.
\<close>

definition tink_init :: "unit go \<Rightarrow> unit go" where
  "tink_init BindPFlags = on_fail BindPFlags (\<lambda>_. Exit 1)"

definition Execute ::
  "('aead, 'handle, 'pub) tink_lib \<Rightarrow> (tink_flags \<Rightarrow> tink_flags option go) \<Rightarrow> (disk, unit) io" where
  "Execute L cobra =
     io_bind (io_ret (on_fail (cobra tink_declared_flags) (\<lambda>_. Exit 1))) (\<lambda>cmd.
     case cmd of None \<Rightarrow> io_ret (Ok ()) | Some F \<Rightarrow> create_tink_keyset L F)"

definition tink_main ::
  "('aead, 'handle, 'pub) tink_lib \<Rightarrow> unit go \<Rightarrow> (tink_flags \<Rightarrow> tink_flags option go) \<Rightarrow> (disk, unit) io" where
  "tink_main L BindPFlags cobra = io_bind (io_ret (tink_init BindPFlags)) (\<lambda>_. Execute L cobra)"

section \<open>Files\<close>

declare io_bind.simps [simp del]

lemma create_file_Ok: "create_file name b d = (Ok (), d') \<longleftrightarrow> os_WriteFile name b d = (Ok (), d')"
  by (simp add: create_file_def os_WriteFile_def io_bind_Ok_conv)

lemma close_quietly_root: "close_quietly name d = (r, d') \<Longrightarrow> dk_root d' = dk_root d"
  by (auto simp: close_quietly_def io_map_out_def os_Close_def split: prod.splits dest!: os_write_root)

text \<open>A file that was written stays when another file is written.\<close>

lemma WriteFile_Ok_other:
  assumes "os_WriteFile name b d = (Ok (), d')" and "fs_kind (dk_root d) q = Some (KFile c)"
    and "q \<noteq> resolve (dk_cwd d) name"
  shows "fs_kind (dk_root d') q = Some (KFile c)"
proof -
  let ?p = "resolve (dk_cwd d) name"
  have "\<not> prefix ?p q"
  proof
    assume "prefix ?p q"
    then obtain x xs where q: "q = ?p @ x # xs" using assms(3) by (metis append_Nil2 neq_Nil_conv prefixE)
    obtain d1 where "os_OpenTrunc name d = (Ok (), d1)"
      using assms(1) by (auto simp: os_WriteFile_def io_bind_Ok_conv)
    from os_write_Ok [OF this [unfolded os_OpenTrunc_def]]
    have s: "set_file [] (dk_root d) ?p = Inr (dk_root d1)" by simp
    from assms(2) q obtain n where n: "fs_get (dk_root d) ?p = Some n" "fs_get n (x # xs) \<noteq> None"
      by (auto simp: fs_kind_def fs_get_append split: option.splits)
    then obtain es where "n = Dir es" by (cases n) auto
    with n(1) s show False by (simp add: set_file_def)
  qed
  with WriteFile_frame [OF assms(1)] assms(2) show ?thesis by simp
qed

section \<open>Steps of a run\<close>

lemma create_tink_keyset_OkE:
  assumes "create_tink_keyset L F d = (Ok (), d')"
  obtains aead tpl h ks ph k pk pkix n i d1 d2 d3 where
    "flags_given F" "tk_GetAEAD L (kf_key_encryption_key_uri F) = Ok aead"
    "algToKeyTemplate (kf_key_template F) = Some tpl" "tk_NewHandle L tpl = Ok h" "tk_Write L h aead = Ok ks"
    "tk_Public L h = Ok ph" "tk_Primary L ph = Ok k" "public_key L F k = Ok pk"
    "tk_MarshalPKIXPublicKey L pk = Ok pkix" "tk_KeyHash L (kf_origin F) pk = Ok (n, i)"
    "os_WriteFile (kf_out F) ks d = (Ok (), d1)" "os_WriteFile (kf_public_key_out F) (base64 pkix) d1 = (Ok (), d2)"
    "os_WriteFile (kf_key_id_out F) (base64 i) d2 = (Ok (), d3)" "dk_root d' = dk_root d3"
proof -
  from assms obtain aead tpl h ks ph k pk pkix n i d1 d2 d3 d4 d5 where run:
    "flags_given F" "tk_GetAEAD L (kf_key_encryption_key_uri F) = Ok aead"
    "algToKeyTemplate (kf_key_template F) = Some tpl" "tk_NewHandle L tpl = Ok h" "tk_Write L h aead = Ok ks"
    "tk_Public L h = Ok ph" "tk_Primary L ph = Ok k" "public_key L F k = Ok pk"
    "tk_MarshalPKIXPublicKey L pk = Ok pkix" "tk_KeyHash L (kf_origin F) pk = Ok (n, i)"
    "os_WriteFile (kf_out F) ks d = (Ok (), d1)" "os_WriteFile (kf_public_key_out F) (base64 pkix) d1 = (Ok (), d2)"
    "os_WriteFile (kf_key_id_out F) (base64 i) d2 = (Ok (), d3)"
    and close: "close_quietly (kf_key_id_out F) d3 = (Ok (), d4)" "close_quietly (kf_public_key_out F) d4 = (Ok (), d5)"
      "close_quietly (kf_out F) d5 = (Ok (), d')"
    by (auto simp: create_tink_keyset_def io_bind_Ok_conv create_file_Ok split: if_splits option.splits)
  have "dk_root d' = dk_root d3" using close [THEN close_quietly_root] by simp
  with that run show thesis by blast
qed

section \<open>Calls that do not panic\<close>

definition calm :: "('w, 'a) io \<Rightarrow> bool" where
  "calm m \<longleftrightarrow> (\<forall>w p. fst (m w) \<noteq> Panic p)"

lemma calm_ret: "(\<And>p. r \<noteq> Panic p) \<Longrightarrow> calm (io_ret r)"
  by (simp add: calm_def io_ret_def)

lemma calm_bind: "calm m \<Longrightarrow> (\<And>x. calm (f x)) \<Longrightarrow> calm (io_bind m f)"
  unfolding calm_def by (auto simp: io_bind.simps split: prod.splits go.splits) (metis fst_conv)+

lemma calm_bind_ret:
  assumes "\<And>p. r \<noteq> Panic p" and "\<And>x. r = Ok x \<Longrightarrow> calm (f x)"
  shows "calm (io_bind (io_ret r) f)"
  using assms by (cases r) (auto simp: calm_def io_ret_def io_bind.simps)

lemma or_fatal_Panic: "or_fatal r = Panic p \<longleftrightarrow> r = Panic p"
  by (cases r) (auto simp: or_fatal_def)

lemma os_write_calm: "calm (os_write f s)"
  by (auto simp: calm_def os_write_def split: prod.splits option.splits sum.splits)

lemma calm_fatal: "calm m \<Longrightarrow> calm (io_map_out or_fatal m)"
  unfolding calm_def io_map_out_def by (auto simp: or_fatal_Panic split: prod.splits) (metis fst_conv)

lemma create_file_calm: "calm (create_file name b)"
  unfolding create_file_def os_OpenTrunc_def os_Append_def must_or_fatal by (intro calm_bind calm_fatal os_write_calm)

lemma close_quietly_calm: "calm (close_quietly name)"
  by (simp add: calm_def close_quietly_def io_map_out_def split: prod.split)

section \<open>What is relied on of Tink\<close>

text \<open>The public part of a handle made from a template has a key of the algorithm of the template.\<close>

locale tink =
  fixes L :: "('aead, 'handle, 'pub) tink_lib"
  assumes handle_key: "tk_NewHandle L t = Ok h \<Longrightarrow> tk_Public L h = Ok ph \<Longrightarrow> tk_Primary L ph = Ok k \<Longrightarrow>
      (case k of TinkEd25519 b \<Rightarrow> t = ED25519KeyTemplate | TinkEcdsa p \<Rightarrow> t \<noteq> ED25519KeyTemplate | TinkOther \<Rightarrow> False)"
    and calls_return: "tk_NewClient L u \<noteq> Panic m" "tk_GetAEAD L u \<noteq> Panic m" "tk_NewHandle L t \<noteq> Panic m"
      "tk_Write L h a \<noteq> Panic m" "tk_Public L h \<noteq> Panic m" "tk_Primary L h \<noteq> Panic m"
      "tk_NewPublicKey L c p \<noteq> Panic m" "tk_MarshalPKIXPublicKey L pk \<noteq> Panic m" "tk_KeyHash L s pk \<noteq> Panic m"
begin

text \<open>The two tables agree: an algorithm with a template other than Ed25519 has a curve.\<close>

lemma curve_defined:
  assumes "algToKeyTemplate a = Some t" and "t \<noteq> ED25519KeyTemplate"
  shows "algToCurve a \<noteq> None"
  using assms by (auto simp: algToKeyTemplate_def algToCurve_def split: if_splits)

lemma public_key_returns:
  assumes "algToKeyTemplate (kf_key_template F) = Some t" "tk_NewHandle L t = Ok h" "tk_Public L h = Ok ph"
    "tk_Primary L ph = Ok k"
  shows "public_key L F k \<noteq> Panic m"
proof (cases k)
  case (TinkEcdsa p)
  with handle_key [OF assms(2-4)] curve_defined [OF assms(1)] obtain c where "algToCurve (kf_key_template F) = Some c"
    by auto
  with TinkEcdsa calls_return(7) [of c p] show ?thesis
    by (cases "tk_NewPublicKey L c p") (auto simp: public_key_def or_fatal_def)
qed (auto simp: public_key_def)

lemma files_calm:
  assumes "\<And>p. public_key L F k \<noteq> Panic p"
  shows "calm (io_bind (io_ret (public_key L F k)) (\<lambda>pubKey.
            io_bind (io_ret (or_fatal (tk_MarshalPKIXPublicKey L pubKey))) (\<lambda>pkixPubKey.
            io_bind (create_file (kf_public_key_out F) (base64 pkixPubKey)) (\<lambda>_.
            io_bind (io_ret (or_fatal (tk_KeyHash L (kf_origin F) pubKey))) (\<lambda>(_, logID).
            io_bind (create_file (kf_key_id_out F) (base64 logID)) (\<lambda>_.
            io_bind (close_quietly (kf_key_id_out F)) (\<lambda>_.
            io_bind (close_quietly (kf_public_key_out F)) (\<lambda>_.
            close_quietly (kf_out F)))))))))"
  using assms
  by (intro calm_bind_ret calm_bind create_file_calm close_quietly_calm)
     (auto simp: or_fatal_Panic calls_return intro!: calm_bind create_file_calm close_quietly_calm)

lemma create_tink_keyset_calm: "calm (create_tink_keyset L F)"
proof -
  have handle: "calm (io_bind (io_ret (or_fatal (tk_Public L h))) (\<lambda>publicHandle.
      io_bind (io_ret (or_fatal (tk_Primary L publicHandle))) (\<lambda>key. f key)))"
    if "\<And>ph k. tk_Public L h = Ok ph \<Longrightarrow> tk_Primary L ph = Ok k \<Longrightarrow> calm (f k)"
    for h and f :: "tink_key \<Rightarrow> (disk, unit) io"
    using that by (intro calm_bind_ret) (auto simp: or_fatal_Panic calls_return)
  show ?thesis
    unfolding create_tink_keyset_def must_or_fatal
    by (auto simp: or_fatal_Panic calls_return intro!: calm_ret calm_bind_ret calm_bind [OF create_file_calm]
        handle files_calm split: option.splits)
      (metis public_key_returns)
qed

lemma tink_main_calm:
  assumes "\<And>p. bind \<noteq> Panic p" and "\<And>p. cobra tink_declared_flags \<noteq> Panic p"
  shows "calm (tink_main L bind cobra)"
  unfolding tink_main_def Execute_def tink_init_def
  by (intro calm_bind_ret)
     (use assms in \<open>auto simp: or_fatal_Panic or_fatal_def [symmetric] intro: calm_ret create_tink_keyset_calm split: option.split\<close>)

end

section \<open>Tink in a text form\<close>

definition ref_tink :: "(string, string, string) tink_lib" where
  "ref_tink =
     \<lparr>tk_NewClient = (\<lambda>_. Ok ()), tk_GetAEAD = Ok,
      tk_NewHandle = (\<lambda>t. Ok (if t = ED25519KeyTemplate then ''e'' else ''c'')),
      tk_Write = (\<lambda>h a. Ok (h @ a)), tk_Public = Ok,
      tk_Primary = (\<lambda>h. Ok (if h = ''e'' then TinkEd25519 h else TinkEcdsa h)),
      tk_ed25519 = (\<lambda>b. b), tk_NewPublicKey = (\<lambda>c p. Ok p),
      tk_MarshalPKIXPublicKey = (\<lambda>pk. case pk of None \<Rightarrow> Fail (NewErr ''nil'') | Some k \<Rightarrow> Ok (''pkix'' @ k)),
      tk_KeyHash = (\<lambda>s pk. case pk of None \<Rightarrow> Fail (NewErr ''nil'') | Some k \<Rightarrow> Ok (7, s @ k))\<rparr>"

text \<open>Every call of the instance returns; only the panic of a call on a missing curve remains to be excluded.\<close>

interpretation ref_tink: tink ref_tink
  by unfold_locales (auto simp: ref_tink_def split: option.splits tink_key.splits if_splits)

definition tink_example_flags :: tink_flags where
  "tink_example_flags =
     \<lparr>kf_key_template = ''ECDSA_P256'', kf_origin = ''log'', kf_key_encryption_key_uri = ''gcp-kms://k'',
      kf_out = ''/enc'', kf_public_key_out = ''/pub'', kf_key_id_out = ''/id''\<rparr>"

definition tink_example_disk :: disk where
  "tink_example_disk = \<lparr>dk_root = Dir [], dk_cwd = [], dk_faults = []\<rparr>"

definition root_disk :: "(string \<times> fnode) list \<Rightarrow> disk" where
  "root_disk es = \<lparr>dk_root = Dir es, dk_cwd = [], dk_faults = []\<rparr>"

lemma resolve_top: "normal x \<Longrightarrow> resolve [] (CHR ''/'' # x) = [x]"
  using resolve_abs_path [of "[x]" "[]"] by (simp add: abs_path_def)

lemma create_file_top:
  assumes "normal x" and "map_of es x = None"
  shows "create_file (CHR ''/'' # x) b (root_disk es) = (Ok (), root_disk (put_entry x (File b) es))"
  using assms resolve_top [OF assms(1)]
  by (simp add: create_file_def io_bind.simps io_map_out_def os_OpenTrunc_def os_Append_def os_write_def disk_fault_def
      root_disk_def set_file_def file_append_def or_fatal_def put_entry_twice)

lemma close_quietly_top: "close_quietly s (root_disk es) = (Ok (), root_disk es)"
  by (simp add: close_quietly_def io_map_out_def os_Close_def os_write_def disk_fault_def root_disk_def)

section \<open>Properties\<close>

text \<open>
  C26. The three files of a run that returned belong together: for one new handle of the template
  that was asked for, the first file is the handle encrypted with the key of the service, the
  second decodes to the public key of that handle and the third to the key id of the log with
  the origin that was given and the same public key.
\<close>

theorem tink_files_fit:
  assumes "create_tink_keyset L F d = (Ok (), d')"
    and "distinct [resolve (dk_cwd d) (kf_out F), resolve (dk_cwd d) (kf_public_key_out F),
      resolve (dk_cwd d) (kf_key_id_out F)]"
  shows "\<exists>tpl aead h ks ph k pk pkix n i pub_text id_text.
    algToKeyTemplate (kf_key_template F) = Some tpl \<and> tk_GetAEAD L (kf_key_encryption_key_uri F) = Ok aead
    \<and> tk_NewHandle L tpl = Ok h \<and> tk_Write L h aead = Ok ks
    \<and> tk_Public L h = Ok ph \<and> tk_Primary L ph = Ok k \<and> public_key L F k = Ok pk
    \<and> tk_MarshalPKIXPublicKey L pk = Ok pkix \<and> tk_KeyHash L (kf_origin F) pk = Ok (n, i)
    \<and> fs_kind (dk_root d') (resolve (dk_cwd d) (kf_out F)) = Some (KFile ks)
    \<and> fs_kind (dk_root d') (resolve (dk_cwd d) (kf_public_key_out F)) = Some (KFile pub_text)
    \<and> fs_kind (dk_root d') (resolve (dk_cwd d) (kf_key_id_out F)) = Some (KFile id_text)
    \<and> unbase64 pub_text = Some pkix \<and> unbase64 id_text = Some i"
proof (rule create_tink_keyset_OkE [OF assms(1)], goal_cases)
  case (1 aead tpl h ks ph k pk pkix n i d1 d2 d3)
  note w1 = WriteFile_Ok [OF 1(11)] and w2 = WriteFile_Ok [OF 1(12)] and w3 = WriteFile_Ok [OF 1(13)]
  have f1: "fs_kind (dk_root d2) (resolve (dk_cwd d) (kf_out F)) = Some (KFile ks)"
    by (rule WriteFile_Ok_other [OF 1(12)]) (use w1 assms(2) in auto)
  have f2: "fs_kind (dk_root d3) (resolve (dk_cwd d) (kf_out F)) = Some (KFile ks)"
    by (rule WriteFile_Ok_other [OF 1(13) f1]) (use w1 w2 assms(2) in auto)
  have f3: "fs_kind (dk_root d3) (resolve (dk_cwd d) (kf_public_key_out F)) = Some (KFile (base64 pkix))"
    by (rule WriteFile_Ok_other [OF 1(13)]) (use w1 w2 assms(2) in auto)
  have f4: "fs_kind (dk_root d3) (resolve (dk_cwd d) (kf_key_id_out F)) = Some (KFile (base64 i))"
    using w1 w2 w3 by simp
  note key = 1(3,2,4-10) and files = f2 f3 f4
  show ?case
    by (rule exI [of _ tpl], rule exI [of _ aead], rule exI [of _ h], rule exI [of _ ks], rule exI [of _ ph],
        rule exI [of _ k], rule exI [of _ pk], rule exI [of _ pkix], rule exI [of _ n], rule exI [of _ i],
        rule exI [of _ "base64 pkix"], rule exI [of _ "base64 i"])
       (simp add: key files 1(14) unbase64_base64)
qed

theorem tink_files_fit_witness:
  "\<exists>d' pub_text. create_tink_keyset ref_tink tink_example_flags tink_example_disk = (Ok (), d')
    \<and> fs_kind (dk_root d') [''pub''] = Some (KFile pub_text) \<and> unbase64 pub_text = Some ''pkixc''"
proof -
  have n: "normal ''enc''" "normal ''pub''" "normal ''id''" by (simp_all add: normal_def)
  note top = create_file_top [OF n(1), simplified] create_file_top [OF n(2), simplified] create_file_top [OF n(3), simplified]
  have "\<exists>d'. create_tink_keyset ref_tink tink_example_flags (root_disk []) = (Ok (), d')"
    by (simp add: create_tink_keyset_def ref_tink_def tink_example_flags_def flags_given_def io_bind.simps io_ret_def
        algToKeyTemplate_def public_key_def algToCurve_def or_fatal_def top close_quietly_top)
  then obtain d' where run: "create_tink_keyset ref_tink tink_example_flags tink_example_disk = (Ok (), d')"
    unfolding root_disk_def tink_example_disk_def by blast
  have p: "resolve (dk_cwd tink_example_disk) (kf_out tink_example_flags) = [''enc'']"
    "resolve (dk_cwd tink_example_disk) (kf_public_key_out tink_example_flags) = [''pub'']"
    "resolve (dk_cwd tink_example_disk) (kf_key_id_out tink_example_flags) = [''id'']"
    using n by (simp_all add: tink_example_disk_def tink_example_flags_def resolve_top)
  have "distinct [[''enc''], [''pub''], [''id'']]" by simp
  with tink_files_fit [OF run] show ?thesis
    unfolding p using run
    by (auto simp: ref_tink_def tink_example_flags_def algToKeyTemplate_def public_key_def algToCurve_def)
qed

text \<open>
  C38. Whatever the flags on its command line, the program does not panic: the two tables of
  algorithms agree, so that the curve on which \<^verbatim>\<open>NewPublicKey\<close> is called is never nil.
\<close>

theorem tink_never_panics:
  assumes "tink L" and "\<And>q. bind \<noteq> Panic q" and "\<And>q. cobra tink_declared_flags \<noteq> Panic q"
  shows "fst (tink_main L bind cobra d) \<noteq> Panic p"
  using tink.tink_main_calm [of L bind cobra] assms by (simp add: calm_def)

theorem tink_never_panics_witness:
  "fst (tink_main ref_tink (Ok ()) (\<lambda>_. Ok (Some (tink_example_flags\<lparr>kf_key_template := ''ECDSA_P521''\<rparr>)))
      tink_example_disk) \<noteq> Panic ''nil pointer dereference''"
  by (rule tink_never_panics [OF ref_tink.tink_axioms]) simp_all

end
