(* ===== verification/Sidecars.thy ===== *)
theory Sidecars
  imports Go_OS Text_Codec
begin

text \<open>
  Three small servers: the mock OIDC issuer of \<^verbatim>\<open>actions/setup-sigstore-env/fakeoidc/main.go\<close>,
  the token server of \<^verbatim>\<open>tools/getoidctoken/cmd/getoidctoken/main.go\<close> and the process wrapper of
  \<^verbatim>\<open>tools/cloudsqlproxy/cmd/cloudsqlproxy/main.go\<close>. The response writer of \<^verbatim>\<open>net/http\<close> and the
  JSON strings of \<^verbatim>\<open>encoding/json\<close> are modelled; go-jose, the listener and the started process are
  parameters. The theorem is that a client of the mock issuer that follows the discovery document
  can verify the tokens it is given.
\<close>

section \<open>The response writer\<close>

text \<open>
  The headers are those the handler set by the time of the first write of the status; later changes
  are not sent. What the server adds to them on its own is left out: the date, the length and, for
  a body without a Content-Type, the type it sniffs from the first bytes.
\<close>

record response =
  rw_header :: "(string \<times> string) list"
  rw_sent :: "(nat \<times> (string \<times> string) list) option"
  rw_body :: string

definition new_response :: response where
  "new_response = \<lparr>rw_header = [], rw_sent = None, rw_body = []\<rparr>"

definition WriteHeader :: "nat \<Rightarrow> response \<Rightarrow> response" where
  "WriteHeader code w = (case rw_sent w of None \<Rightarrow> w\<lparr>rw_sent := Some (code, rw_header w)\<rparr> | Some _ \<Rightarrow> w)"

definition Write :: "bytes \<Rightarrow> response \<Rightarrow> response" where
  "Write b w = (WriteHeader 200 w)\<lparr>rw_body := rw_body w @ b\<rparr>"

definition header_Add :: "string \<Rightarrow> string \<Rightarrow> response \<Rightarrow> response" where
  "header_Add k v w = w\<lparr>rw_header := rw_header w @ [(k, v)]\<rparr>"

definition header_Set :: "string \<Rightarrow> string \<Rightarrow> response \<Rightarrow> response" where
  "header_Set k v w = w\<lparr>rw_header := filter (\<lambda>(k', _). k' \<noteq> k) (rw_header w) @ [(k, v)]\<rparr>"

definition newline :: string where "newline = [CHR 0x0A]"

definition http_Error :: "string \<Rightarrow> nat \<Rightarrow> response \<Rightarrow> response" where
  "http_Error msg code w =
     Write (msg @ newline) (WriteHeader code
       (header_Set ''X-Content-Type-Options'' ''nosniff'' (header_Set ''Content-Type'' ''text/plain; charset=utf-8'' w)))"

record request =
  rq_Host :: string
  rq_Path :: string
  rq_Query :: "(string \<times> string) list"

text \<open>\<open>URL.Query().Get\<close>: the first value of a key, or the empty string.\<close>

definition query_Get :: "request \<Rightarrow> string \<Rightarrow> string" where
  "query_Get r k = (case map_of (rq_Query r) k of None \<Rightarrow> [] | Some v \<Rightarrow> v)"

section \<open>JSON strings\<close>

definition bslash :: char where "bslash = CHR 0x5C"
definition dquote :: char where "dquote = CHR 0x22"

text \<open>
  How a byte is written, with the escapes of HTML characters the encoder makes. Bytes of 128 and
  above are copied, as the encoder does with valid UTF-8 other than U+2028 and U+2029; a Host header
  has none.
\<close>

definition json_char :: "char \<Rightarrow> string" where
  "json_char c =
     (let n = of_char c :: nat in
      if c = dquote \<or> c = bslash then [bslash, c]
      else if n = 8 then [bslash, CHR ''b''] else if n = 12 then [bslash, CHR ''f'']
      else if n = 10 then [bslash, CHR ''n''] else if n = 13 then [bslash, CHR ''r'']
      else if n = 9 then [bslash, CHR ''t'']
      else if n < 32 \<or> c = CHR ''<'' \<or> c = CHR ''>'' \<or> c = CHR ''&''
      then [bslash] @ ''u00'' @ [hex_digit (n div 16), hex_digit (n mod 16)]
      else [c])"

definition json_string :: "string \<Rightarrow> string" where
  "json_string s = [dquote] @ concat (map json_char s) @ [dquote]"

section \<open>fakeoidc\<close>

record config =
  cfg_Issuer :: string
  cfg_JWKSURI :: string

definition marshal_config :: "config \<Rightarrow> bytes" where
  "marshal_config c =
     ''{'' @ json_string ''issuer'' @ '':'' @ json_string (cfg_Issuer c) @ '','' @ json_string ''jwks_uri''
       @ '':'' @ json_string (cfg_JWKSURI c) @ ''}''"

record claims =
  cl_Issuer :: string
  cl_IssuedAt :: int
  cl_Expiry :: int
  cl_Subject :: string
  cl_Audience :: "string list"
  cl_Email :: string
  cl_EmailVerified :: bool

text \<open>Times are in nanoseconds; \<open>jo_now\<close> are the readings of the clock in order.\<close>

record ('key, 'pub) jose =
  jo_GenerateKey :: "nat \<Rightarrow> 'key go"
  jo_NewSigner :: "'key \<Rightarrow> unit go"
  jo_Serialize :: "'key \<Rightarrow> claims \<Rightarrow> goerr + string"
  jo_Public :: "'key \<Rightarrow> 'pub"
  jo_MarshalKeySet :: "'pub list \<Rightarrow> goerr + bytes"
  jo_now :: "nat \<Rightarrow> int"

text \<open>The package initialiser: the key of the server.\<close>

definition oidc_init :: "('key, 'pub) jose \<Rightarrow> 'key go" where
  "oidc_init J =
     go_bind (or_fatal (jo_GenerateKey J 2048)) (\<lambda>pk.
     go_bind (or_fatal (jo_NewSigner J pk)) (\<lambda>_. Ok pk))"

text \<open>After an error the handlers go on and write the zero value of the result.\<close>

definition go_on :: "goerr + string \<Rightarrow> response \<Rightarrow> string \<times> response" where
  "go_on r w = (case r of Inr t \<Rightarrow> (t, w) | Inl e \<Rightarrow> ([], http_Error (Error e) 500 w))"

definition token :: "('key, 'pub) jose \<Rightarrow> 'key \<Rightarrow> request \<Rightarrow> response \<Rightarrow> response" where
  "token J signer r w =
     (let q = query_Get r ''issuer''; issuer = (if q = [] then ''http://fakeoidc:8080'' else q);
          (tok, w1) = go_on (jo_Serialize J signer
            \<lparr>cl_Issuer = issuer, cl_IssuedAt = jo_now J 0, cl_Expiry = jo_now J 1 + 30 * 60 * 10 ^ 9,
             cl_Subject = ''foo@bar.com'', cl_Audience = [''sigstore''], cl_Email = ''foo@bar.com'',
             cl_EmailVerified = True\<rparr>) w
      in Write tok w1)"

definition keys :: "('key, 'pub) jose \<Rightarrow> 'key \<Rightarrow> request \<Rightarrow> response \<Rightarrow> response" where
  "keys J jwk r w =
     (let (ks, w1) = go_on (jo_MarshalKeySet J [jo_Public J jwk]) w
      in Write ks (header_Add ''Content-Type'' ''application/json'' w1))"

definition wellKnown :: "request \<Rightarrow> response \<Rightarrow> response" where
  "wellKnown r w =
     (let issuer = ''http://'' @ rq_Host r;
          (cfg, w1) = go_on (Inr (marshal_config \<lparr>cfg_Issuer = issuer, cfg_JWKSURI = issuer @ ''/keys''\<rparr>)) w
      in Write cfg (header_Add ''Content-Type'' ''application/json'' w1))"

text \<open>The three routes; a path without a route is answered with 404 by the multiplexer.\<close>

definition fakeoidc :: "('key, 'pub) jose \<Rightarrow> 'key \<Rightarrow> request \<Rightarrow> response" where
  "fakeoidc J k r =
     (if rq_Path r = ''/token'' then token J k r new_response
      else if rq_Path r = ''/keys'' then keys J k r new_response
      else if rq_Path r = ''/.well-known/openid-configuration'' then wellKnown r new_response
      else http_Error ''404 page not found'' 404 new_response)"

text \<open>\<open>main\<close>, with the listener as an argument.\<close>

definition fakeoidc_main ::
  "('key, 'pub) jose \<Rightarrow> (string \<Rightarrow> (request \<Rightarrow> response) \<Rightarrow> ('w, unit) io) \<Rightarrow> ('w, unit) io" where
  "fakeoidc_main J ListenAndServe =
     io_bind (io_ret (oidc_init J)) (\<lambda>k. io_map_out or_fatal (ListenAndServe '':8080'' (fakeoidc J k)))"

section \<open>getoidctoken\<close>

text \<open>
  The handler for one request: \<open>werr\<close> is the error of the write of the token to the client, if
  any, with the number of bytes written before it. Reading a file gives its contents or an error, so the last case does not arise.
\<close>

definition getToken :: "string \<Rightarrow> (nat \<times> goerr) option \<Rightarrow> response \<Rightarrow> disk \<Rightarrow> response \<times> disk" where
  "getToken tokenFile werr w d =
     (case os_ReadFile tokenFile d of
        (Ok content, d') \<Rightarrow>
          (case werr of
             None \<Rightarrow> (Write content w, d')
           | Some (n, e) \<Rightarrow> (http_Error (Error e) 500 (Write (take n content) w), d'))
      | (Fail e, d') \<Rightarrow> (http_Error (Error e) 500 w, d')
      | (_, d') \<Rightarrow> (w, d'))"

type_synonym token_handler = "(nat \<times> goerr) option \<Rightarrow> response \<Rightarrow> disk \<Rightarrow> response \<times> disk"

definition tokenWriter :: "string \<Rightarrow> token_handler" where
  "tokenWriter filename = (\<lambda>werr w. getToken filename werr w)"

text \<open>
  The field of \<open>envConfig\<close>: the variable that gives it, the default and whether it is required.
\<close>

record env_field =
  ef_envconfig :: string
  ef_default :: string
  ef_required :: bool

definition envConfig_FileName :: env_field where
  "envConfig_FileName = \<lparr>ef_envconfig = ''OIDC_FILE'', ef_default = ''/var/run/sigstore/cosign/oidc-token'',
     ef_required = True\<rparr>"

text \<open>\<open>main\<close>: the reading of a field from the environment is an argument, and so is the server with its routes.\<close>

definition getoidctoken_main ::
  "(env_field \<Rightarrow> string go) \<Rightarrow> (string \<Rightarrow> (string \<times> token_handler) list \<Rightarrow> (disk, unit) io) \<Rightarrow> (disk, unit) io" where
  "getoidctoken_main Process listen =
     io_bind (io_ret (or_fatal (Process envConfig_FileName))) (\<lambda>fileName.
     io_map_out (\<lambda>r. case r of Fail e \<Rightarrow> Panic (Error e) | _ \<Rightarrow> r)
       (listen '':8080'' [(''/'', tokenWriter fileName)]))"

section \<open>cloudsqlproxy\<close>

text \<open>
  The proxy is started and waited for; an error other than that of a kill panics, and otherwise
  the wrapper waits for the context to end.
\<close>

definition proxy_main :: "('w, unit) io \<Rightarrow> ('w, unit) io \<Rightarrow> ('w, unit) io" where
  "proxy_main cmd_Run ctx_Done w =
     (case cmd_Run w of
        (Fail e, w1) \<Rightarrow> if Contains (Error e) ''signal: killed'' then ctx_Done w1 else (Panic (Error e), w1)
      | (Ok _, w1) \<Rightarrow> ctx_Done w1
      | (Panic p, w1) \<Rightarrow> (Panic p, w1)
      | (Exit c, w1) \<Rightarrow> (Exit c, w1))"

section \<open>Reading the discovery document\<close>

text \<open>A client reads a JSON string up to the quote that ends it, and the two fields in their order.\<close>

definition hex_val :: "char \<Rightarrow> nat" where
  "hex_val c = (let n = of_char c :: nat in if n < 58 then n - 48 else n - 87)"

definition unescape :: "char \<Rightarrow> char" where
  "unescape e = (if e = CHR ''b'' then CHR 0x08 else if e = CHR ''f'' then CHR 0x0C else if e = CHR ''n'' then CHR 0x0A
     else if e = CHR ''r'' then CHR 0x0D else if e = CHR ''t'' then CHR 0x09 else e)"

fun json_unquote :: "string \<Rightarrow> (string \<times> string) option" where
  "json_unquote [] = None"
| "json_unquote (c # s) =
     (if c = dquote then Some ([], s)
      else if c \<noteq> bslash then map_option (\<lambda>(t, r). (c # t, r)) (json_unquote s)
      else (case s of
          [] \<Rightarrow> None
        | e # s1 \<Rightarrow>
            if e \<noteq> CHR ''u'' then map_option (\<lambda>(t, r). (unescape e # t, r)) (json_unquote s1)
            else (case s1 of
                _ # _ # h # l # s2 \<Rightarrow>
                  map_option (\<lambda>(t, r). (char_of (16 * hex_val h + hex_val l) # t, r)) (json_unquote s2)
              | _ \<Rightarrow> None)))"

definition strip :: "string \<Rightarrow> string \<Rightarrow> string option" where
  "strip p s = (if HasPrefix s p then Some (drop (length p) s) else None)"

definition parse_config :: "bytes \<Rightarrow> (string \<times> string) option" where
  "parse_config b =
     Option.bind (strip (''{'' @ json_string ''issuer'' @ '':'' @ [dquote]) b) (\<lambda>t.
     Option.bind (json_unquote t) (\<lambda>(issuer, u).
     Option.bind (strip ('','' @ json_string ''jwks_uri'' @ '':'' @ [dquote]) u) (\<lambda>v.
     Option.bind (json_unquote v) (\<lambda>(uri, r). if r = ''}'' then Some (issuer, uri) else None))))"

text \<open>A request to the token server gets the contents the file has at that time, and an error 500 without it.\<close>

lemma tokenWriter_serves:
  assumes "dk_faults d = []"
  shows "tokenWriter f None w d =
    (case fs_get (dk_root d) (resolve (dk_cwd d) f) of
       Some (File b) \<Rightarrow> (Write b w, d)
     | Some (Dir _) \<Rightarrow> (http_Error (Error EISDIR) 500 w, d)
     | None \<Rightarrow> (http_Error (Error ENOENT) 500 w, d))"
  using assms
  by (auto simp: tokenWriter_def getToken_def os_ReadFile_def os_read_def disk_fault_def split: option.splits fnode.splits)

lemma strip_append [simp]: "strip p (p @ s) = Some s"
  by (simp add: strip_def)

lemma hex_val_digit: "n < 16 \<Longrightarrow> hex_val (hex_digit n) = n"
  by (simp add: hex_val_def hex_digit_def)

lemma control_chars:
  "char_of (8 :: nat) = CHR 0x08" "char_of (9 :: nat) = CHR 0x09" "char_of (10 :: nat) = CHR 0x0A"
  "char_of (12 :: nat) = CHR 0x0C" "char_of (13 :: nat) = CHR 0x0D"
  by code_simp+

lemma json_unquote_char:
  "json_unquote (json_char c @ s) = map_option (\<lambda>(t, r). (c # t, r)) (json_unquote s)"
proof -
  let ?n = "of_char c :: nat"
  have q: "bslash \<noteq> dquote" by (simp add: bslash_def dquote_def)
  consider "c = dquote \<or> c = bslash" | "c \<noteq> dquote" "c \<noteq> bslash" "?n \<in> {8, 9, 10, 12, 13}"
    | "c \<noteq> dquote" "c \<noteq> bslash" "?n \<notin> {8, 9, 10, 12, 13}" "?n < 32 \<or> c = CHR ''<'' \<or> c = CHR ''>'' \<or> c = CHR ''&''"
    | "c \<noteq> dquote" "c \<noteq> bslash" "?n \<notin> {8, 9, 10, 12, 13}" "\<not> (?n < 32 \<or> c = CHR ''<'' \<or> c = CHR ''>'' \<or> c = CHR ''&'')"
    by blast
  then show ?thesis
  proof cases
    case 1
    then show ?thesis using q by (auto simp: json_char_def unescape_def bslash_def dquote_def)
  next
    case 2
    then have "c = char_of (8 :: nat) \<or> c = char_of (9 :: nat) \<or> c = char_of (10 :: nat) \<or> c = char_of (12 :: nat)
      \<or> c = char_of (13 :: nat)" by (metis char_of_char empty_iff insert_iff)
    then show ?thesis unfolding control_chars by (auto simp: json_char_def unescape_def bslash_def dquote_def)
  next
    case 3
    have "?n < 16 * 16" by simp
    then have "?n div 16 < 16" by (rule less_mult_imp_div_less)
    then have "char_of (16 * hex_val (hex_digit (?n div 16)) + hex_val (hex_digit (?n mod 16))) = c"
      by (simp add: hex_val_digit)
    with 3 q show ?thesis by (simp add: json_char_def Let_def)
  next
    case 4
    then show ?thesis by (simp add: json_char_def Let_def)
  qed
qed

lemma json_unquote_string: "json_unquote (concat (map json_char s) @ dquote # r) = Some (s, r)"
  by (induction s) (simp_all add: json_unquote_char)

lemma parse_marshal_config: "parse_config (marshal_config c) = Some (cfg_Issuer c, cfg_JWKSURI c)"
proof -
  let ?e = "\<lambda>s. concat (map json_char s)"
  have "marshal_config c = (''{'' @ json_string ''issuer'' @ '':'' @ [dquote]) @ ?e (cfg_Issuer c) @ dquote #
      (('','' @ json_string ''jwks_uri'' @ '':'' @ [dquote]) @ ?e (cfg_JWKSURI c) @ dquote # ''}'')"
    by (simp add: marshal_config_def json_string_def)
  then show ?thesis
    unfolding parse_config_def
    by (simp only: strip_append json_unquote_string Option.bind.bind_lunit prod.case simp_thms if_True)
qed

section \<open>What is relied on of go-jose\<close>

locale jose_contract =
  fixes J :: "('key, 'pub) jose" and verifies :: "'pub \<Rightarrow> string \<Rightarrow> claims \<Rightarrow> bool"
    and parse_keys :: "bytes \<Rightarrow> 'pub list option"
  assumes signs: "\<exists>t. jo_Serialize J k c = Inr t \<and> verifies (jo_Public J k) t c"
    and key_set: "\<exists>b. jo_MarshalKeySet J ks = Inr b \<and> parse_keys b = Some ks"
begin

lemma keys_response:
  "\<exists>b. keys J k r new_response =
      \<lparr>rw_header = [(''Content-Type'', ''application/json'')],
       rw_sent = Some (200, [(''Content-Type'', ''application/json'')]), rw_body = b\<rparr>
    \<and> parse_keys b = Some [jo_Public J k]"
  using key_set [of "[jo_Public J k]"]
  by (auto simp: keys_def go_on_def Write_def WriteHeader_def header_Add_def new_response_def)

lemma token_response:
  "\<exists>t c. token J k r new_response = \<lparr>rw_header = [], rw_sent = Some (200, []), rw_body = t\<rparr>
    \<and> verifies (jo_Public J k) t c \<and> ''sigstore'' \<in> set (cl_Audience c) \<and> cl_EmailVerified c
    \<and> cl_Expiry c = jo_now J 1 + 30 * 60 * 10 ^ 9
    \<and> cl_Issuer c = (if query_Get r ''issuer'' = [] then ''http://fakeoidc:8080'' else query_Get r ''issuer'')"
proof -
  let ?c = "\<lparr>cl_Issuer = (if query_Get r ''issuer'' = [] then ''http://fakeoidc:8080'' else query_Get r ''issuer''),
      cl_IssuedAt = jo_now J 0, cl_Expiry = jo_now J 1 + 30 * 60 * 10 ^ 9, cl_Subject = ''foo@bar.com'',
      cl_Audience = [''sigstore''], cl_Email = ''foo@bar.com'', cl_EmailVerified = True\<rparr>"
  obtain t where "jo_Serialize J k ?c = Inr t" "verifies (jo_Public J k) t ?c" using signs by blast
  then show ?thesis
    by (intro exI [of _ t] exI [of _ ?c])
       (simp add: token_def go_on_def Write_def WriteHeader_def new_response_def Let_def)
qed

end

definition ref_jose :: "(string, string) jose" where
  "ref_jose =
     \<lparr>jo_GenerateKey = (\<lambda>n. Ok ''k''), jo_NewSigner = (\<lambda>k. Ok ()),
      jo_Serialize = (\<lambda>k c. Inr (cl_Issuer c @ ''.'' @ k)), jo_Public = (\<lambda>k. k),
      jo_MarshalKeySet = (\<lambda>ks. Inr (enc_strs ks)), jo_now = (\<lambda>n. int n)\<rparr>"

definition ref_verifies :: "string \<Rightarrow> string \<Rightarrow> claims \<Rightarrow> bool" where
  "ref_verifies pub t c \<longleftrightarrow> t = cl_Issuer c @ ''.'' @ pub"

interpretation refjose: jose_contract ref_jose ref_verifies dec_strs
  by unfold_locales (auto simp: ref_jose_def ref_verifies_def)

section \<open>Properties\<close>

text \<open>
  C39. A client of the mock issuer that follows its discovery document can verify its tokens: for
  every host under which the server is asked, the document names an issuer and the address of the
  keys at that host, the answer at that address is the key of the server, and the answer to a
  request for a token of that issuer is a token that verifies with that key, for that issuer and
  the audience sigstore.
\<close>

theorem fakeoidc_tokens_verify:
  assumes "jose_contract J verifies parse_keys"
  shows "\<exists>doc ks tok issuer uri c.
    rw_sent doc = Some (200, [(''Content-Type'', ''application/json'')]) \<and> rw_sent tok = Some (200, [])
    \<and> rw_sent ks = Some (200, [(''Content-Type'', ''application/json'')])
    \<and> fakeoidc J k \<lparr>rq_Host = h, rq_Path = ''/.well-known/openid-configuration'', rq_Query = []\<rparr> = doc
    \<and> parse_config (rw_body doc) = Some (issuer, uri) \<and> uri = ''http://'' @ h @ ''/keys''
    \<and> fakeoidc J k \<lparr>rq_Host = h, rq_Path = ''/keys'', rq_Query = []\<rparr> = ks
    \<and> parse_keys (rw_body ks) = Some [jo_Public J k]
    \<and> fakeoidc J k \<lparr>rq_Host = h, rq_Path = ''/token'', rq_Query = [(''issuer'', issuer)]\<rparr> = tok
    \<and> verifies (jo_Public J k) (rw_body tok) c \<and> cl_Issuer c = issuer \<and> ''sigstore'' \<in> set (cl_Audience c)
    \<and> cl_EmailVerified c"
proof -
  let ?doc = "fakeoidc J k \<lparr>rq_Host = h, rq_Path = ''/.well-known/openid-configuration'', rq_Query = []\<rparr>"
  let ?ks = "fakeoidc J k \<lparr>rq_Host = h, rq_Path = ''/keys'', rq_Query = []\<rparr>"
  let ?tok = "fakeoidc J k \<lparr>rq_Host = h, rq_Path = ''/token'', rq_Query = [(''issuer'', ''http://'' @ h)]\<rparr>"
  have doc: "rw_sent ?doc = Some (200, [(''Content-Type'', ''application/json'')])"
    "parse_config (rw_body ?doc) = Some (''http://'' @ h, ''http://'' @ h @ ''/keys'')"
    by (simp_all add: fakeoidc_def wellKnown_def go_on_def Write_def WriteHeader_def header_Add_def new_response_def
        parse_marshal_config Let_def)
  have ks: "rw_sent ?ks = Some (200, [(''Content-Type'', ''application/json'')])"
    "parse_keys (rw_body ?ks) = Some [jo_Public J k]"
    using jose_contract.keys_response [OF assms, of k "\<lparr>rq_Host = h, rq_Path = ''/keys'', rq_Query = []\<rparr>"]
    by (auto simp: fakeoidc_def)
  obtain c where tok: "rw_sent ?tok = Some (200, [])" "verifies (jo_Public J k) (rw_body ?tok) c"
    "cl_Issuer c = ''http://'' @ h" "''sigstore'' \<in> set (cl_Audience c)" "cl_EmailVerified c"
    using jose_contract.token_response [OF assms, of k
      "\<lparr>rq_Host = h, rq_Path = ''/token'', rq_Query = [(''issuer'', ''http://'' @ h)]\<rparr>"]
    by (auto simp: fakeoidc_def query_Get_def)
  show ?thesis
    by (rule exI [of _ ?doc], rule exI [of _ ?ks], rule exI [of _ ?tok], rule exI [of _ "''http://'' @ h"],
        rule exI [of _ "''http://'' @ h @ ''/keys''"], rule exI [of _ c]) (simp only: doc ks tok simp_thms)
qed

theorem fakeoidc_tokens_verify_witness:
  "\<exists>issuer uri. parse_config (rw_body (fakeoidc ref_jose ''k''
      \<lparr>rq_Host = ''fakeoidc:8080'', rq_Path = ''/.well-known/openid-configuration'', rq_Query = []\<rparr>)) = Some (issuer, uri)
    \<and> uri = ''http://'' @ ''fakeoidc:8080'' @ ''/keys''"
  using fakeoidc_tokens_verify [OF refjose.jose_contract_axioms, of "''k''" "''fakeoidc:8080''"] by blast

end
