(* ===== verification/Spec2Isabelle.thy ===== *)
theory Spec2Isabelle
  imports CTLog_Overlap TSA_Overlap Tuf_Server Key_Jobs Trillian_Schema Trillian_Tree Deployment Tink_Keyset Sidecars
begin

text \<open>
  \<^bold>\<open>sigstore/scaffolding\<close>

  The repository holds the Go programs that set up a Sigstore instance in a Kubernetes cluster:
  jobs that create keys, certificates, Trillian trees and database tables and leave them in
  secrets and config maps, a server that builds and serves a TUF repository from those secrets,
  a command that makes a Tink keyset, and small helper servers. The jobs talk to each other only
  through the secrets and config maps of the cluster, so most of what makes the program correct
  is that these texts fit together and survive that a job fails or runs again.

  \<^bold>\<open>Parts, theories and sources\<close>

  \<^item> \<open>Go_Prelude\<close>: the outcome of a Go call (\<open>go\<close>: a value, an error, a panic, the end of the
    process), calls with effects (\<open>io\<close>: from a world to an outcome and a world), Go maps and the
    order of a range loop over them, the functions of strings, bytes, strconv and fmt in use (the
    quoting of percent-q among them), and
    the rules by which a call keeps a predicate whatever its outcome (\<open>stable\<close>).
  \<^item> \<open>Text_Codec\<close>, \<open>Base64\<close>: texts that are read back; base64 as in the standard library.
  \<^item> \<open>Go_OS\<close>: paths (filepath.Clean, Join, Dir), a tree of files, and the calls of package os in
    use, each of which may fail according to a schedule that is part of the disk.
  \<^item> \<open>Kube_Secret\<close>: tools/secret/pkg/secret/secret.go, \<open>ReconcileSecret\<close>. The secret client is the
    record \<open>secret_if\<close>; the locales \<open>secret_api\<close>, \<open>secret_api_live\<close> and \<open>secret_api_total\<close> are what is
    relied on of the API server, the last one saying that a write which reports an error may or
    may not have been carried out.
  \<^item> \<open>Kube_Overlap\<close>: calls of \<open>ReconcileSecret\<close> that overlap, request by request, as a step relation
    \<open>overlap_step\<close>; the locale \<open>versioned_api\<close> is what the server promises of resource versions, with
    a server that keeps a log of its writes as an instance.
  \<^item> \<open>CTLog_Config\<close>: tools/ctlog/pkg/ctlog/config.go, the record \<open>Config\<close> and every function on it
    (\<open>MarshalConfig\<close>, \<open>Unmarshal\<close>, \<open>AddFulcioRoot\<close>, \<open>RemoveFulcioRoot\<close>, \<open>DecryptExistingPrivateKey\<close>).
  \<^item> \<open>CTLog_Job\<close>: tools/ctlog/cmd/ctlog/createctconfig/main.go.
  \<^item> \<open>CTLog_Overlap\<close>, \<open>TSA_Overlap\<close>: runs of createctconfig and of createcertchain that overlap in time.
  \<^item> \<open>Kube_Job\<close>: the environment of a job in the cluster, and tools/tuf/cmd/tuf/createsecret/main.go.
  \<^item> \<open>Key_Jobs\<close>: the key making jobs of Fulcio (createcerts), Rekor (rekor-createsecret) and the
    time stamping authority (createcertchain).
  \<^item> \<open>Tuf_Archive\<close>: \<open>CompressFS\<close> and \<open>Uncompress\<close> of tools/tuf/pkg/repo/repo.go.
  \<^item> \<open>Tuf_Certs\<close>, \<open>Tuf_Repo\<close>: tools/tuf/pkg/certs/certs.go and the rest of repo.go: trusted root,
    signing config and the creation of the repository.
  \<^item> \<open>Tuf_Server\<close>: tools/tuf/cmd/tuf/server/main.go.
  \<^item> \<open>Trillian_Schema\<close>: tools/trillian/cmd/trillian/createdb/main.go with the SQL texts of the source.
  \<^item> \<open>Trillian_Tree\<close>: createtree/main.go and updatetree/main.go beside it.
  \<^item> \<open>Deployment\<close>: the jobs on one cluster as a step relation \<open>job_run\<close>, a step being one run of one
    job with any outcome.
  \<^item> \<open>Tink_Keyset\<close>: tools/create-tink-keyset/cmd/create-tink-keyset/app/root.go and the main.go that calls it.
  \<^item> \<open>Sidecars\<close>: actions/setup-sigstore-env/fakeoidc/main.go, tools/getoidctoken/\<dots>/main.go and
    tools/cloudsqlproxy/\<dots>/main.go.
  \<^item> this theory: createtree and createctconfig together; createsecret and the TUF server together;
    the way of the public key of a new log from createctconfig to the clients of the TUF repository.

  \<^bold>\<open>How the code is modelled\<close>

  A Go string and a byte slice are both a list of characters. A struct is a record, the flags of a
  command are a record with its defaults, a handler or main function is one definition with the
  guards, early returns, panics and exits of the source as branches. A main function that exits
  with Fatalf gives \<open>Exit 1\<close>, one that calls Panicf gives \<open>Panic\<close> with the text of its message, and
  an error has the text that \<open>Error\<close> gives in Go. Log lines, contexts and version information are left out. Packages outside the
  repository are parameters: records of functions (\<open>ct_lib\<close>, \<open>key_lib\<close>, \<open>repo_lib\<close>, \<open>sql_db\<close>,
  \<open>tink_lib\<close>, \<open>jose\<close> and others), with a locale for what is relied on and an interpretation of each
  locale on a concrete instance, mostly one in memory that can also fail.

  A range loop over a map takes the order as an argument that \<open>range_order\<close> constrains, so a
  theorem holds for every order the runtime may choose. Randomness and the clock are fields of
  the library records; a property that has to hold across runs quantifies over them.

  \<^bold>\<open>What the lemmas show\<close>

  \<^item> Secrets: \<open>ReconcileSecret\<close> establishes the data and nothing else, is idempotent, does not depend
    on the order of the map, and returns when the server answers; the panic on a secret without
    data is a theorem too. Calls that overlap act as calls made one after the other, because the
    object that is written carries the version that was read, so no update is lost.
  \<^item> CT log configuration: unmarshalling inverts marshalling, the mounted root files are the roots,
    adding and removing roots refines a set; a run of the job keeps the key pair, adds the root,
    and never looks at the key generators when a configuration is there.
  \<^item> TUF: unpacking stays inside the destination for every archive and failure; unpacking inverts
    packing; a time stamping chain survives being split, sorted and collected up to the stated
    length, each certificate in its place, and so does the chain of Fulcio; the trusted root is made
    with every log of a target and no other, and does not depend on the order of a map; a key without
    PEM makes the construction panic; the repository publishes the files, the trusted root and the
    signing config with the stated contents, and the secret holds what is served. The job secrets, copied
    by createsecret, mounted and read by the server, are what the repository publishes.
  \<^item> Keys: what the jobs store opens with the password stored beside it and belongs to the public
    key handed out; the key of the time stamping authority is made once.
  \<^item> Trillian: the order of the tables respects the foreign keys in the SQL texts, a run completes
    the schema, leaves a complete one as it is, even when results of queries break off, and signals its end to the other containers of the pod,
    also when it panics; the retry loop of updatetree ends, with a bound on its calls; the tree id written by createtree is read back by createctconfig.
  \<^item> Deployment: no sequence of runs of the five jobs replaces the lasting keys; the TUF repository
    publishes the public key of the pair that the log has.
  \<^item> Overlapping runs: the secret of the time stamping authority never mixes the entries of two runs.
    createctconfig writes two secrets after a read of its own, and two runs of it whose requests are
    shuffled can leave the pair of one and the public key of the other; this is a theorem, too.
  \<^item> Tink and OIDC: the three files of a keyset fit together and no command line makes the program panic; tokens of the
    mock issuer verify with the key its discovery document leads to.

  \<^bold>\<open>Bounds and loops\<close>

  All loops of the sources are structural recursions except the retry loop of updatetree, which
  is a partial function with values in option; that it returns is proved from the deadline of its
  context, which is the flag rpc_deadline: after each call it sleeps for a tenth of a second, so with
  the default of ten seconds it makes at most 101 calls. The ping loop of createdb runs five times
  at most, with two seconds between the calls, which is the bound of ten seconds in its theorem.
  Tree ids are kept in the range of int64 where they are parsed.

  \<^bold>\<open>Not modelled\<close>

  The YAML manifests, shell scripts, actions and charts around the jobs; flag parsing and
  environment reading, whose results are arguments; the HTTP listeners, whose handlers are
  modelled; x509, PEM, gRPC, go-tuf, Tink and go-jose, which are parameters; the placeholder
  files and the build helper, which hold no code. A step of the deployment is a whole run; overlap
  is modelled for \<open>ReconcileSecret\<close>, createctconfig and createcertchain, request by request. The
  jobs of a deployment share one set of secrets; the copying of secrets from one namespace to another
  is done by scripts.
\<close>

declare io_bind.simps [simp del]

section \<open>From createtree to createctconfig\<close>

text \<open>
  C21. createctconfig works with the tree createtree made. After a run of createtree that had to
  create a tree the config map holds the decimal text of the id of a tree that was just created,
  createctconfig parses that text back to the same id, and if it reads its inputs without an error
  it goes on with that id. A run that found a tree id and was not forced changed no config map.
\<close>

theorem createtree_feeds_ctconfig:
  assumes "config_maps T cmview"
    and "\<forall>n v. ev_ConfigMapGet E n v = cv_ConfigMapGet T (cf_ns F) n v"
    and "fl_cmname G = cf_cmname F"
    and "createtree_main T F w = (Ok (), w')"
    and "read_inputs E G w' = (r, w'')"
  shows "\<exists>cm cm'. cmview w (cf_ns F) (cf_cmname F) = Some cm \<and> cmview w' (cf_ns F) (cf_cmname F) = Some cm'
    \<and> (if nil_map (cm_Data cm) treeKey \<noteq> None \<and> \<not> cf_force F then cmview w' = cmview w
       else \<exists>t w1 w2 s. createTree T F w1 = (Ok t, w2) \<and> nil_map (cm_Data cm') treeKey = Some s
         \<and> ParseInt s = Ok (TreeId t)
         \<and> (\<forall>i chain cmc. r = Ok (i, chain, cmc) \<longrightarrow> i = TreeId t))"
proof (rule config_maps.createtree_OkE [OF assms(1,4)], goal_cases)
  case (1 cm tid)
  then show ?case by auto
next
  case (2 cm t w1 w2)
  let ?s = "itoa_int (TreeId t)"
  let ?cm = "cm\<lparr>cm_Data := Some ((nil_map (cm_Data cm))(treeKey \<mapsto> ?s))\<rparr>"
  have cm': "cmview w' (cf_ns F) (cf_cmname F) = Some ?cm" using 2(4) by simp
  have "int64_range (TreeId t)" using config_maps.createTree_Ok [OF assms(1) 2(3)] by simp
  then have parse: "ParseInt ?s = Ok (TreeId t)" by (rule ParseInt_itoa_int)
  have "i = TreeId t" if "r = Ok (i, chain, cmc)" for i chain cmc
    using assms(2,3,5) that config_maps.cm_get [OF assms(1), of "cf_ns F" "cf_cmname F" w'] cm' parse
    by (auto simp: read_inputs_def io_bind_Ok_conv treeKey_def split: option.splits)
  with 2 cm' parse show ?case by auto
qed

text \<open>The two jobs in one cluster, with a config map that has no data yet.\<close>

definition feed_env :: "(treeworld, bytes, bytes, bytes, PEMKeyFile) ct_env" where
  "feed_env =
     \<lparr>ev_NAMESPACE = ''rekor-system'', ev_InClusterConfig = Ok (), ev_NewForConfig = Ok (),
      ev_ConfigMapGet = cv_ConfigMapGet mem_createtree ''rekor-system'',
      ev_secrets = \<lparr>si_Get = (\<lambda>n w. ((None, Some (NewErr ''not found'')), w)),
        si_Create = (\<lambda>s w. (Some (NewErr ''refused''), w)), si_Update = (\<lambda>s w. (Some (NewErr ''refused''), w)),
        si_IsNotFound = (\<lambda>e. True)\<rparr>,
      ev_url_Parse = Ok, ev_RootCert = (\<lambda>u w. (Ok ''R'', w)), ev_rsa_GenerateKey = (\<lambda>_. Ok ''rsakey''),
      ev_ecdsa_GenerateKey = (\<lambda>_. Ok ''eckey''), ev_rand = [], ev_lib = ref_lib, ev_order = sorted_order\<rparr>"

theorem createtree_feeds_ctconfig_witness:
  "\<exists>w' i chain cmc w''. createtree_main mem_createtree createtree_defaults
      \<lparr>tw_cms = (\<lambda>ns n. Some \<lparr>cm_Data = None, cm_BinaryData = None\<rparr>), tw_next = - 77\<rparr> = (Ok (), w')
    \<and> read_inputs feed_env (ct_default_flags\<lparr>fl_cmname := ''rekor-config''\<rparr>) w' = (Ok (i, chain, cmc), w'')
    \<and> i = - 77"
proof -
  let ?old = "\<lparr>cm_Data = None, cm_BinaryData = None\<rparr>"
  let ?w = "\<lparr>tw_cms = (\<lambda>ns n. Some ?old), tw_next = - 77\<rparr>"
  let ?cm = "\<lparr>cm_Data = Some [treeKey \<mapsto> itoa_int (- 77)], cm_BinaryData = None\<rparr>"
  let ?w' = "\<lparr>tw_cms = (\<lambda>ns n. if ns = ''rekor-system'' \<and> n = ''rekor-config'' then Some ?cm else Some ?old),
      tw_next = - 76\<rparr>"
  let ?G = "ct_default_flags\<lparr>fl_cmname := ''rekor-config''\<rparr>"
  have parse: "ParseInt (itoa_int (- 77)) = Ok (- 77)"
    by (rule ParseInt_itoa_int) (simp add: int64_range_def)
  have run: "createtree_main mem_createtree createtree_defaults ?w = (Ok (), ?w')"
    by (simp add: createtree_main_def createTree_def newRequest_def io_bind.simps io_ret_def io_map_out_def
        or_fatal_def mem_createtree_def createtree_defaults_def zero_tree_def int64_range_def Let_def fun_eq_iff)
  have inputs: "read_inputs feed_env ?G ?w' = (Ok (- 77, ''R'', None), ?w')"
    using parse by (simp add: read_inputs_def io_bind.simps io_ret_def io_map_out_def or_panic_def feed_env_def
        mem_createtree_def treeKey_def)
  have shared: "\<forall>n v. ev_ConfigMapGet feed_env n v = cv_ConfigMapGet mem_createtree (cf_ns createtree_defaults) n v"
    by (simp add: feed_env_def createtree_defaults_def)
  have name: "fl_cmname ?G = cf_cmname createtree_defaults" by (simp add: createtree_defaults_def)
  show ?thesis
    using createtree_feeds_ctconfig [OF memcm.config_maps_axioms shared name run inputs] run inputs by blast
qed

section \<open>From the secrets of the jobs to the TUF repository\<close>

text \<open>
  C4. What a client finds in the TUF repository is what the jobs left in their secrets. When
  createsecret returned, its secret was mounted into the server, beside entries of the volume whose
  names begin with two dots, and the initialisation of the server returned too, then the repository
  that was built, whose archive was unpacked into the served directory, publishes the Fulcio
  certificate and the public keys of the transparency log and of Rekor, each with the very bytes
  of the secret of its job and the usage of its service, the time stamping chain as one trimmed
  file per certificate, the generated files that were asked for, and nothing else.
\<close>

theorem tuf_publishes_job_secrets:
  assumes "kube_job K view" and "createsecret_main K F w = (Ok (), w')"
    and "view w' (tf_secretName F) = Some s"
    and "dk_faults (ho_disk h) = []" and "is_rooted (TrimSuffix certsDir ''/'')"
    and "fs_get (dk_root (ho_disk h)) (resolve (dk_cwd (ho_disk h)) (TrimSuffix certsDir ''/'')) = Some (tuf_volume dots s)"
    and "\<forall>e \<in> set dots. HasPrefix (fst e) ''..''"
    and "kube_job (se_kube E) serverview" and "tuf_repository (se_store E) staged published"
    and "sf_metadataTargets G"
    and "initTUFRepo E G certsDir targetDir repoSecret keysSecret h = (Ok (), h')"
  shows "\<exists>f c r t m repo d1 meta d2 archive d3 disk0.
      view w (tf_fulcioSecret F) = Some f \<and> view w (tf_ctlogSecret F) = Some c
    \<and> view w (tf_rekorSecret F) = Some r \<and> view w (tf_tsaSecret F) = Some t
    \<and> SplitCertChain (rl_pem (se_lib E)) (go_get t tsaCertChainKey) ''tsa'' = Ok m
    \<and> published d1 repo fulcioSecretKeyOut = Some (go_get f fulcioSecretKey, active_metadata FulcioTarget)
    \<and> published d1 repo ctSecretKeyOut = Some (go_get c ctSecretKey, active_metadata CTFETarget)
    \<and> published d1 repo rekorSecretKeyOut = Some (go_get r rekorSecretKey, active_metadata RekorTarget)
    \<and> (\<forall>k \<in> dom m. published d1 repo k = Some (TrimSpace (go_get m k), active_metadata TSATarget))
    \<and> dom (published d1 repo) = {fulcioSecretKeyOut, ctSecretKeyOut, rekorSecretKeyOut} \<union> dom m
        \<union> (if sf_trustedRoot G then {''trusted_root.json''} else {})
        \<union> (if sf_signingConfig G then {''signing_config.v0.2.json''} else {})
    \<and> st_GetMeta (se_store E) repo d1 = (Ok meta, d2) \<and> compress_repo E repo d2 = (Ok archive, d3)
    \<and> Uncompress (se_codec E) archive targetDir disk0 = (Ok (), ho_disk h')"
proof -
  obtain f c r t where src: "view w (tf_fulcioSecret F) = Some f" "view w (tf_ctlogSecret F) = Some c"
      "view w (tf_rekorSecret F) = Some r" "view w (tf_tsaSecret F) = Some t"
    and v: "view w' = (view w)(tf_secretName F \<mapsto> (case view w (tf_secretName F) of
       None \<Rightarrow> tuf_secret_data f c r t | Some m \<Rightarrow> reconciled m (tuf_secret_data f c r t)))"
    by (rule createsecret_OkE [OF assms(1,2)]) (rule that)
  have s: "go_get s fulcioSecretKeyOut = go_get f fulcioSecretKey" "go_get s ctSecretKeyOut = go_get c ctSecretKey"
    "go_get s rekorSecretKeyOut = go_get r rekorSecretKey" "go_get s tsaCertChainOut = go_get t tsaCertChainKey"
    using assms(3) unfolding v by (auto simp: tuf_secret_data_def tuf_secret_keys split: option.splits)
  show ?thesis
  proof (rule init_publishes_targets [OF assms(8,9,4,5,6,7,10,11), unfolded s], goal_cases)
    case (1 m repo d1 meta d2 c' d3 disk0)
    with src show ?thesis by (intro exI conjI) assumption+
  qed
qed

text \<open>The server of the example, with its secret mounted.\<close>

lemma example_mounted:
  "dk_faults (ho_disk example_host) = []" "is_rooted (TrimSuffix ''/in'' ''/'')"
  "fs_get (dk_root (ho_disk example_host)) (resolve (dk_cwd (ho_disk example_host)) (TrimSuffix ''/in'' ''/''))
     = Some (tuf_volume [(''..data'', Dir [])] example_tuf_secret)"
  "\<forall>e \<in> set [(''..data'', Dir [])]. HasPrefix (fst e) ''..''"
  "kube_job (se_kube ref_server) mem_view"
  "tuf_repository (se_store ref_server) (ref_targets ''staged'') (ref_targets ''repository'')"
  "sf_metadataTargets example_flags"
proof -
  have trim: "TrimSuffix ''/in'' ''/'' = ''/in''" by (simp add: TrimSuffix_def HasSuffix_def)
  have path: "resolve [] ''/in'' = [''in'']" by code_simp
  show "dk_faults (ho_disk example_host) = []" "is_rooted (TrimSuffix ''/in'' ''/'')"
    "fs_get (dk_root (ho_disk example_host)) (resolve (dk_cwd (ho_disk example_host)) (TrimSuffix ''/in'' ''/''))
       = Some (tuf_volume [(''..data'', Dir [])] example_tuf_secret)"
    unfolding trim by (simp_all add: example_host_def path is_rooted_def)
  show "kube_job (se_kube ref_server) mem_view"
    "tuf_repository (se_store ref_server) (ref_targets ''staged'') (ref_targets ''repository'')"
    using refkube.kube_job_axioms ref_tuf.tuf_repository_axioms by (simp_all add: ref_server_defs)
  show "sf_metadataTargets example_flags" by (simp add: example_flags_def server_default_flags_def)
qed simp

theorem tuf_publishes_job_secrets_witness:
  "\<exists>w' h' repo d1 archive disk0. createsecret_main ref_kube tuf_secret_defaults (example_secrets example_chain) = (Ok (), w')
    \<and> initTUFRepo ref_server example_flags ''/in'' ''/srv'' ''tuf-root'' [] example_host = (Ok (), h')
    \<and> ref_targets ''repository'' d1 repo rekorSecretKeyOut = Some (''R'', active_metadata RekorTarget)
    \<and> Uncompress ref_codec archive ''/srv'' disk0 = (Ok (), ho_disk h')"
proof -
  let ?w = "example_secrets example_chain" and ?F = tuf_secret_defaults
  have ne: "example_chain \<noteq> []" by (simp add: example_chain_def example_certs_def)
  from example_createsecret [OF ne] obtain w' where run: "createsecret_main ref_kube ?F ?w = (Ok (), w')" ..
  have sec: "mem_view w' (tf_secretName ?F) = Some example_tuf_secret"
    by (rule createsecret_OkE [OF refkube.kube_job_axioms run])
       (auto simp: mem_view_def example_secrets_def tuf_secret_defaults_def tuf_secret_data_def example_tuf_secret_def tuf_secret_keys)
  obtain h' where init: "initTUFRepo ref_server example_flags ''/in'' ''/srv'' ''tuf-root'' [] example_host = (Ok (), h')"
    using example_init_runs by blast
  from tuf_publishes_job_secrets [OF refkube.kube_job_axioms run sec example_mounted init]
  obtain r repo d1 archive disk0 where
    "mem_view ?w (tf_rekorSecret ?F) = Some r"
    "ref_targets ''repository'' d1 repo rekorSecretKeyOut = Some (go_get r rekorSecretKey, active_metadata RekorTarget)"
    "Uncompress (se_codec ref_server) archive ''/srv'' disk0 = (Ok (), ho_disk h')"
    by - (elim exE conjE, rule that)
  moreover from this(1) have "go_get r rekorSecretKey = ''R''"
    by (auto simp: mem_view_def example_secrets_def tuf_secret_defaults_def tuf_secret_keys)
  ultimately show ?thesis using run init by (auto simp: ref_server_defs)
qed

section \<open>From a new log to its clients\<close>

text \<open>
  C1. The clients get the key of the log. When createctconfig found no secret and made the
  configuration of the log, then whatever runs of the five jobs followed, once createsecret, which
  copies the secret with the public key, returned, its secret was mounted into the server and the
  initialisation returned, the TUF repository publishes for the transparency log the public key of
  the pair that createctconfig stored; and whatever runs follow, the log goes on to have that pair.
\<close>

theorem clients_get_the_log_key:
  assumes "deployment_api P view" and "E \<in> dp_ct P"
    and "view w (fl_secretName (dp_ctlog P)) = None"
    and "create_steps E (dp_ctlog P) treeID chain w = (Ok (), w1)"
    and "history P w1 w2"
    and "tf_ctlogSecret (dp_tuf P) = fl_pubKeySecretName (dp_ctlog P)"
    and "createsecret_main (dp_kube P) (dp_tuf P) w2 = (Ok (), w3)"
    and "view w3 (tf_secretName (dp_tuf P)) = Some s"
    and "history P w3 w4"
    and "dk_faults (ho_disk h) = []" and "is_rooted (TrimSuffix certsDir ''/'')"
    and "fs_get (dk_root (ho_disk h)) (resolve (dk_cwd (ho_disk h)) (TrimSuffix certsDir ''/'')) = Some (tuf_volume dots s)"
    and "\<forall>e \<in> set dots. HasPrefix (fst e) ''..''"
    and "kube_job (se_kube S) serverview" and "tuf_repository (se_store S) staged published"
    and "sf_metadataTargets G"
    and "initTUFRepo S G certsDir targetDir repoSecret keysSecret h = (Ok (), h')"
  shows "\<exists>priv pub repo d1 meta d2 archive d3 disk0.
      has_keys priv pub (view w1 (fl_secretName (dp_ctlog P)))
    \<and> has_keys priv pub (view w4 (fl_secretName (dp_ctlog P)))
    \<and> published d1 repo ctSecretKeyOut = Some (pub, active_metadata CTFETarget)
    \<and> st_GetMeta (se_store S) repo d1 = (Ok meta, d2) \<and> compress_repo S repo d2 = (Ok archive, d3)
    \<and> Uncompress (se_codec S) archive targetDir disk0 = (Ok (), ho_disk h')"
proof -
  note api = deployment_api.kube [OF assms(1)] and names = deployment_api.names [OF assms(1)]
  obtain priv pub where new: "has_keys priv pub (view w1 (fl_secretName (dp_ctlog P)))"
      "has_public pub (view w1 (fl_pubKeySecretName (dp_ctlog P)))"
    by (rule total_ct.create_makes_keys [OF deployment_api.ct [OF assms(1,2)] assms(4,3) names(2)]) (rule that)
  have public: "has_public pub (view w2 (fl_pubKeySecretName (dp_ctlog P)))"
    by (rule deployment_api.history_keeps_public [OF assms(1,5) new])
  have "history P w2 w3" unfolding history_def using run_tuf [OF assms(7)] by (rule r_into_rtranclp)
  with assms(5,9) have "history P w1 w4" unfolding history_def by (meson rtranclp_trans)
  from deployment_api.history_keeps_keys [OF assms(1) this new(1)]
  have keys: "has_keys priv pub (view w4 (fl_secretName (dp_ctlog P)))" .
  have s: "go_get s ctSecretKeyOut = pub"
    by (rule createsecret_OkE [OF total_job.axioms(1) [OF api] assms(7)])
       (use public assms(6,8) in \<open>auto simp: has_public_def PublicKey_def tuf_secret_data_def tuf_secret_keys split: option.splits\<close>)
  show ?thesis
  proof (rule init_publishes_targets [OF assms(14,15,10-13,16,17), unfolded s], goal_cases)
    case (1 m repo d1 meta d2 c d3 disk0)
    with new(1) keys show ?thesis by blast
  qed
qed

text \<open>A log whose library writes every PEM block as one letter, beside the secrets of the other jobs.\<close>

definition client_env :: "(cluster, bytes, bytes, bytes, PEMKeyFile) ct_env" where
  "client_env = ref_env\<lparr>ev_lib := ref_lib\<lparr>pem_EncodeToMemory := \<lambda>b. Some ''C''\<rparr>\<rparr>"

definition client_secrets :: cluster where
  "client_secrets = \<lparr>cl_store = [''fulcio-pub-key'' \<mapsto> Some [''cert'' \<mapsto> ''F''],
      ''rekor-pub-key'' \<mapsto> Some [''public'' \<mapsto> ''R''], ''tsa-cert-chain'' \<mapsto> Some [''cert-chain'' \<mapsto> example_chain]],
     cl_faults = []\<rparr>"

interpretation client: total_ct client_env mem_view
  by (rule mem_total_ct [OF mem_ct_job]) (simp_all add: client_env_def ref_env_def)

lemma client_deployment: "deployment_api (ref_deployment\<lparr>dp_ct := {client_env}\<rparr>) mem_view"
  using refdeploy.apart
  by (intro deployment_api.intro) (simp_all add: ref_deployment_def reftotal.total_job_axioms client.total_ct_axioms names_apart_def)

lemma client_creates:
  obtains w1 where "create_steps client_env ct_default_flags 42 fulcio_chain client_secrets = (Ok (), w1)"
    "mem_view w1 ''ctlog-public-key'' = Some [PublicKey \<mapsto> ''C'']"
    "\<forall>n. n \<notin> {''ctlog-secrets'', ''ctlog-public-key''} \<longrightarrow> mem_view w1 n = mem_view client_secrets n"
proof -
  let ?F = ct_default_flags
  have E: "ev_lib client_env = ref_lib\<lparr>pem_EncodeToMemory := \<lambda>b. Some ''C''\<rparr>"
    "ev_ecdsa_GenerateKey client_env = (\<lambda>_. Ok ''eckey'')" "ev_secrets client_env = mem_if False"
    "ev_order client_env = sorted_order"
    by (simp_all add: client_env_def ref_env_def)
  obtain m where m: "new_config client_env ?F 42 fulcio_chain = Ok m" "finite (dom m)" "m PublicKey = Some ''C''"
    by (rule pod_new_config [OF E(1,2)]) (simp_all add: that)
  have v0: "mem_view client_secrets ''ctlog-secrets'' = None" "mem_view client_secrets ''ctlog-public-key'' = None"
    by (simp_all add: mem_view_def client_secrets_def)
  obtain wa where a: "reconcile_job client_env ''ctlog-secrets'' m client_secrets = (Ok (), wa)"
    "mem_view wa = (mem_view client_secrets)(''ctlog-secrets'' \<mapsto> m)"
    by (rule pod_reconciles [OF E(3,4) m(2), of client_secrets "''ctlog-secrets''"]) (simp_all add: v0 that)
  obtain w1 where b: "reconcile_job client_env ''ctlog-public-key'' [PublicKey \<mapsto> ''C''] wa = (Ok (), w1)"
    "mem_view w1 = (mem_view wa)(''ctlog-public-key'' \<mapsto> [PublicKey \<mapsto> ''C''])"
    by (rule pod_reconciles [OF E(3,4), of "[PublicKey \<mapsto> ''C'']" wa "''ctlog-public-key''"]) (simp_all add: a v0 that)
  have fl: "fl_privateKeySecret ?F = []" "fl_secretName ?F = ''ctlog-secrets''" "fl_pubKeySecretName ?F = ''ctlog-public-key''"
    by (simp_all add: ct_default_flags_def)
  have pk: "go_get m PublicKey = ''C''" using m(3) by (simp add: go_get_def)
  have "create_steps client_env ?F 42 fulcio_chain client_secrets = (Ok (), w1)"
    unfolding create_steps_writes [OF fl(1) m(1)] create_writes_def
    using a(1) b(1) by (simp add: fl pk io_bind.simps io_map_out_def or_fatal_def or_panic_def)
  with a(2) b(2) show thesis by (intro that) auto
qed

theorem clients_get_the_log_key_witness:
  "\<exists>w1 w3 h' priv pub d1 repo.
     create_steps client_env ct_default_flags 42 fulcio_chain client_secrets = (Ok (), w1)
   \<and> createsecret_main ref_kube tuf_secret_defaults w1 = (Ok (), w3)
   \<and> initTUFRepo ref_server example_flags ''/in'' ''/srv'' ''tuf-root'' [] example_host = (Ok (), h')
   \<and> has_keys priv pub (mem_view w3 ''ctlog-secrets'')
   \<and> ref_targets ''repository'' d1 repo ctSecretKeyOut = Some (pub, active_metadata CTFETarget)"
proof -
  let ?P = "ref_deployment\<lparr>dp_ct := {client_env}\<rparr>" and ?F = tuf_secret_defaults
  have P: "dp_ctlog ?P = ct_default_flags" "dp_tuf ?P = ?F" "dp_kube ?P = ref_kube" "client_env \<in> dp_ct ?P"
    by (simp_all add: ref_deployment_def)
  obtain w1 where create: "create_steps client_env ct_default_flags 42 fulcio_chain client_secrets = (Ok (), w1)"
    and v1: "mem_view w1 ''ctlog-public-key'' = Some [PublicKey \<mapsto> ''C'']"
      "\<forall>n. n \<notin> {''ctlog-secrets'', ''ctlog-public-key''} \<longrightarrow> mem_view w1 n = mem_view client_secrets n"
    by (rule client_creates) (rule that)
  have v: "mem_view w1 ''fulcio-pub-key'' = Some [''cert'' \<mapsto> ''F'']" "mem_view w1 ''rekor-pub-key'' = Some [''public'' \<mapsto> ''R'']"
    "mem_view w1 ''tsa-cert-chain'' = Some [''cert-chain'' \<mapsto> example_chain]" "mem_view w1 ''tuf-secrets'' = None"
    using v1(2) by (simp_all add: mem_view_def client_secrets_def)
  have "example_chain \<noteq> []" by (simp add: example_chain_def example_certs_def)
  then obtain w3 where copy: "createsecret_main ref_kube ?F w1 = (Ok (), w3)"
    using refkube.createsecret_live [of w1 ?F "[''cert'' \<mapsto> ''F'']" "[PublicKey \<mapsto> ''C'']" "[''public'' \<mapsto> ''R'']"
        "[''cert-chain'' \<mapsto> example_chain]"] v v1(1)
    by (auto simp: ref_kube_def tuf_secret_defaults_def tuf_secret_keys go_get_def PublicKey_def)
  have sec: "mem_view w3 (tf_secretName ?F) = Some example_tuf_secret"
    by (rule createsecret_OkE [OF refkube.kube_job_axioms copy])
       (use v v1(1) in \<open>auto simp: tuf_secret_defaults_def tuf_secret_data_def example_tuf_secret_def tuf_secret_keys PublicKey_def go_get_def\<close>)
  obtain h' where init: "initTUFRepo ref_server example_flags ''/in'' ''/srv'' ''tuf-root'' [] example_host = (Ok (), h')"
    using example_init_runs by blast
  have none: "mem_view client_secrets (fl_secretName (dp_ctlog ?P)) = None"
    by (simp add: P(1) ct_default_flags_def mem_view_def client_secrets_def)
  have name: "tf_ctlogSecret (dp_tuf ?P) = fl_pubKeySecretName (dp_ctlog ?P)"
    by (simp add: P tuf_secret_defaults_def ct_default_flags_def)
  have refl: "history ?P w w" for w by (simp add: history_def)
  from clients_get_the_log_key [OF client_deployment P(4) none create [folded P(1)] refl name copy [folded P(2,3)]
      sec [folded P(2)] refl example_mounted init] create copy init
  show ?thesis by (auto simp: ct_default_flags_def P)
qed

end
